(* ===== verification/Prelude.thy ===== *)
theory Prelude
  imports Main "HOL-Library.Word" "HOL-Library.List_Lexorder" "HOL-Library.Char_ord"
begin

text \<open>
  Shared vocabulary of the development: the machine integers of the Rust sources at their width,
  byte strings, UTF-8 bytes of a string, big-endian integers (\<open>to_be_bytes\<close> and
  \<open>from_be_bytes\<close> of the standard library), strictly ordered key lists, and the
  collections of rewrite rules the component theories extend.
\<close>

section \<open>Machine integers and byte strings\<close>

type_synonym u8 = "8 word"
type_synonym u16 = "16 word"
type_synonym u32 = "32 word"
type_synonym u64 = "64 word"

type_synonym bytes = "u8 list"

named_theorems act_simps \<open>inversion rules of the effect combinators\<close>
named_theorems key_defs \<open>definitions of the storage keys\<close>

text \<open>
  A Rust \<open>String\<close> is its sequence of UTF-8 bytes; an Isabelle character is one byte, so
  \<open>into_bytes\<close> maps every character to its byte.
\<close>

definition utf8 :: "string \<Rightarrow> bytes" where
  "utf8 s = map of_char s"

lemma unat_of_char_u8 [simp]: "unat (of_char c :: u8) = of_char c"
proof -
  have "(of_char c :: u8) = of_nat (of_char c)"
    by (simp only: of_nat_of_char)
  moreover have "(of_char c :: nat) < 2 ^ LENGTH(8)"
    using nat_of_char_less_256 [of c] by simp
  ultimately show ?thesis
    by (simp only: unsigned_of_nat take_bit_nat_eq_self of_nat_id)
qed

lemma of_char_u8_inject [simp]: "(of_char c :: u8) = of_char d \<longleftrightarrow> c = d"
  by (simp only: word_unat_eq_iff unat_of_char_u8 of_char_eq_iff)

lemma utf8_inject [simp]: "utf8 s = utf8 t \<longleftrightarrow> s = t"
  by (auto simp: utf8_def inj_map_eq_map inj_on_def)

lemma utf8_append [simp]: "utf8 (s @ t) = utf8 s @ utf8 t"
  by (simp add: utf8_def)

lemma utf8_Nil [simp]: "utf8 [] = []"
  by (simp add: utf8_def)

lemma utf8_Cons: "utf8 (c # s) = of_char c # utf8 s"
  by (simp add: utf8_def)

lemma length_utf8 [simp]: "length (utf8 s) = length s"
  by (simp add: utf8_def)

section \<open>Big-endian integers\<close>

fun be_nat :: "nat \<Rightarrow> nat \<Rightarrow> bytes" where
  "be_nat 0 x = []"
| "be_nat (Suc n) x = be_nat n (x div 256) @ [of_nat (x mod 256)]"

definition nat_be :: "bytes \<Rightarrow> nat" where
  "nat_be bs = foldl (\<lambda>a b. a * 256 + unat b) 0 bs"

definition u64_to_be_bytes :: "u64 \<Rightarrow> bytes" where
  "u64_to_be_bytes w = be_nat 8 (unat w)"

definition u64_from_be_bytes :: "bytes \<Rightarrow> u64" where
  "u64_from_be_bytes bs = of_nat (nat_be bs)"

definition u32_to_be_bytes :: "u32 \<Rightarrow> bytes" where
  "u32_to_be_bytes w = be_nat 4 (unat w)"

definition u32_from_be_bytes :: "bytes \<Rightarrow> u32" where
  "u32_from_be_bytes bs = of_nat (nat_be bs)"

lemma length_be_nat [simp]: "length (be_nat n x) = n"
  by (induction n arbitrary: x) auto

lemma nat_be_Nil [simp]: "nat_be [] = 0"
  by (simp add: nat_be_def)

lemma nat_be_snoc [simp]: "nat_be (bs @ [b]) = nat_be bs * 256 + unat b"
  by (simp add: nat_be_def)

lemma nat_be_be_nat [simp]: "nat_be (be_nat n x) = x mod 256 ^ n"
proof (induction n arbitrary: x)
  case (Suc n)
  have "x mod 256 ^ Suc n = 256 * (x div 256 mod 256 ^ n) + x mod 256"
    by (simp add: mod_mult2_eq)
  then show ?case
    by (simp add: Suc.IH unsigned_of_nat take_bit_eq_mod)
qed simp

lemma nat_be_less: "nat_be bs < 256 ^ length bs"
proof (induction bs rule: rev_induct)
  case (snoc b bs)
  have "unat b < 256"
    using unsigned_less [of b] by simp
  with snoc show ?case by simp
qed simp

lemma u64_be_roundtrip [simp]: "u64_from_be_bytes (u64_to_be_bytes w) = w"
proof -
  have "unat w < 256 ^ 8"
    using unsigned_less [of w] by simp
  then show ?thesis
    by (simp add: u64_from_be_bytes_def u64_to_be_bytes_def)
qed

lemma u32_be_roundtrip [simp]: "u32_from_be_bytes (u32_to_be_bytes w) = w"
proof -
  have "unat w < 256 ^ 4"
    using unsigned_less [of w] by simp
  then show ?thesis
    by (simp add: u32_from_be_bytes_def u32_to_be_bytes_def)
qed

lemma length_u64_to_be_bytes [simp]: "length (u64_to_be_bytes w) = 8"
  by (simp add: u64_to_be_bytes_def)

lemma length_u32_to_be_bytes [simp]: "length (u32_to_be_bytes w) = 4"
  by (simp add: u32_to_be_bytes_def)

text \<open>Byte strings of one length are ordered as the numbers they denote.\<close>

lemma nat_be_Cons: "nat_be (b # bs) = unat b * 256 ^ length bs + nat_be bs"
  by (induction bs rule: rev_induct) (simp_all add: nat_be_def algebra_simps)

lemma be_less_iff:
  assumes "length bs = length cs"
  shows "bs < cs \<longleftrightarrow> nat_be bs < nat_be cs"
  using assms
proof (induction bs cs rule: list_induct2)
  case (Cons b bs c cs)
  have bnd: "nat_be bs < 256 ^ length cs" "nat_be cs < 256 ^ length cs"
    using nat_be_less [of bs] nat_be_less [of cs] Cons.hyps by simp_all
  have step: "u * 256 ^ length cs + nat_be x < v * 256 ^ length cs + nat_be y"
    if "u < v" "nat_be x < 256 ^ length cs" for u v :: nat and x y
  proof -
    from that(1) have "Suc u * 256 ^ length cs \<le> v * 256 ^ length cs"
      by (intro mult_right_mono) auto
    with that(2) show ?thesis by simp
  qed
  show ?case
  proof (cases "b = c")
    case True
    with Cons show ?thesis by (simp add: nat_be_Cons)
  next
    case False
    then consider "unat b < unat c" | "unat c < unat b"
      by (metis linorder_neqE_nat word_unat_eq_iff)
    then show ?thesis
    proof cases
      case 1
      with step [OF 1 bnd(1), of cs] Cons.hyps show ?thesis
        by (simp add: nat_be_Cons word_less_nat_alt)
    next
      case 2
      with step [OF 2 bnd(2), of bs] Cons.hyps False show ?thesis
        by (simp add: nat_be_Cons word_less_nat_alt)
    qed
  qed
qed simp

lemma nat_be_inject:
  assumes "length bs = length cs" "nat_be bs = nat_be cs"
  shows "bs = cs"
proof (rule ccontr)
  assume "bs \<noteq> cs"
  then consider "bs < cs" | "cs < bs"
    by (rule linorder_neqE)
  then show False
    using assms be_less_iff [of bs cs] be_less_iff [of cs bs] by cases simp_all
qed

lemma nat_be_append: "nat_be (xs @ ys) = nat_be xs * 256 ^ length ys + nat_be ys"
  by (induction xs) (simp_all add: nat_be_Cons algebra_simps power_add)

lemma nat_be_u64: "nat_be (u64_to_be_bytes w) = unat w"
proof -
  have "unat w < 256 ^ 8"
    using unsigned_less [of w] by simp
  then show ?thesis
    by (simp add: u64_to_be_bytes_def)
qed

section \<open>Decimal notation\<close>

text \<open>\<open>to_string\<close> of an unsigned integer.\<close>

fun nat_str :: "nat \<Rightarrow> string" where
  "nat_str n = (if n < 10 then [char_of (48 + n)] else nat_str (n div 10) @ [char_of (48 + n mod 10)])"

declare nat_str.simps [simp del]

section \<open>UTF-8 validation\<close>

text \<open>\<open>std::str::from_utf8\<close>: well-formed sequences of one to four bytes.\<close>

definition utf8_cont :: "u8 \<Rightarrow> bool" where
  "utf8_cont b \<longleftrightarrow> 0x80 \<le> b \<and> b \<le> 0xBF"

fun utf8_valid :: "bytes \<Rightarrow> bool" where
  "utf8_valid [] = True"
| "utf8_valid (b # bs) =
    (if b < 0x80 then utf8_valid bs
     else if 0xC2 \<le> b \<and> b \<le> 0xDF then
       (case bs of c # cs \<Rightarrow> utf8_cont c \<and> utf8_valid cs | _ \<Rightarrow> False)
     else if 0xE0 \<le> b \<and> b \<le> 0xEF then
       (case bs of c # d # ds \<Rightarrow>
          utf8_cont c \<and> (b = 0xE0 \<longrightarrow> 0xA0 \<le> c) \<and> (b = 0xED \<longrightarrow> c \<le> 0x9F) \<and> utf8_cont d \<and> utf8_valid ds
        | _ \<Rightarrow> False)
     else if 0xF0 \<le> b \<and> b \<le> 0xF4 then
       (case bs of c # d # e # es \<Rightarrow>
          utf8_cont c \<and> (b = 0xF0 \<longrightarrow> 0x90 \<le> c) \<and> (b = 0xF4 \<longrightarrow> c \<le> 0x8F) \<and> utf8_cont d \<and> utf8_cont e \<and> utf8_valid es
        | _ \<Rightarrow> False)
     else False)"

definition from_utf8 :: "bytes \<Rightarrow> string + string" where
  "from_utf8 bs = (if utf8_valid bs then Inr (map (\<lambda>b. char_of (unat b)) bs) else Inl ''invalid utf-8 sequence'')"

lemma utf8_valid_ascii: "(\<forall>c\<in>set s. (of_char c :: nat) < 128) \<Longrightarrow> utf8_valid (utf8 s)"
  by (induction s) (simp_all add: utf8_Cons word_less_nat_alt)

lemma map_char_of_utf8: "map (\<lambda>b. char_of (unat b)) (utf8 s) = s"
  by (induction s) (simp_all add: utf8_Cons)

lemma from_utf8_ascii: "(\<forall>c\<in>set s. (of_char c :: nat) < 128) \<Longrightarrow> from_utf8 (utf8 s) = Inr s"
  by (simp add: from_utf8_def utf8_valid_ascii map_char_of_utf8)

section \<open>Strictly ordered keys\<close>

abbreviation keys_sorted :: "('k::linorder \<times> 'v) list \<Rightarrow> bool" where
  "keys_sorted b \<equiv> sorted_wrt (<) (map fst b)"

lemma keys_sorted_distinct: "keys_sorted b \<Longrightarrow> distinct (map fst b)"
  by (simp add: strict_sorted_iff)

lemma sort_key_keys_sorted:
  assumes "distinct (map fst b)"
  shows "keys_sorted (sort_key fst b)"
proof -
  have "distinct (map fst (sort_key fst b))"
    using assms by (simp add: distinct_map)
  then show ?thesis
    by (simp add: strict_sorted_iff)
qed

lemma map_of_sort_key:
  assumes "distinct (map fst b)"
  shows "map_of (sort_key fst b) = map_of b"
proof -
  have d: "distinct (map fst (sort_key fst b))"
    using sort_key_keys_sorted [OF assms] keys_sorted_distinct by blast
  show ?thesis
    by (rule map_of_eqI) (use assms d in \<open>auto simp: map_of_eq_Some_iff\<close>)
qed

lemma keys_sorted_map_of_inject:
  assumes "keys_sorted b" "keys_sorted c" "map_of b = map_of c"
  shows "b = c"
proof -
  have rebuild: "map (\<lambda>k. (k, the (map_of d k))) (map fst d) = d" if "distinct (map fst d)" for d :: "('a \<times> 'b) list"
    using that
  proof (induction d)
    case (Cons e d)
    then have "map (\<lambda>k. (k, the (map_of (e # d) k))) (map fst d) = map (\<lambda>k. (k, the (map_of d k))) (map fst d)"
      by (intro map_cong) (auto simp: image_iff)
    with Cons show ?case by simp
  qed simp
  have "set (map fst b) = set (map fst c)"
    using assms(3) by (metis dom_map_of_conv_image_fst set_map)
  then have "map fst b = map fst c"
    using assms(1,2) by (intro strict_sorted_equal) simp_all
  then have "map (\<lambda>k. (k, the (map_of b k))) (map fst b) = map (\<lambda>k. (k, the (map_of c k))) (map fst c)"
    by (simp only: assms(3))
  then show ?thesis
    unfolding rebuild [OF keys_sorted_distinct [OF assms(1)]] rebuild [OF keys_sorted_distinct [OF assms(2)]] .
qed

section \<open>Invariants of transition systems\<close>

locale transition_invariant =
  fixes step :: "'s \<Rightarrow> 's \<Rightarrow> bool" and inv :: "'s \<Rightarrow> bool"
  assumes preserved: "step s t \<Longrightarrow> inv s \<Longrightarrow> inv t"
begin

lemma reachable: "step\<^sup>*\<^sup>* s t \<Longrightarrow> inv s \<Longrightarrow> inv t"
  by (induction rule: rtranclp_induct) (blast intro: preserved)+

end

end
