(* ===== verification/Many_Error.thy ===== *)
theory Many_Error
  imports Prelude
begin

text \<open>
  The error values of \<open>src/src/many-error\<close> and the error tables of the ledger crates.

  A \<open>ManyError\<close> is its code and its named arguments; the message template is fixed by the code in
  the macros that build the errors and is left out. The theory also holds the outcome of a Rust
  function (\<open>result\<close>: a value, an error, or a panic) and the combinators for code that runs on a
  mutable state: an action returns its outcome together with the state, so that what was written
  before an early return stays written.
\<close>

section \<open>Error codes\<close>

datatype many_error_code =
    Unknown
  | MessageTooLong
  | DeserializationError
  | SerializationError
  | UnexpectedEmptyRequest
  | UnexpectedEmptyResponse
  | UnexpectedTransportError
  | CouldNotRouteMessage
  | InvalidAttribtueId
  | InvalidAttributeArguments
  | AttributeNotFound
  | InvalidIdentity
  | InvalidIdentityPrefix
  | InvalidIdentityKind
  | InvalidIdentitySubResourceId
  | SenderCannotBeAnonymous
  | HSMInitError
  | HSMSessionError
  | HSMLoginError
  | HSMKeyIdError
  | HSMSignError
  | HSMVerifyError
  | HSMECPointError
  | HSMECParamsError
  | HSMKeygenError
  | HSMMutexPoisoned
  | InvalidMethodName
  | InvalidFromIdentity
  | InvalidToIdentity
  | CouldNotVerifySignature
  | UnknownDestination
  | EmptyEnvelope
  | TimestampOutOfRange
  | RequiredFieldMissing
  | NonWebAuthnRequestDenied
  | DuplicatedMessage
  | InternalServerError
  | AttributeSpecific "32 word"
  | ApplicationSpecific u32

text \<open>The table of the \<open>many_error!\<close> macro.\<close>

definition many_error_table :: "(int \<times> many_error_code) list" where
  "many_error_table =
    [(-1, Unknown), (-2, MessageTooLong), (-3, DeserializationError), (-4, SerializationError),
     (-5, UnexpectedEmptyRequest), (-6, UnexpectedEmptyResponse), (-7, UnexpectedTransportError),
     (-8, CouldNotRouteMessage), (-9, InvalidAttribtueId), (-10, InvalidAttributeArguments),
     (-11, AttributeNotFound), (-100, InvalidIdentity), (-101, InvalidIdentityPrefix),
     (-102, InvalidIdentityKind), (-103, InvalidIdentitySubResourceId),
     (-104, SenderCannotBeAnonymous), (-200, HSMInitError), (-201, HSMSessionError),
     (-202, HSMLoginError), (-203, HSMKeyIdError), (-204, HSMSignError), (-205, HSMVerifyError),
     (-206, HSMECPointError), (-207, HSMECParamsError), (-208, HSMKeygenError),
     (-209, HSMMutexPoisoned), (-1000, InvalidMethodName), (-1001, InvalidFromIdentity),
     (-1002, InvalidToIdentity), (-1003, CouldNotVerifySignature), (-1004, UnknownDestination),
     (-1005, EmptyEnvelope), (-1006, TimestampOutOfRange), (-1007, RequiredFieldMissing),
     (-1008, NonWebAuthnRequestDenied), (-1009, DuplicatedMessage), (-2000, InternalServerError)]"

text \<open>
  \<open>From<ManyErrorCode> for i64\<close> and \<open>From<i64> for ManyErrorCode\<close>: the arms of the table, then the
  two open ranges. The casts \<open>as u32\<close> and \<open>as i32\<close> wrap.
\<close>

fun code_to_i64 :: "many_error_code \<Rightarrow> int" where
  "code_to_i64 (AttributeSpecific x) = sint x"
| "code_to_i64 (ApplicationSpecific x) = uint x"
| "code_to_i64 c = (case find (\<lambda>p. snd p = c) many_error_table of Some p \<Rightarrow> fst p | None \<Rightarrow> 0)"

definition code_from_i64 :: "int \<Rightarrow> many_error_code" where
  "code_from_i64 v =
    (case map_of many_error_table v of
       Some c \<Rightarrow> c
     | None \<Rightarrow>
         if v \<ge> 0 then ApplicationSpecific (word_of_int v)
         else if v \<le> -10000 then AttributeSpecific (word_of_int v)
         else Unknown)"

lemma many_error_table_range: "map_of many_error_table v = Some c \<Longrightarrow> v < 0 \<and> -10000 < v"
  by (drule map_of_SomeD) (auto simp: many_error_table_def)

text \<open>The numeric form of an error code round-trips, with exactly one exception: an
  attribute-specific code above -10000, which no attribute table produces.\<close>

theorem error_code_roundtrip:
  "code_from_i64 (code_to_i64 c) = c \<longleftrightarrow>
     (case c of AttributeSpecific x \<Rightarrow> sint x \<le> -10000 | _ \<Rightarrow> True)"
proof (cases c)
  case (AttributeSpecific x)
  have "map_of many_error_table (sint x) \<noteq> Some (AttributeSpecific y)" for y
    by (rule notI, drule map_of_SomeD) (auto simp: many_error_table_def)
  then show ?thesis
    using AttributeSpecific many_error_table_range [of "sint x"]
    by (auto simp: code_from_i64_def split: option.splits)
next
  case (ApplicationSpecific x)
  then show ?thesis
    using many_error_table_range [of "uint x"] by (auto simp: code_from_i64_def split: option.splits)
qed (simp_all add: code_from_i64_def many_error_table_def)

section \<open>Errors\<close>

datatype many_error = ManyError (err_code: many_error_code) (err_args: "(string \<times> string) list")

definition attribute_specific :: "32 word \<Rightarrow> (string \<times> string) list \<Rightarrow> many_error" where
  "attribute_specific c args = ManyError (AttributeSpecific c) args"

definition application_specific :: "u32 \<Rightarrow> (string \<times> string) list \<Rightarrow> many_error" where
  "application_specific c args = ManyError (ApplicationSpecific c) args"

text \<open>The code computed by \<open>define_attribute_many_error!\<close>: module times -10000 minus the id.\<close>

definition attribute_error :: "int \<Rightarrow> int \<Rightarrow> (string \<times> string) list \<Rightarrow> many_error" where
  "attribute_error m i args = attribute_specific (word_of_int m * word_of_int (-10000) - word_of_int i) args"

text \<open>The constructors that \<open>many_error!\<close> makes of the rows of the table, for the codes used below.\<close>

abbreviation unknown :: "string \<Rightarrow> many_error" where
  "unknown message \<equiv> ManyError Unknown [(''message'', message)]"

abbreviation deserialization_error :: "string \<Rightarrow> many_error" where
  "deserialization_error details \<equiv> ManyError DeserializationError [(''details'', details)]"

abbreviation serialization_error :: "string \<Rightarrow> many_error" where
  "serialization_error details \<equiv> ManyError SerializationError [(''details'', details)]"

abbreviation invalid_attribute_arguments :: "many_error" where
  "invalid_attribute_arguments \<equiv> ManyError InvalidAttributeArguments []"

abbreviation attribute_not_found :: "string \<Rightarrow> many_error" where
  "attribute_not_found i \<equiv> ManyError AttributeNotFound [(''id'', i)]"

abbreviation invalid_identity :: "many_error" where
  "invalid_identity \<equiv> ManyError InvalidIdentity []"

abbreviation invalid_identity_prefix :: "string \<Rightarrow> many_error" where
  "invalid_identity_prefix actual \<equiv> ManyError InvalidIdentityPrefix [(''actual'', actual)]"

abbreviation invalid_identity_kind :: "string \<Rightarrow> many_error" where
  "invalid_identity_kind actual \<equiv> ManyError InvalidIdentityKind [(''actual'', actual)]"

abbreviation invalid_identity_subid :: "many_error" where
  "invalid_identity_subid \<equiv> ManyError InvalidIdentitySubResourceId []"

abbreviation could_not_route_message :: "many_error" where
  "could_not_route_message \<equiv> ManyError CouldNotRouteMessage []"

abbreviation invalid_method_name :: "string \<Rightarrow> many_error" where
  "invalid_method_name method \<equiv> ManyError InvalidMethodName [(''method'', method)]"

abbreviation invalid_from_identity :: "many_error" where
  "invalid_from_identity \<equiv> ManyError InvalidFromIdentity []"

abbreviation unknown_destination :: "string \<Rightarrow> string \<Rightarrow> many_error" where
  "unknown_destination to' this' \<equiv> ManyError UnknownDestination [(''to'', to'), (''this'', this')]"

abbreviation empty_envelope :: "many_error" where
  "empty_envelope \<equiv> ManyError EmptyEnvelope []"

abbreviation timestamp_out_of_range :: "many_error" where
  "timestamp_out_of_range \<equiv> ManyError TimestampOutOfRange []"

abbreviation required_field_missing :: "string \<Rightarrow> many_error" where
  "required_field_missing field \<equiv> ManyError RequiredFieldMissing [(''field'', field)]"

abbreviation duplicated_message :: "many_error" where
  "duplicated_message \<equiv> ManyError DuplicatedMessage []"

text \<open>The four tables of \<open>many-ledger/src/error.rs\<close>: attributes 2, 11 and 12 and the application errors.\<close>

datatype ledger_error_kind =
    UnknownSymbol string
  | Unauthorized
  | InsufficientFunds
  | AnonymousCannotHoldFunds
  | InvalidInitialState string string
  | UnexpectedSubresourceId string string
  | UnexpectedAccountId string string
  | DestinationIsSource
  | AmountIsZero
  | StorageKeyNotFound string
  | TokenInfoNotFound string
  | ExtInfoNotFound string
  | InvalidSender
  | TickerExists string
  | SubresourceExhausted string
  | InvalidTickerLength string
  | SymbolNotFound string
  | OverMaximumSupply string string string
  | MissingFunds string string string
  | UnableToDistributeZero string
  | PartialBurnDisabled
  | NoTokenOwner
  | StorageApplyFailed string
  | StorageGetFailed string
  | StorageCommitFailed string
  | StorageOpenFailed string
  | UnableToLoadMigrations string

fun ledger_error :: "ledger_error_kind \<Rightarrow> many_error" where
  "ledger_error (UnknownSymbol symbol) = attribute_error 2 1 [(''symbol'', symbol)]"
| "ledger_error Unauthorized = attribute_error 2 2 []"
| "ledger_error InsufficientFunds = attribute_error 2 3 []"
| "ledger_error AnonymousCannotHoldFunds = attribute_error 2 4 []"
| "ledger_error (InvalidInitialState expected actual) = attribute_error 2 5 [(''expected'', expected), (''actual'', actual)]"
| "ledger_error (UnexpectedSubresourceId expected actual) = attribute_error 2 6 [(''expected'', expected), (''actual'', actual)]"
| "ledger_error (UnexpectedAccountId expected actual) = attribute_error 2 7 [(''expected'', expected), (''actual'', actual)]"
| "ledger_error DestinationIsSource = attribute_error 2 8 []"
| "ledger_error AmountIsZero = attribute_error 2 9 []"
| "ledger_error (StorageKeyNotFound key) = attribute_error 2 10 [(''key'', key)]"
| "ledger_error (TokenInfoNotFound symbol) = attribute_error 11 1 [(''symbol'', symbol)]"
| "ledger_error (ExtInfoNotFound symbol) = attribute_error 11 2 [(''symbol'', symbol)]"
| "ledger_error InvalidSender = attribute_error 11 3 []"
| "ledger_error (TickerExists ticker) = attribute_error 11 4 [(''ticker'', ticker)]"
| "ledger_error (SubresourceExhausted key) = attribute_error 11 5 [(''key'', key)]"
| "ledger_error (InvalidTickerLength ticker) = attribute_error 11 6 [(''ticker'', ticker)]"
| "ledger_error (SymbolNotFound symbol) = attribute_error 12 1 [(''symbol'', symbol)]"
| "ledger_error (OverMaximumSupply symbol amount mx) = attribute_error 12 2 [(''symbol'', symbol), (''amount'', amount), (''max'', mx)]"
| "ledger_error (MissingFunds symbol amount balance) = attribute_error 12 3 [(''symbol'', symbol), (''amount'', amount), (''balance'', balance)]"
| "ledger_error (UnableToDistributeZero symbol) = attribute_error 12 4 [(''symbol'', symbol)]"
| "ledger_error PartialBurnDisabled = attribute_error 12 5 []"
| "ledger_error NoTokenOwner = attribute_error 12 6 []"
| "ledger_error (StorageApplyFailed desc) = application_specific 1 [(''desc'', desc)]"
| "ledger_error (StorageGetFailed desc) = application_specific 2 [(''desc'', desc)]"
| "ledger_error (StorageCommitFailed desc) = application_specific 3 [(''desc'', desc)]"
| "ledger_error (StorageOpenFailed desc) = application_specific 4 [(''desc'', desc)]"
| "ledger_error (UnableToLoadMigrations desc) = application_specific 5 [(''desc'', desc)]"

declare ledger_error.simps [simp del]

abbreviation unknown_symbol :: "string \<Rightarrow> many_error" where
  "unknown_symbol symbol \<equiv> ledger_error (UnknownSymbol symbol)"

abbreviation unauthorized :: "many_error" where
  "unauthorized \<equiv> ledger_error Unauthorized"

abbreviation insufficient_funds :: "many_error" where
  "insufficient_funds \<equiv> ledger_error InsufficientFunds"

abbreviation anonymous_cannot_hold_funds :: "many_error" where
  "anonymous_cannot_hold_funds \<equiv> ledger_error AnonymousCannotHoldFunds"

abbreviation invalid_initial_state :: "string \<Rightarrow> string \<Rightarrow> many_error" where
  "invalid_initial_state expected actual \<equiv> ledger_error (InvalidInitialState expected actual)"

abbreviation unexpected_subresource_id :: "string \<Rightarrow> string \<Rightarrow> many_error" where
  "unexpected_subresource_id expected actual \<equiv> ledger_error (UnexpectedSubresourceId expected actual)"

abbreviation unexpected_account_id :: "string \<Rightarrow> string \<Rightarrow> many_error" where
  "unexpected_account_id expected actual \<equiv> ledger_error (UnexpectedAccountId expected actual)"

abbreviation destination_is_source :: "many_error" where
  "destination_is_source \<equiv> ledger_error DestinationIsSource"

abbreviation amount_is_zero :: "many_error" where
  "amount_is_zero \<equiv> ledger_error AmountIsZero"

abbreviation storage_key_not_found :: "string \<Rightarrow> many_error" where
  "storage_key_not_found key \<equiv> ledger_error (StorageKeyNotFound key)"

abbreviation token_info_not_found :: "string \<Rightarrow> many_error" where
  "token_info_not_found symbol \<equiv> ledger_error (TokenInfoNotFound symbol)"

abbreviation ext_info_not_found :: "string \<Rightarrow> many_error" where
  "ext_info_not_found symbol \<equiv> ledger_error (ExtInfoNotFound symbol)"

abbreviation invalid_sender :: "many_error" where
  "invalid_sender \<equiv> ledger_error InvalidSender"

abbreviation ticker_exists :: "string \<Rightarrow> many_error" where
  "ticker_exists ticker \<equiv> ledger_error (TickerExists ticker)"

abbreviation subresource_exhausted :: "string \<Rightarrow> many_error" where
  "subresource_exhausted key \<equiv> ledger_error (SubresourceExhausted key)"

abbreviation invalid_ticker_length :: "string \<Rightarrow> many_error" where
  "invalid_ticker_length ticker \<equiv> ledger_error (InvalidTickerLength ticker)"

abbreviation symbol_not_found :: "string \<Rightarrow> many_error" where
  "symbol_not_found symbol \<equiv> ledger_error (SymbolNotFound symbol)"

abbreviation over_maximum_supply :: "string \<Rightarrow> string \<Rightarrow> string \<Rightarrow> many_error" where
  "over_maximum_supply symbol amount mx \<equiv> ledger_error (OverMaximumSupply symbol amount mx)"

abbreviation missing_funds :: "string \<Rightarrow> string \<Rightarrow> string \<Rightarrow> many_error" where
  "missing_funds symbol amount balance \<equiv> ledger_error (MissingFunds symbol amount balance)"

abbreviation unable_to_distribute_zero :: "string \<Rightarrow> many_error" where
  "unable_to_distribute_zero symbol \<equiv> ledger_error (UnableToDistributeZero symbol)"

abbreviation partial_burn_disabled :: "many_error" where
  "partial_burn_disabled \<equiv> ledger_error PartialBurnDisabled"

abbreviation no_token_owner :: "many_error" where
  "no_token_owner \<equiv> ledger_error NoTokenOwner"

abbreviation storage_apply_failed :: "string \<Rightarrow> many_error" where
  "storage_apply_failed desc \<equiv> ledger_error (StorageApplyFailed desc)"

abbreviation storage_get_failed :: "string \<Rightarrow> many_error" where
  "storage_get_failed desc \<equiv> ledger_error (StorageGetFailed desc)"

abbreviation storage_commit_failed :: "string \<Rightarrow> many_error" where
  "storage_commit_failed desc \<equiv> ledger_error (StorageCommitFailed desc)"

abbreviation storage_open_failed :: "string \<Rightarrow> many_error" where
  "storage_open_failed desc \<equiv> ledger_error (StorageOpenFailed desc)"

abbreviation unable_to_load_migrations :: "string \<Rightarrow> many_error" where
  "unable_to_load_migrations desc \<equiv> ledger_error (UnableToLoadMigrations desc)"

text \<open>Attribute 9: accounts, \<open>many-modules/src/_9_account/errors.rs\<close>.\<close>

datatype account_error_kind =
    UnknownAccount string
  | UnknownRole string
  | UserNeedsRole string
  | AccountMustOwnItself
  | EmptyFeature

fun account_error :: "account_error_kind \<Rightarrow> many_error" where
  "account_error (UnknownAccount i) = attribute_error 9 1 [(''id'', i)]"
| "account_error (UnknownRole role) = attribute_error 9 2 [(''role'', role)]"
| "account_error (UserNeedsRole role) = attribute_error 9 3 [(''role'', role)]"
| "account_error AccountMustOwnItself = attribute_error 9 4 []"
| "account_error EmptyFeature = attribute_error 9 5 []"

declare account_error.simps [simp del]

abbreviation unknown_account :: "string \<Rightarrow> many_error" where
  "unknown_account i \<equiv> account_error (UnknownAccount i)"

abbreviation unknown_role :: "string \<Rightarrow> many_error" where
  "unknown_role role \<equiv> account_error (UnknownRole role)"

abbreviation user_needs_role :: "string \<Rightarrow> many_error" where
  "user_needs_role role \<equiv> account_error (UserNeedsRole role)"

abbreviation account_must_own_itself :: "many_error" where
  "account_must_own_itself \<equiv> account_error AccountMustOwnItself"

abbreviation empty_feature :: "many_error" where
  "empty_feature \<equiv> account_error EmptyFeature"

text \<open>Attribute 9: the multisig feature, \<open>_9_account/features/multisig.rs\<close>.\<close>

datatype multisig_error_kind =
    TransactionCannotBeFound
  | UserCannotApproveTransaction
  | TransactionTypeUnsupported
  | CannotExecuteTransaction
  | TransactionExpiredOrWithdrawn

fun multisig_error :: "multisig_error_kind \<Rightarrow> many_error" where
  "multisig_error TransactionCannotBeFound = attribute_error 9 100 []"
| "multisig_error UserCannotApproveTransaction = attribute_error 9 101 []"
| "multisig_error TransactionTypeUnsupported = attribute_error 9 102 []"
| "multisig_error CannotExecuteTransaction = attribute_error 9 103 []"
| "multisig_error TransactionExpiredOrWithdrawn = attribute_error 9 104 []"

declare multisig_error.simps [simp del]

abbreviation transaction_cannot_be_found :: "many_error" where
  "transaction_cannot_be_found \<equiv> multisig_error TransactionCannotBeFound"

abbreviation user_cannot_approve_transaction :: "many_error" where
  "user_cannot_approve_transaction \<equiv> multisig_error UserCannotApproveTransaction"

abbreviation transaction_type_unsupported :: "many_error" where
  "transaction_type_unsupported \<equiv> multisig_error TransactionTypeUnsupported"

abbreviation cannot_execute_transaction :: "many_error" where
  "cannot_execute_transaction \<equiv> multisig_error CannotExecuteTransaction"

abbreviation transaction_expired_or_withdrawn :: "many_error" where
  "transaction_expired_or_withdrawn \<equiv> multisig_error TransactionExpiredOrWithdrawn"

text \<open>Attribute 1002: the identity store, \<open>_1002_idstore/errors.rs\<close>.\<close>

datatype idstore_error_kind =
    ExistingEntry
  | EntryNotFound string
  | InvalidAddress string
  | InvalidCredentialId string
  | RecallPhraseGenerationFailed

fun idstore_error :: "idstore_error_kind \<Rightarrow> many_error" where
  "idstore_error ExistingEntry = attribute_error 1002 1 []"
| "idstore_error (EntryNotFound entry) = attribute_error 1002 2 [(''entry'', entry)]"
| "idstore_error (InvalidAddress addr) = attribute_error 1002 3 [(''addr'', addr)]"
| "idstore_error (InvalidCredentialId cred_id) = attribute_error 1002 4 [(''cred_id'', cred_id)]"
| "idstore_error RecallPhraseGenerationFailed = attribute_error 1002 5 []"

declare idstore_error.simps [simp del]

abbreviation existing_entry :: "many_error" where
  "existing_entry \<equiv> idstore_error ExistingEntry"

abbreviation entry_not_found :: "string \<Rightarrow> many_error" where
  "entry_not_found entry \<equiv> idstore_error (EntryNotFound entry)"

abbreviation invalid_address :: "string \<Rightarrow> many_error" where
  "invalid_address addr \<equiv> idstore_error (InvalidAddress addr)"

abbreviation invalid_credential_id :: "string \<Rightarrow> many_error" where
  "invalid_credential_id cred_id \<equiv> idstore_error (InvalidCredentialId cred_id)"

abbreviation recall_phrase_generation_failed :: "many_error" where
  "recall_phrase_generation_failed \<equiv> idstore_error RecallPhraseGenerationFailed"

section \<open>Outcomes of Rust functions\<close>

datatype 'a result = Ok 'a | Err many_error | Panic string

primrec res_bind :: "'a result \<Rightarrow> ('a \<Rightarrow> 'b result) \<Rightarrow> 'b result" where
  "res_bind (Ok x) f = f x"
| "res_bind (Err e) f = Err e"
| "res_bind (Panic p) f = Panic p"

definition from_sum :: "(string \<Rightarrow> many_error) \<Rightarrow> string + 'a \<Rightarrow> 'a result" where
  "from_sum f x = (case x of Inl d \<Rightarrow> Err (f d) | Inr v \<Rightarrow> Ok v)"

definition unwrap_sum :: "string + 'a \<Rightarrow> 'a result" where
  "unwrap_sum x = (case x of Inl d \<Rightarrow> Panic d | Inr v \<Rightarrow> Ok v)"

definition ok_or :: "many_error \<Rightarrow> 'a option \<Rightarrow> 'a result" where
  "ok_or e x = (case x of None \<Rightarrow> Err e | Some v \<Rightarrow> Ok v)"

definition map_err :: "(many_error \<Rightarrow> many_error) \<Rightarrow> 'a result \<Rightarrow> 'a result" where
  "map_err f r = (case r of Err e \<Rightarrow> Err (f e) | _ \<Rightarrow> r)"

definition fails_if :: "bool \<Rightarrow> many_error \<Rightarrow> unit result" where
  "fails_if b e = (if b then Err e else Ok ())"

fun res_fold :: "('x \<Rightarrow> 'a \<Rightarrow> 'a result) \<Rightarrow> 'x list \<Rightarrow> 'a \<Rightarrow> 'a result" where
  "res_fold f [] a = Ok a"
| "res_fold f (x # xs) a = res_bind (f x a) (res_fold f xs)"

lemma res_bind_Ok [act_simps]: "res_bind r f = Ok y \<longleftrightarrow> (\<exists>x. r = Ok x \<and> f x = Ok y)"
  by (cases r) auto

lemma from_sum_Ok [act_simps]: "from_sum f x = Ok y \<longleftrightarrow> x = Inr y"
  by (cases x) (auto simp: from_sum_def)

lemma unwrap_sum_Ok [act_simps]: "unwrap_sum x = Ok y \<longleftrightarrow> x = Inr y"
  by (cases x) (auto simp: unwrap_sum_def)

lemma ok_or_Ok [act_simps]: "ok_or e x = Ok y \<longleftrightarrow> x = Some y"
  by (cases x) (auto simp: ok_or_def)

lemma map_err_Ok [act_simps]: "map_err f r = Ok y \<longleftrightarrow> r = Ok y"
  by (cases r) (auto simp: map_err_def)

lemma fails_if_Ok [act_simps]: "fails_if b e = Ok u \<longleftrightarrow> \<not> b"
  by (simp add: fails_if_def)

lemma from_sum_simps [simp]: "from_sum f (Inr v) = Ok v" "from_sum f (Inl d) = Err (f d)"
  by (simp_all add: from_sum_def)

lemma unwrap_sum_simps [simp]: "unwrap_sum (Inr v) = Ok v" "unwrap_sum (Inl d) = Panic d"
  by (simp_all add: unwrap_sum_def)

lemma ok_or_simps [simp]: "ok_or e (Some v) = Ok v" "ok_or e None = Err e"
  by (simp_all add: ok_or_def)

lemma map_err_simps [simp]:
  "map_err f (Ok v) = Ok v" "map_err f (Err e) = Err (f e)" "map_err f (Panic p) = Panic p"
  by (simp_all add: map_err_def)

lemma fails_if_simps [simp]: "fails_if True e = Err e" "fails_if False e = Ok ()"
  by (simp_all add: fails_if_def)

section \<open>Actions on a mutable state\<close>

type_synonym ('s, 'a) act = "'s \<Rightarrow> 'a result \<times> 's"

definition ret :: "'a \<Rightarrow> ('s, 'a) act" where
  "ret x s = (Ok x, s)"

definition fail :: "many_error \<Rightarrow> ('s, 'a) act" where
  "fail e s = (Err e, s)"

definition fail_if :: "bool \<Rightarrow> many_error \<Rightarrow> ('s, unit) act" where
  "fail_if b e s = (if b then Err e else Ok (), s)"

definition query :: "('s \<Rightarrow> 'a result) \<Rightarrow> ('s, 'a) act" where
  "query r s = (r s, s)"

definition lift_result :: "'a result \<Rightarrow> ('s, 'a) act" where
  "lift_result r s = (r, s)"

definition modify :: "('s \<Rightarrow> 's) \<Rightarrow> ('s, unit) act" where
  "modify f s = (Ok (), f s)"

definition bnd :: "('s, 'a) act \<Rightarrow> ('a \<Rightarrow> ('s, 'b) act) \<Rightarrow> ('s, 'b) act" where
  "bnd m f s = (case m s of
     (Ok x, t) \<Rightarrow> f x t
   | (Err e, t) \<Rightarrow> (Err e, t)
   | (Panic p, t) \<Rightarrow> (Panic p, t))"

text \<open>\<open>let r = f(..);\<close> without \<open>?\<close>: the outcome is kept as a value, only a panic propagates.\<close>

definition attempt :: "('s, 'a) act \<Rightarrow> ('s, many_error + 'a) act" where
  "attempt m s = (case m s of
     (Ok x, t) \<Rightarrow> (Ok (Inr x), t)
   | (Err e, t) \<Rightarrow> (Ok (Inl e), t)
   | (Panic p, t) \<Rightarrow> (Panic p, t))"

text \<open>A \<open>for\<close> loop with an accumulator.\<close>

fun for_each :: "('x \<Rightarrow> 'a \<Rightarrow> ('s, 'a) act) \<Rightarrow> 'x list \<Rightarrow> 'a \<Rightarrow> ('s, 'a) act" where
  "for_each f [] a = ret a"
| "for_each f (x # xs) a = bnd (f x a) (for_each f xs)"

lemma ret_Ok [act_simps]: "ret x s = (Ok y, t) \<longleftrightarrow> y = x \<and> t = s"
  by (auto simp: ret_def)

lemma fail_Ok [act_simps]: "fail e s = (Ok y, t) \<longleftrightarrow> False"
  by (simp add: fail_def)

lemma fail_if_Ok [act_simps]: "fail_if b e s = (Ok y, t) \<longleftrightarrow> \<not> b \<and> t = s"
  by (auto simp: fail_if_def)

lemma query_Ok [act_simps]: "query r s = (Ok y, t) \<longleftrightarrow> r s = Ok y \<and> t = s"
  by (auto simp: query_def)

lemma lift_result_Ok [act_simps]: "lift_result r s = (Ok y, t) \<longleftrightarrow> r = Ok y \<and> t = s"
  by (auto simp: lift_result_def)

lemma modify_Ok [act_simps]: "modify f s = (Ok y, t) \<longleftrightarrow> t = f s"
  by (auto simp: modify_def)

lemma bnd_Ok [act_simps]:
  "bnd m f s = (Ok y, t) \<longleftrightarrow> (\<exists>x u. m s = (Ok x, u) \<and> f x u = (Ok y, t))"
  by (cases "m s"; cases "fst (m s)") (auto simp: bnd_def)

lemma attempt_Ok [act_simps]:
  "attempt m s = (Ok r, t) \<longleftrightarrow>
     (\<exists>x. m s = (Ok x, t) \<and> r = Inr x) \<or> (\<exists>e. m s = (Err e, t) \<and> r = Inl e)"
  by (cases "m s"; cases "fst (m s)") (auto simp: attempt_def)

text \<open>Running an action forwards, one combinator at a time.\<close>

lemma run_simps [simp]:
  "bnd (ret x) f = f x"
  "bnd (fail e) f = fail e"
  "bnd (lift_result (Ok x)) f = f x"
  "bnd (lift_result (Err e)) f = fail e"
  "bnd (fail_if True e) g = fail e"
  "bnd (fail_if False e) g = g ()"
  by (simp_all add: fun_eq_iff bnd_def ret_def fail_def lift_result_def fail_if_def)

lemma run_step:
  "m s = (Ok x, t) \<Longrightarrow> bnd m f s = f x t"
  "m s = (Err e, t) \<Longrightarrow> bnd m f s = (Err e, t)"
  "m s = (Panic p, t) \<Longrightarrow> bnd m f s = (Panic p, t)"
  by (simp_all add: bnd_def)

lemma bnd_query: "bnd (query r) f s = (case r s of Ok x \<Rightarrow> f x s | Err e \<Rightarrow> (Err e, s) | Panic p \<Rightarrow> (Panic p, s))"
  by (cases "r s") (simp_all add: bnd_def query_def)

lemma bnd_modify [simp]: "bnd (modify g) f s = f () (g s)"
  by (simp add: bnd_def modify_def)

text \<open>
  A predicate kept by every action of a sequence is kept by the sequence, whatever the outcome.
\<close>

definition keeps :: "('s \<Rightarrow> bool) \<Rightarrow> ('s, 'a) act \<Rightarrow> bool" where
  "keeps P m \<longleftrightarrow> (\<forall>s. P s \<longrightarrow> P (snd (m s)))"

named_theorems keeps_intros \<open>actions that keep a predicate\<close>

lemma keepsD: "keeps P m \<Longrightarrow> P s \<Longrightarrow> m s = (r, t) \<Longrightarrow> P t"
  by (metis keeps_def snd_conv)

lemma keeps_pure [keeps_intros]:
  "keeps P (ret x)" "keeps P (fail e)" "keeps P (fail_if b e)" "keeps P (query r)"
  "keeps P (lift_result r')"
  by (simp_all add: keeps_def ret_def fail_def fail_if_def query_def lift_result_def)

lemma keeps_bnd [keeps_intros]:
  assumes "keeps P m" "\<And>x. keeps P (f x)"
  shows "keeps P (bnd m f)"
  unfolding keeps_def
proof (intro allI impI)
  fix s assume s: "P s"
  obtain r t where m: "m s = (r, t)" by fastforce
  with assms(1) s have t: "P t" by (auto simp: keeps_def)
  show "P (snd (bnd m f s))"
    using m t assms(2) by (cases r) (auto simp: bnd_def keeps_def)
qed

lemma keeps_attempt [keeps_intros]: "keeps P m \<Longrightarrow> keeps P (attempt m)"
  unfolding keeps_def attempt_def
  by (auto split: prod.splits result.splits)

lemma keeps_for_each [keeps_intros]:
  assumes "\<And>x a. keeps P (f x a)"
  shows "keeps P (for_each f xs a)"
  by (induction xs arbitrary: a) (auto intro: keeps_intros assms)

lemma keeps_if [keeps_intros]: "keeps P a \<Longrightarrow> keeps P b \<Longrightarrow> keeps P (if c then a else b)"
  by simp

end
