(* ===== verification/Address.thy ===== *)
theory Address
  imports Many_Error
begin

unbundle bit_operations_syntax

text \<open>
  Addresses, \<open>src/src/many-identity/src/address.rs\<close>.

  \<open>InnerAddress\<close> is an array of 32 bytes; the operations \<open>inner_*\<close> below are its methods, byte by
  byte. The arrays its constructors build are the well-formed ones (\<open>inner_wf\<close>), and they are the
  images of the datatype \<open>address\<close>, which is what the other components use. The methods of
  \<open>Address\<close> delegate to the byte array, and the lemmas below say what they compute on the four
  kinds of address. The crates base32 and crc-any are parameters, collected in a record.
\<close>

section \<open>Byte arrays\<close>

definition MAX_SUBRESOURCE_ID :: u32 where
  "MAX_SUBRESOURCE_ID = 0x7FFFFFFF"

definition discriminant :: "u32 \<Rightarrow> u8" where
  "discriminant sid = 0x80 + ucast (drop_bit 24 (sid AND 0x7F000000))"

definition subid_try_into :: "u32 \<Rightarrow> u32 result" where
  "subid_try_into n = (if n > MAX_SUBRESOURCE_ID then Err invalid_identity_subid else Ok n)"

definition subid_try_into_i32 :: "int \<Rightarrow> u32 result" where
  "subid_try_into_i32 n = (if n < 0 then Err invalid_identity_subid else Ok (word_of_int n))"

definition subid_try_into_u64 :: "u64 \<Rightarrow> u32 result" where
  "subid_try_into_u64 n = (if n > ucast MAX_SUBRESOURCE_ID then Err invalid_identity_subid else Ok (ucast n))"

definition inner_anonymous :: bytes where
  "inner_anonymous = replicate 32 0"

definition inner_illegal :: bytes where
  "inner_illegal = replicate 32 2"

text \<open>The loops \<open>while len > 0\<close> that copy the 28 bytes of a hash, from the last one down.\<close>

primrec copy_hash_in :: "nat \<Rightarrow> bytes \<Rightarrow> bytes \<Rightarrow> bytes" where
  "copy_hash_in 0 h bs = bs"
| "copy_hash_in (Suc len) h bs = copy_hash_in len h (bs[1 + len := h ! len])"

primrec copy_hash_out :: "nat \<Rightarrow> bytes \<Rightarrow> bytes \<Rightarrow> bytes" where
  "copy_hash_out 0 bs h = h"
| "copy_hash_out (Suc len) bs h = copy_hash_out len bs (h[len := bs ! (1 + len)])"

definition inner_public_key :: "bytes \<Rightarrow> bytes" where
  "inner_public_key h = copy_hash_in 28 h ((replicate 32 0)[0 := 1])"

definition inner_subresource_unchecked :: "bytes \<Rightarrow> u32 \<Rightarrow> bytes" where
  "inner_subresource_unchecked h sid =
    (inner_public_key h)
      [0 := discriminant sid,
       29 := ucast (drop_bit 16 (sid AND 0x00FF0000)),
       30 := ucast (drop_bit 8 (sid AND 0x0000FF00)),
       31 := ucast (sid AND 0x000000FF)]"

definition inner_from_bytes :: "bytes \<Rightarrow> bytes result" where
  "inner_from_bytes bs =
    (if bs = [] then Err invalid_identity
     else if bs ! 0 = 0 then (if length bs > 1 then Err invalid_identity else Ok inner_anonymous)
     else if bs ! 0 = 1 then
       (if length bs \<noteq> 29 then Err invalid_identity else Ok (inner_public_key (take 28 (drop 1 bs))))
     else if bs ! 0 = 2 then (if length bs > 1 then Err invalid_identity else Ok inner_illegal)
     else if bs ! 0 \<ge> 0x80 then
       (if length bs \<noteq> 32 then Err invalid_identity
        else Ok (inner_subresource_unchecked (take 28 (drop 1 bs))
               (u32_from_be_bytes (bs ! 0 # take 3 (drop 29 bs)))))
     else Err (invalid_identity_kind (nat_str (unat (bs ! 0)))))"

definition inner_to_vec :: "bytes \<Rightarrow> bytes" where
  "inner_to_vec bs =
    (if bs ! 0 = 0 then [0]
     else if bs ! 0 = 1 then 1 # take 28 (drop 1 bs)
     else if bs ! 0 = 2 then [2]
     else bs)"

definition inner_is_anonymous :: "bytes \<Rightarrow> bool" where
  "inner_is_anonymous bs \<longleftrightarrow> bs ! 0 = 0"

definition inner_is_illegal :: "bytes \<Rightarrow> bool" where
  "inner_is_illegal bs \<longleftrightarrow> bs ! 0 = 2"

definition inner_is_public_key :: "bytes \<Rightarrow> bool" where
  "inner_is_public_key bs \<longleftrightarrow> bs ! 0 = 1"

definition inner_is_subresource :: "bytes \<Rightarrow> bool" where
  "inner_is_subresource bs \<longleftrightarrow> bs ! 0 \<ge> 0x80"

definition inner_subresource_id :: "bytes \<Rightarrow> u32 option" where
  "inner_subresource_id bs =
    (if bs ! 0 \<ge> 0x80 then
       Some (push_bit 24 (ucast (bs ! 0 AND 0x7F)) +
             (push_bit 16 (ucast (bs ! 29)) + push_bit 8 (ucast (bs ! 30)) + ucast (bs ! 31)))
     else None)"

definition inner_hash :: "bytes \<Rightarrow> bytes option" where
  "inner_hash bs =
    (if bs ! 0 = 1 \<or> bs ! 0 \<ge> 0x80 then Some (copy_hash_out 28 bs (replicate 28 0)) else None)"

text \<open>The hand-written \<open>PartialEq for InnerAddress\<close>.\<close>

definition inner_eq :: "bytes \<Rightarrow> bytes \<Rightarrow> bool" where
  "inner_eq a b =
    (if a ! 0 = 0 \<and> b ! 0 = 0 then True
     else if a ! 0 = 1 \<and> b ! 0 = 1 then take 28 (drop 1 a) = take 28 (drop 1 b)
     else if a ! 0 = 2 \<and> b ! 0 = 2 then True
     else if a ! 0 \<ge> 0x80 \<and> b ! 0 \<ge> 0x80 \<and> a ! 0 = b ! 0 then drop 1 a = drop 1 b
     else False)"

section \<open>Text\<close>

record addr_ext =
  base32_encode :: "bytes \<Rightarrow> string"
  base32_decode :: "string \<Rightarrow> bytes option"
  crc16 :: "bytes \<Rightarrow> u16"

definition ascii_lower :: "char \<Rightarrow> char" where
  "ascii_lower c = (if 65 \<le> (of_char c :: nat) \<and> (of_char c :: nat) \<le> 90 then char_of ((of_char c :: nat) + 32) else c)"

abbreviation to_ascii_lowercase :: "string \<Rightarrow> string" where
  "to_ascii_lowercase \<equiv> map ascii_lower"

definition inner_to_string :: "'x addr_ext_scheme \<Rightarrow> bytes \<Rightarrow> string" where
  "inner_to_string E bs =
    (if inner_is_anonymous bs then ''maa''
     else let data = inner_to_vec bs in
       ''m'' @ to_ascii_lowercase (base32_encode E data)
             @ to_ascii_lowercase (take 2 (base32_encode E (be_nat 2 (unat (crc16 E data))))))"

text \<open>
  Slicing a \<open>&str\<close> panics when the index is inside a character, that is when the byte there is a
  continuation byte.
\<close>

definition is_char_boundary :: "string \<Rightarrow> nat \<Rightarrow> bool" where
  "is_char_boundary s i \<longleftrightarrow>
     (i < length s \<longrightarrow> \<not> (0x80 \<le> (of_char (s ! i) :: nat) \<and> (of_char (s ! i) :: nat) < 0xC0)) \<and> i \<le> length s"

definition inner_from_str :: "'x addr_ext_scheme \<Rightarrow> string \<Rightarrow> bytes result" where
  "inner_from_str E v =
    (if take 1 v \<noteq> ''m'' then Err (invalid_identity_prefix '''')
     else if length v < 3 then Err invalid_identity
     else if drop 1 v = ''aa'' \<or> drop 1 v = ''aaaa'' then Ok inner_anonymous
     else if \<not> is_char_boundary v (length v - 2) then Panic ''byte index is not a char boundary''
     else
       res_bind (ok_or invalid_identity (base32_decode E (drop 1 (take (length v - 2) v)))) (\<lambda>data.
       res_bind (inner_from_bytes data) (\<lambda>r.
         if inner_to_string E r \<noteq> v then Err invalid_identity else Ok r)))"

section \<open>What the byte operations compute\<close>

lemma length_copy_hash_in [simp]: "length (copy_hash_in n h bs) = length bs"
  by (induction n arbitrary: bs) auto

lemma nth_copy_hash_in:
  "j < length bs \<Longrightarrow> copy_hash_in n h bs ! j = (if 1 \<le> j \<and> j \<le> n then h ! (j - 1) else bs ! j)"
  by (induction n arbitrary: bs) (auto simp: nth_list_update le_Suc_eq)

lemma length_copy_hash_out [simp]: "length (copy_hash_out n bs h) = length h"
  by (induction n arbitrary: h) auto

lemma nth_copy_hash_out:
  "j < length h \<Longrightarrow> copy_hash_out n bs h ! j = (if j < n then bs ! (1 + j) else h ! j)"
  by (induction n arbitrary: h) (auto simp: nth_list_update less_Suc_eq)

lemma inner_public_key_eq:
  assumes "length h = 28"
  shows "inner_public_key h = 1 # h @ [0, 0, 0]"
proof (rule nth_equalityI)
  fix j assume "j < length (inner_public_key h)"
  then have "j < 32" by (simp add: inner_public_key_def)
  then show "inner_public_key h ! j = (1 # h @ [0, 0, 0]) ! j"
    using assms
    by (auto simp: inner_public_key_def nth_copy_hash_in nth_Cons' nth_append)
qed (simp add: inner_public_key_def assms)

definition subid_tail :: "u32 \<Rightarrow> bytes" where
  "subid_tail sid = [ucast (drop_bit 16 (sid AND 0x00FF0000)),
     ucast (drop_bit 8 (sid AND 0x0000FF00)), ucast (sid AND 0x000000FF)]"

lemma length_subid_tail [simp]: "length (subid_tail sid) = 3"
  by (simp add: subid_tail_def)

lemma inner_subresource_unchecked_eq:
  assumes "length h = 28"
  shows "inner_subresource_unchecked h sid = discriminant sid # h @ subid_tail sid"
  by (simp add: inner_subresource_unchecked_def inner_public_key_eq assms list_update_append
      subid_tail_def)

lemma copy_hash_out_eq:
  assumes "length bs = 32"
  shows "copy_hash_out 28 bs (replicate 28 0) = take 28 (drop 1 bs)"
  by (rule nth_equalityI) (use assms in \<open>auto simp: nth_copy_hash_out\<close>)

text \<open>The four bytes of a subresource id, as numbers.\<close>

lemma masked_field:
  "drop_bit k (w AND push_bit k (mask m)) = take_bit m (drop_bit k w)" for w :: "'a::len word"
  by (rule bit_word_eqI) (auto simp: bit_simps dest: bit_imp_le_length)

lemma unat_field: "unat (take_bit m (drop_bit k w)) = unat w div 2 ^ k mod 2 ^ m" for w :: "'a::len word"
  by (simp only: unsigned_take_bit_eq unat_drop_bit_eq) (simp only: take_bit_eq_mod drop_bit_eq_div)

lemma unat_drop: "unat (drop_bit k w) = unat w div 2 ^ k" for w :: "'a::len word"
  by (simp only: unat_drop_bit_eq) (simp only: drop_bit_eq_div)

lemma subid_fields:
  "drop_bit 24 (sid AND 0x7F000000) = take_bit 7 (drop_bit 24 sid)"
  "drop_bit 16 (sid AND 0x00FF0000) = take_bit 8 (drop_bit 16 sid)"
  "drop_bit 8 (sid AND 0x0000FF00) = take_bit 8 (drop_bit 8 sid)"
  "sid AND 0x000000FF = take_bit 8 (drop_bit 0 sid)" for sid :: u32
  using masked_field [of 24 sid 7] masked_field [of 16 sid 8] masked_field [of 8 sid 8]
    masked_field [of 0 sid 8]
  by (simp_all add: mask_eq_exp_minus_1 push_bit_eq_mult)

lemma unat_subid_bytes:
  "unat (discriminant sid) = 128 + unat sid div 2 ^ 24 mod 128"
  "unat (ucast (drop_bit 16 (sid AND 0x00FF0000)) :: u8) = unat sid div 2 ^ 16 mod 256"
  "unat (ucast (drop_bit 8 (sid AND 0x0000FF00)) :: u8) = unat sid div 2 ^ 8 mod 256"
  "unat (ucast (sid AND 0x000000FF) :: u8) = unat sid mod 256"
proof -
  have *: "unat (ucast w :: u8) = unat w mod 256" for w :: u32
    by (simp add: unsigned_ucast_eq take_bit_eq_mod)
  have "unat (0x80 + ucast (drop_bit 24 (sid AND 0x7F000000)) :: u8) = 128 + unat sid div 2 ^ 24 mod 128"
    unfolding subid_fields
    by (subst unat_word_ariths) (simp only: * unat_field, simp)
  then show "unat (discriminant sid) = 128 + unat sid div 2 ^ 24 mod 128"
    by (simp add: discriminant_def)
  show "unat (ucast (drop_bit 16 (sid AND 0x00FF0000)) :: u8) = unat sid div 2 ^ 16 mod 256"
    "unat (ucast (drop_bit 8 (sid AND 0x0000FF00)) :: u8) = unat sid div 2 ^ 8 mod 256"
    "unat (ucast (sid AND 0x000000FF) :: u8) = unat sid mod 256"
    unfolding subid_fields * unat_field by simp_all
qed

lemma discriminant_ge: "0x80 \<le> discriminant sid"
  by (simp add: word_le_nat_alt unat_subid_bytes)

lemma nat_fields:
  "n mod 2 ^ 31 = n div 2 ^ 24 mod 128 * 2 ^ 24 + n div 2 ^ 16 mod 256 * 2 ^ 16
     + n div 2 ^ 8 mod 256 * 2 ^ 8 + n mod 256" for n :: nat
proof -
  have d: "n div 2 ^ 24 = n div 256 div 256 div 256" "n div 2 ^ 16 = n div 256 div 256"
    "n div 2 ^ 8 = n div 256" "(2 :: nat) ^ 31 = 256 * (256 * (256 * 128))"
    by (simp_all flip: div_mult2_eq)
  have "256 * (256 * (256 * a + b) + c) + e = a * 2 ^ 24 + b * 2 ^ 16 + c * 2 ^ 8 + e" for a b c e :: nat
    by simp
  then show ?thesis
    by (simp only: d mod_mult2_eq)
qed

lemma unat_push_u8:
  fixes b :: u8
  assumes "k \<le> 24"
  shows "unat (push_bit k (ucast b :: u32)) = unat b * 2 ^ k"
proof -
  have b: "unat b < 256"
    using unsigned_less [of b] by simp
  have "unat b * 2 ^ k \<le> 255 * 2 ^ 24"
    using b assms by (intro mult_le_mono power_increasing) auto
  then show ?thesis
    by (simp only: unsigned_push_bit_eq unsigned_ucast_eq)
      (use b in \<open>simp add: push_bit_eq_mult take_bit_eq_mod\<close>)
qed

lemma unat_and_7F: "unat (b AND 0x7F) = unat b mod 128" for b :: u8
proof -
  have "b AND 0x7F = take_bit 7 (drop_bit 0 b)"
    using masked_field [of 0 b 7] by (simp add: mask_eq_exp_minus_1)
  then show ?thesis
    using unat_field [of 7 0 b] by simp
qed

lemma unat_subresource_sum:
  "unat (push_bit 24 (ucast (b0 AND 0x7F)) +
     (push_bit 16 (ucast b1) + push_bit 8 (ucast b2) + ucast b3) :: u32) =
   unat b0 mod 128 * 2 ^ 24 + unat b1 * 2 ^ 16 + unat b2 * 2 ^ 8 + unat b3" for b0 b1 b2 b3 :: u8
proof -
  have b: "unat b1 < 256" "unat b2 < 256" "unat b3 < 256"
    using unsigned_less [of b1] unsigned_less [of b2] unsigned_less [of b3] by simp_all
  have "unat b0 mod 128 < 128" by simp
  with b show ?thesis
    using unat_push_u8 [of 24 "b0 AND 0x7F"] unat_push_u8 [of 16 b1] unat_push_u8 [of 8 b2]
      unat_push_u8 [of 0 b3]
    by (simp add: unat_word_ariths unat_and_7F)
qed

lemma inner_subresource_id_unchecked:
  assumes "length h = 28"
  shows "inner_subresource_id (inner_subresource_unchecked h sid) = Some (take_bit 31 sid)"
proof -
  let ?b = "inner_subresource_unchecked h sid"
  have b: "?b ! 0 = discriminant sid" "?b ! 29 = ucast (drop_bit 16 (sid AND 0x00FF0000))"
    "?b ! 30 = ucast (drop_bit 8 (sid AND 0x0000FF00))" "?b ! 31 = ucast (sid AND 0x000000FF)"
    using assms by (simp_all add: inner_subresource_unchecked_eq subid_tail_def nth_append)
  have t: "unat (take_bit 31 sid) = unat sid mod 2 ^ 31"
    using unat_field [of 31 0 sid] by simp
  have m: "(128 + x mod 128) mod 128 = x mod 128" for x :: nat
    by simp
  show ?thesis
    unfolding inner_subresource_id_def b
    by (simp only: discriminant_ge if_True option.inject word_unat_eq_iff unat_subresource_sum
        unat_subid_bytes t nat_fields m)
qed

lemma nat_be_4:
  "nat_be [b0, b1, b2, b3] = ((unat b0 * 256 + unat b1) * 256 + unat b2) * 256 + unat b3"
  by (simp add: nat_be_def)

lemma nat_be_subid: "nat_be (discriminant sid # subid_tail sid) = 2 ^ 31 + unat sid mod 2 ^ 31"
  unfolding subid_tail_def nat_be_4 unat_subid_bytes nat_fields by (simp add: algebra_simps)

lemma subid_bytes_of_be:
  fixes b0 b1 b2 b3 :: u8
  assumes "0x80 \<le> b0"
  defines "sid \<equiv> u32_from_be_bytes [b0, b1, b2, b3]"
  shows "discriminant sid # subid_tail sid = [b0, b1, b2, b3]"
proof (rule nat_be_inject)
  have b: "unat b0 < 256" "unat b1 < 256" "unat b2 < 256" "unat b3 < 256" "128 \<le> unat b0"
    using unsigned_less [of b0] unsigned_less [of b1] unsigned_less [of b2] unsigned_less [of b3]
      assms(1) by (simp_all add: word_le_nat_alt)
  define N where "N = nat_be [b0, b1, b2, b3]"
  have N: "2 ^ 31 \<le> N" "N < 2 ^ 32"
    using b by (simp_all add: N_def nat_be_4)
  then have "unat sid = N"
    by (simp only: sid_def u32_from_be_bytes_def N_def unsigned_of_nat take_bit_eq_mod) simp
  moreover have "N mod 2 ^ 31 = N - 2 ^ 31"
    using N by (simp add: mod_if)
  ultimately show "nat_be (discriminant sid # subid_tail sid) = nat_be [b0, b1, b2, b3]"
    using N by (simp only: nat_be_subid flip: N_def)
qed simp

lemma subid_of_be_bytes:
  assumes "0x80 \<le> b0" "length t = 3"
  shows "discriminant (u32_from_be_bytes (b0 # t)) = b0" "subid_tail (u32_from_be_bytes (b0 # t)) = t"
proof -
  obtain x y z where "t = [x, y, z]"
    using assms(2) by (auto simp: length_Suc_conv numeral_3_eq_3)
  then show "discriminant (u32_from_be_bytes (b0 # t)) = b0" "subid_tail (u32_from_be_bytes (b0 # t)) = t"
    using subid_bytes_of_be [OF assms(1), of x y z] by auto
qed

lemma subid_31 [simp]:
  "discriminant (take_bit 31 sid) = discriminant sid" "subid_tail (take_bit 31 sid) = subid_tail sid"
  unfolding discriminant_def subid_tail_def subid_fields by (simp_all add: drop_bit_take_bit)

section \<open>Addresses\<close>

text \<open>
  The well-formed arrays are the images of four kinds of address: a 28-byte hash is a number of
  224 bits, a subresource id one of 31 bits.
\<close>

datatype address = Anonymous | PublicKey "224 word" | Illegal | Subresource "224 word" "31 word"

definition hash_bytes :: "224 word \<Rightarrow> bytes" where
  "hash_bytes h = be_nat 28 (unat h)"

definition hash_of_bytes :: "bytes \<Rightarrow> 224 word" where
  "hash_of_bytes bs = of_nat (nat_be bs)"

primrec to_byte_array :: "address \<Rightarrow> bytes" where
  "to_byte_array Anonymous = inner_anonymous"
| "to_byte_array (PublicKey h) = inner_public_key (hash_bytes h)"
| "to_byte_array Illegal = inner_illegal"
| "to_byte_array (Subresource h i) = inner_subresource_unchecked (hash_bytes h) (ucast i)"

definition of_byte_array :: "bytes \<Rightarrow> address" where
  "of_byte_array bs =
    (if bs ! 0 = 0 then Anonymous
     else if bs ! 0 = 1 then PublicKey (hash_of_bytes (take 28 (drop 1 bs)))
     else if bs ! 0 = 2 then Illegal
     else Subresource (hash_of_bytes (take 28 (drop 1 bs))) (ucast (u32_from_be_bytes (bs ! 0 # drop 29 bs))))"

definition inner_wf :: "bytes \<Rightarrow> bool" where
  "inner_wf bs \<longleftrightarrow> length bs = 32 \<and>
     (bs = inner_anonymous \<or> bs = inner_illegal \<or> bs ! 0 = 1 \<and> drop 29 bs = [0, 0, 0] \<or> 0x80 \<le> bs ! 0)"

lemma length_hash_bytes [simp]: "length (hash_bytes h) = 28"
  by (simp add: hash_bytes_def)

lemma hash_of_hash_bytes [simp]: "hash_of_bytes (hash_bytes h) = h"
proof -
  have "unat h < 256 ^ 28"
    using unsigned_less [of h] by simp
  then show ?thesis
    by (simp add: hash_of_bytes_def hash_bytes_def)
qed

lemma hash_bytes_hash_of [simp]:
  assumes "length bs = 28"
  shows "hash_bytes (hash_of_bytes bs) = bs"
proof (rule nat_be_inject)
  have "nat_be bs < 2 ^ 224"
    using nat_be_less [of bs] assms by simp
  then show "nat_be (hash_bytes (hash_of_bytes bs)) = nat_be bs"
    by (simp add: hash_bytes_def hash_of_bytes_def unsigned_of_nat take_bit_eq_mod)
qed (simp add: assms)

lemma ucast_31:
  "ucast (ucast i :: u32) = i" "ucast (ucast sid :: 31 word) = take_bit 31 sid" for i :: "31 word"
  by (rule bit_word_eqI, auto simp: bit_simps dest: bit_imp_le_length)+

lemma subid_of_be:
  "ucast (u32_from_be_bytes (discriminant sid # subid_tail sid)) = (ucast sid :: 31 word)"
proof -
  have "unat sid mod 2 ^ 31 < 2 ^ 31" by simp
  then have "2 ^ 31 + unat sid mod 2 ^ 31 < (2 ^ 32 :: nat)" by simp
  then have "unat (of_nat (2 ^ 31 + unat sid mod 2 ^ 31) :: u32) = 2 ^ 31 + unat sid mod 2 ^ 31"
    by (simp only: unsigned_of_nat take_bit_eq_mod) simp
  then show ?thesis
    unfolding u32_from_be_bytes_def nat_be_subid
    by (simp only: word_unat_eq_iff unsigned_ucast_eq take_bit_eq_mod) simp
qed

lemma not_128_le_1 [simp]: "\<not> (0x80 :: u8) \<le> 1"
  by (simp add: word_le_nat_alt)

lemma of_byte_array_to [simp]: "of_byte_array (to_byte_array a) = a"
proof (cases a)
  case (Subresource h i)
  have "discriminant (ucast i) \<noteq> 0" "discriminant (ucast i) \<noteq> 1" "discriminant (ucast i) \<noteq> 2"
    using discriminant_ge [of "ucast i"] by (auto simp: word_le_nat_alt)
  with Subresource show ?thesis
    by (simp add: of_byte_array_def inner_subresource_unchecked_eq subid_of_be ucast_31)
qed (simp_all add: of_byte_array_def inner_anonymous_def inner_illegal_def inner_public_key_eq)

lemma length_32_split:
  fixes bs :: bytes
  assumes "length bs = 32"
  shows "\<exists>b0 h b1 b2 b3. bs = b0 # h @ [b1, b2, b3] \<and> length h = 28"
proof -
  obtain b0 t where bs: "bs = b0 # t" and t: "length t = 31"
    using assms by (cases bs) auto
  have three: "\<exists>x y z. xs = [x, y, z]" if "length xs = 3" for xs :: bytes
    using that by (auto simp: length_Suc_conv numeral_3_eq_3)
  obtain b1 b2 b3 where d: "drop 28 t = [b1, b2, b3]"
    using three [of "drop 28 t"] t by auto
  have "t = take 28 t @ [b1, b2, b3]"
    using append_take_drop_id [of 28 t] unfolding d by simp
  with bs t show ?thesis
    by (intro exI [of _ b0] exI [of _ "take 28 t"] exI [of _ b1] exI [of _ b2] exI [of _ b3]) auto
qed

lemma to_byte_array_of:
  assumes "inner_wf bs"
  shows "to_byte_array (of_byte_array bs) = bs"
proof -
  consider "bs = inner_anonymous" | "bs = inner_illegal"
    | "length bs = 32" "bs ! 0 = 1" "drop 29 bs = [0, 0, 0]" | "length bs = 32" "0x80 \<le> bs ! 0"
    using assms by (auto simp: inner_wf_def)
  then show ?thesis
  proof cases
    case 3
    then obtain h where "bs = 1 # h @ [0, 0, 0]" "length h = 28"
      using length_32_split [of bs] by auto
    then show ?thesis
      by (simp add: of_byte_array_def inner_public_key_eq)
  next
    case 4
    then obtain b0 h b1 b2 b3 where bs: "bs = b0 # h @ [b1, b2, b3]" "length h = 28" "0x80 \<le> b0"
      using length_32_split [of bs] by auto
    then have "b0 \<noteq> 0" "b0 \<noteq> 1" "b0 \<noteq> 2"
      by (auto simp: word_le_nat_alt)
    then show ?thesis
      using bs subid_bytes_of_be [of b0 b1 b2 b3]
      by (simp add: of_byte_array_def ucast_31 inner_subresource_unchecked_eq)
  qed (simp_all add: of_byte_array_def inner_anonymous_def inner_illegal_def)
qed

text \<open>The methods of \<open>Address\<close>; each delegates to the byte array.\<close>

definition is_anonymous :: "address \<Rightarrow> bool" where
  "is_anonymous a \<longleftrightarrow> inner_is_anonymous (to_byte_array a)"

definition is_illegal :: "address \<Rightarrow> bool" where
  "is_illegal a \<longleftrightarrow> inner_is_illegal (to_byte_array a)"

definition is_public_key :: "address \<Rightarrow> bool" where
  "is_public_key a \<longleftrightarrow> inner_is_public_key (to_byte_array a)"

definition is_subresource :: "address \<Rightarrow> bool" where
  "is_subresource a \<longleftrightarrow> inner_is_subresource (to_byte_array a)"

definition subresource_id :: "address \<Rightarrow> u32 option" where
  "subresource_id a = inner_subresource_id (to_byte_array a)"

definition address_hash :: "address \<Rightarrow> bytes option" where
  "address_hash a = inner_hash (to_byte_array a)"

definition with_subresource_id :: "address \<Rightarrow> u32 \<Rightarrow> address result" where
  "with_subresource_id a subid =
    (case address_hash a of
       Some h \<Rightarrow> res_bind (subid_try_into subid) (\<lambda>i. Ok (of_byte_array (inner_subresource_unchecked h i)))
     | None \<Rightarrow> Err (invalid_identity_kind (nat_str (unat (to_byte_array a ! 0)))))"

definition into_public_key :: "address \<Rightarrow> address result" where
  "into_public_key a =
    (case address_hash a of
       Some h \<Rightarrow> Ok (of_byte_array (inner_public_key h))
     | None \<Rightarrow> Err (invalid_identity_kind (nat_str (unat (to_byte_array a ! 0)))))"

definition can_sign :: "address \<Rightarrow> bool" where
  "can_sign a \<longleftrightarrow> is_public_key a \<or> is_subresource a"

definition can_be_source :: "address \<Rightarrow> bool" where
  "can_be_source a \<longleftrightarrow> is_anonymous a \<or> is_public_key a \<or> is_subresource a"

definition can_be_dest :: "address \<Rightarrow> bool" where
  "can_be_dest a \<longleftrightarrow> is_public_key a \<or> is_subresource a \<or> is_illegal a"

definition to_vec :: "address \<Rightarrow> bytes" where
  "to_vec a = inner_to_vec (to_byte_array a)"

definition matches :: "address \<Rightarrow> address \<Rightarrow> bool" where
  "matches a b =
    (if is_anonymous a then is_anonymous b
     else if is_illegal a then is_illegal b
     else address_hash a = address_hash b)"

definition eq_option :: "address \<Rightarrow> address option \<Rightarrow> bool" where
  "eq_option a other = (case other of Some b \<Rightarrow> inner_eq (to_byte_array b) (to_byte_array a) | None \<Rightarrow> is_anonymous a)"

definition from_bytes :: "bytes \<Rightarrow> address result" where
  "from_bytes bs = res_bind (inner_from_bytes bs) (\<lambda>b. Ok (of_byte_array b))"

definition to_string :: "'x addr_ext_scheme \<Rightarrow> address \<Rightarrow> string" where
  "to_string E a = inner_to_string E (to_byte_array a)"

definition from_str :: "'x addr_ext_scheme \<Rightarrow> string \<Rightarrow> address result" where
  "from_str E v = res_bind (inner_from_str E v) (\<lambda>b. Ok (of_byte_array b))"

lemma to_byte_array_eq:
  "to_byte_array (PublicKey h) = 1 # hash_bytes h @ [0, 0, 0]"
  "to_byte_array (Subresource h i) = discriminant (ucast i) # hash_bytes h @ subid_tail (ucast i)"
  by (simp_all add: inner_public_key_eq inner_subresource_unchecked_eq)

lemma discriminant_neq [simp]:
  "discriminant sid \<noteq> 0" "discriminant sid \<noteq> 1" "discriminant sid \<noteq> 2"
  using discriminant_ge [of sid] by (auto simp: word_le_nat_alt)

lemma length_to_byte_array [simp]: "length (to_byte_array a) = 32"
  by (cases a) (simp_all add: to_byte_array_eq inner_anonymous_def inner_illegal_def del: to_byte_array.simps(2,4))

lemma inner_wf_to_byte_array [simp]: "inner_wf (to_byte_array a)"
  using length_to_byte_array [of a] discriminant_ge
  by (cases a) (auto simp: inner_wf_def to_byte_array_eq simp del: to_byte_array.simps(2,4) length_to_byte_array)

lemma to_byte_array_inject [simp]: "to_byte_array a = to_byte_array b \<longleftrightarrow> a = b"
  by (metis of_byte_array_to)

lemma is_anonymous_simps [simp]:
  "is_anonymous Anonymous" "\<not> is_anonymous (PublicKey h)" "\<not> is_anonymous Illegal"
  "\<not> is_anonymous (Subresource h i)"
  by (simp_all add: is_anonymous_def inner_is_anonymous_def to_byte_array_eq inner_anonymous_def
      inner_illegal_def del: to_byte_array.simps(2,4))

lemma is_illegal_simps [simp]:
  "\<not> is_illegal Anonymous" "\<not> is_illegal (PublicKey h)" "is_illegal Illegal"
  "\<not> is_illegal (Subresource h i)"
  by (simp_all add: is_illegal_def inner_is_illegal_def to_byte_array_eq inner_anonymous_def
      inner_illegal_def del: to_byte_array.simps(2,4))

lemma is_public_key_simps [simp]:
  "\<not> is_public_key Anonymous" "is_public_key (PublicKey h)" "\<not> is_public_key Illegal"
  "\<not> is_public_key (Subresource h i)"
  by (simp_all add: is_public_key_def inner_is_public_key_def to_byte_array_eq inner_anonymous_def
      inner_illegal_def del: to_byte_array.simps(2,4))

lemma is_subresource_simps [simp]:
  "\<not> is_subresource Anonymous" "\<not> is_subresource (PublicKey h)" "\<not> is_subresource Illegal"
  "is_subresource (Subresource h i)"
  by (simp_all add: is_subresource_def inner_is_subresource_def to_byte_array_eq inner_anonymous_def
      inner_illegal_def discriminant_ge del: to_byte_array.simps(2,4))

lemma is_anonymous_iff: "is_anonymous a \<longleftrightarrow> a = Anonymous"
  by (cases a) simp_all

lemma address_hash_simps [simp]:
  "address_hash Anonymous = None" "address_hash (PublicKey h) = Some (hash_bytes h)"
  "address_hash Illegal = None" "address_hash (Subresource h i) = Some (hash_bytes h)"
  by (simp_all add: address_hash_def inner_hash_def copy_hash_out_eq to_byte_array_eq inner_anonymous_def
      inner_illegal_def discriminant_ge del: to_byte_array.simps(2,4))

lemma ucast_31_bits: "take_bit 31 (ucast i :: u32) = ucast i" for i :: "31 word"
  by (rule bit_word_eqI) (auto simp: bit_simps dest: bit_imp_le_length)

lemma subresource_id_simps [simp]:
  "subresource_id Anonymous = None" "subresource_id (PublicKey h) = None"
  "subresource_id Illegal = None" "subresource_id (Subresource h i) = Some (ucast i)"
  by (simp_all add: subresource_id_def inner_subresource_id_unchecked ucast_31_bits)
    (simp_all add: inner_subresource_id_def inner_anonymous_def inner_illegal_def inner_public_key_eq)

lemma to_vec_simps [simp]:
  "to_vec Anonymous = [0]" "to_vec (PublicKey h) = 1 # hash_bytes h" "to_vec Illegal = [2]"
  "to_vec (Subresource h i) = to_byte_array (Subresource h i)"
  by (simp_all add: to_vec_def inner_to_vec_def to_byte_array_eq inner_anonymous_def
      inner_illegal_def del: to_byte_array.simps(2,4))

lemma of_byte_array_subresource:
  "of_byte_array (inner_subresource_unchecked (hash_bytes h) sid) = Subresource h (ucast sid)"
  by (simp add: of_byte_array_def inner_subresource_unchecked_eq subid_of_be)

lemma of_byte_array_public_key: "of_byte_array (inner_public_key (hash_bytes h)) = PublicKey h"
  by (simp add: of_byte_array_def inner_public_key_eq)

lemma with_subresource_id_simps:
  "with_subresource_id (PublicKey h) n =
     (if n > MAX_SUBRESOURCE_ID then Err invalid_identity_subid else Ok (Subresource h (ucast n)))"
  "with_subresource_id (Subresource h i) n =
     (if n > MAX_SUBRESOURCE_ID then Err invalid_identity_subid else Ok (Subresource h (ucast n)))"
  by (simp_all add: with_subresource_id_def subid_try_into_def of_byte_array_subresource)

section \<open>Order\<close>

text \<open>The derived \<open>Ord\<close> compares the byte arrays.\<close>

instantiation address :: linorder
begin

definition less_eq_address :: "address \<Rightarrow> address \<Rightarrow> bool" where
  "less_eq_address a b \<longleftrightarrow> to_byte_array a \<le> to_byte_array b"

definition less_address :: "address \<Rightarrow> address \<Rightarrow> bool" where
  "less_address a b \<longleftrightarrow> to_byte_array a < to_byte_array b"

instance
  by standard (auto simp: less_eq_address_def less_address_def less_le_not_le)

end

section \<open>Bytes in and out\<close>

lemma inner_from_to_vec: "inner_from_bytes (to_vec a) = Ok (to_byte_array a)"
proof (cases a)
  case (Subresource h i)
  let ?d = "discriminant (ucast i)"
  let ?t = "subid_tail (ucast i)"
  have "to_vec a = ?d # hash_bytes h @ ?t"
    using Subresource by (simp add: inner_subresource_unchecked_eq)
  then show ?thesis
    using Subresource subid_of_be_bytes [OF discriminant_ge, of ?t "ucast i"]
    by (simp add: inner_from_bytes_def inner_subresource_unchecked_eq discriminant_ge)
qed (simp_all add: inner_from_bytes_def)

lemma inner_from_bytes_canonical:
  assumes "inner_from_bytes bs = Ok b"
  shows "inner_wf b" "inner_to_vec b = bs"
proof -
  consider "bs = [0]" "b = inner_anonymous" | "bs = [2]" "b = inner_illegal"
    | "bs ! 0 = 1" "length bs = 29" "b = inner_public_key (take 28 (drop 1 bs))"
    | "0x80 \<le> bs ! 0" "length bs = 32"
      "b = inner_subresource_unchecked (take 28 (drop 1 bs)) (u32_from_be_bytes (bs ! 0 # take 3 (drop 29 bs)))"
    using assms by (cases bs) (auto simp: inner_from_bytes_def split: if_splits)
  then have "inner_wf b \<and> inner_to_vec b = bs"
  proof cases
    case 3
    then obtain t where "bs = 1 # t" "length t = 28"
      by (cases bs) auto
    with 3 show ?thesis
      by (simp add: inner_wf_def inner_public_key_eq inner_to_vec_def)
  next
    case 4
    then obtain b0 h b1 b2 b3 where bs: "bs = b0 # h @ [b1, b2, b3]" "length h = 28" "0x80 \<le> b0"
      using length_32_split [of bs] by auto
    then have "b0 \<noteq> 0" "b0 \<noteq> 1" "b0 \<noteq> 2"
      by (auto simp: word_le_nat_alt)
    with 4 bs show ?thesis
      by (simp add: inner_wf_def inner_subresource_unchecked_eq inner_to_vec_def subid_of_be_bytes)
  qed (simp_all add: inner_wf_def inner_to_vec_def inner_anonymous_def inner_illegal_def)
  then show "inner_wf b" "inner_to_vec b = bs"
    by simp_all
qed

lemma inner_eq_wf:
  "inner_eq (to_byte_array a) (to_byte_array b) \<longleftrightarrow> a = b"
proof -
  have *: "hash_bytes h = hash_bytes h' \<longleftrightarrow> h = h'" for h h'
    by (metis hash_of_hash_bytes)
  have **: "discriminant (ucast i) = discriminant (ucast j) \<and> subid_tail (ucast i) = subid_tail (ucast j) \<longleftrightarrow> i = j"
    for i j :: "31 word"
    by (metis subid_of_be ucast_31(1))
  show ?thesis
    by (cases a; cases b)
      (use ** in \<open>auto simp: inner_eq_def inner_anonymous_def inner_illegal_def inner_public_key_eq
        inner_subresource_unchecked_eq discriminant_ge *\<close>)
qed

section \<open>Laws of the text encoding\<close>

text \<open>
  What the code relies on in base32 (RFC 4648, no padding; decoding accepts both cases): decoding
  the lower-cased encoding gives the data back, the alphabet is A-Z and 2-7, the empty string and
  the zero byte have their usual encodings, and two bytes take at least two characters.
\<close>

definition base32_alphabet :: "char set" where
  "base32_alphabet = {c. (of_char c :: nat) \<in> {65..90} \<or> (of_char c :: nat) \<in> {50..55}}"

definition lower_alphabet :: "char set" where
  "lower_alphabet = {c. (of_char c :: nat) \<in> {97..122} \<or> (of_char c :: nat) \<in> {50..55}}"

definition addr_laws :: "'x addr_ext_scheme \<Rightarrow> bool" where
  "addr_laws E \<longleftrightarrow>
     (\<forall>d. base32_decode E (to_ascii_lowercase (base32_encode E d)) = Some d) \<and>
     (\<forall>d. set (base32_encode E d) \<subseteq> base32_alphabet) \<and>
     base32_encode E [] = [] \<and> base32_encode E [0] = ''AA'' \<and>
     (\<forall>d. length d = 2 \<longrightarrow> 2 \<le> length (base32_encode E d))"

lemma addr_laws_decode:
  "addr_laws E \<Longrightarrow> base32_decode E (to_ascii_lowercase (base32_encode E d)) = Some d"
  by (simp add: addr_laws_def)

lemma ascii_lower_alphabet: "c \<in> base32_alphabet \<Longrightarrow> ascii_lower c \<in> lower_alphabet"
  by (auto simp: base32_alphabet_def lower_alphabet_def ascii_lower_def)

lemma lower_base32:
  assumes "addr_laws E" "c \<in> set (to_ascii_lowercase (base32_encode E d))"
  shows "c \<in> lower_alphabet"
  using assms ascii_lower_alphabet by (auto simp: addr_laws_def)

abbreviation addr_text :: "'x addr_ext_scheme \<Rightarrow> address \<Rightarrow> string" where
  "addr_text E a \<equiv> to_ascii_lowercase (base32_encode E (to_vec a))"

abbreviation addr_check :: "'x addr_ext_scheme \<Rightarrow> address \<Rightarrow> string" where
  "addr_check E a \<equiv> to_ascii_lowercase (take 2 (base32_encode E (be_nat 2 (unat (crc16 E (to_vec a))))))"

lemma to_string_Anonymous [simp]: "to_string E Anonymous = ''maa''"
  using is_anonymous_simps(1) by (simp add: to_string_def inner_to_string_def is_anonymous_def)

lemma to_string_eq:
  assumes "a \<noteq> Anonymous"
  shows "to_string E a = ''m'' @ addr_text E a @ addr_check E a"
  using assms is_anonymous_iff [of a]
  by (simp add: to_string_def inner_to_string_def is_anonymous_def to_vec_def Let_def)

lemma length_addr_check: "addr_laws E \<Longrightarrow> length (addr_check E a) = 2"
  by (simp add: addr_laws_def)

lemma to_string_alphabet:
  assumes "addr_laws E" "c \<in> set (to_string E a)"
  shows "c \<in> lower_alphabet"
proof (cases "a = Anonymous")
  case False
  have "c \<in> set (to_ascii_lowercase (base32_encode E d))" if "c \<in> set (to_ascii_lowercase (take 2 (base32_encode E d)))" for d
    using that by (auto dest: in_set_takeD)
  then show ?thesis
    using assms lower_base32 [OF assms(1), of c] to_string_eq [OF False, of E]
    by (auto simp: lower_alphabet_def)
qed (use assms in \<open>auto simp: lower_alphabet_def\<close>)

lemma addr_text_neq:
  assumes "addr_laws E" "a \<noteq> Anonymous"
  shows "addr_text E a \<noteq> []" "addr_text E a \<noteq> ''aa''"
proof -
  have ne: "to_vec a \<noteq> []" "to_vec a \<noteq> [0]"
    using assms(2) by (cases a; simp add: to_byte_array_eq del: to_byte_array.simps)+
  have "to_ascii_lowercase (base32_encode E [0]) = ''aa''"
    using assms(1) by (simp add: addr_laws_def ascii_lower_def char_of_def bit_0)
  then have "base32_decode E ''aa'' = Some [0]"
    using addr_laws_decode [OF assms(1), of "[0]"] by simp
  moreover have "base32_decode E [] = Some []"
    using addr_laws_decode [OF assms(1), of "[]"] assms(1) by (simp add: addr_laws_def)
  ultimately show "addr_text E a \<noteq> []" "addr_text E a \<noteq> ''aa''"
    using addr_laws_decode [OF assms(1), of "to_vec a"] ne by auto
qed

lemma to_string_neq_special:
  assumes "addr_laws E" "a \<noteq> Anonymous"
  shows "drop 1 (to_string E a) \<noteq> ''aa''" "drop 1 (to_string E a) \<noteq> ''aaaa''" "3 \<le> length (to_string E a)"
proof -
  have d: "drop 1 (to_string E a) = addr_text E a @ addr_check E a"
    by (simp add: to_string_eq [OF assms(2)])
  have len: "length (addr_check E a) = 2"
    by (rule length_addr_check [OF assms(1)])
  show "drop 1 (to_string E a) \<noteq> ''aa''"
  proof
    assume "drop 1 (to_string E a) = ''aa''"
    then have "length (addr_text E a) = 0"
      using len unfolding d by (metis length_append add_eq_self_zero add.commute length_Cons list.size(3) numeral_2_eq_2)
    then show False
      using addr_text_neq(1) [OF assms] by blast
  qed
  show "drop 1 (to_string E a) \<noteq> ''aaaa''"
  proof
    assume "drop 1 (to_string E a) = ''aaaa''"
    then have e: "addr_text E a @ addr_check E a = ''aa'' @ ''aa''"
      unfolding d by simp
    then have "addr_text E a = ''aa''"
      using len by (metis append_eq_append_conv length_Cons list.size(3) numeral_2_eq_2)
    then show False
      using addr_text_neq(2) [OF assms] by blast
  qed
  show "3 \<le> length (to_string E a)"
    using len addr_text_neq(1) [OF assms] by (simp add: to_string_eq [OF assms(2)] Suc_le_eq)
qed

lemma to_string_boundary:
  assumes "addr_laws E"
  shows "is_char_boundary (to_string E a) (length (to_string E a) - 2)"
proof -
  have "\<not> (0x80 \<le> (of_char c :: nat) \<and> (of_char c :: nat) < 0xC0)" if "c \<in> set (to_string E a)" for c
    using to_string_alphabet [OF assms that] by (auto simp: lower_alphabet_def)
  then show ?thesis
    by (auto simp: is_char_boundary_def)
qed

lemma inner_from_str_to_string:
  assumes "addr_laws E"
  shows "inner_from_str E (to_string E a) = Ok (to_byte_array a)"
proof (cases "a = Anonymous")
  case False
  have "drop 1 (take (length (to_string E a) - 2) (to_string E a)) = addr_text E a"
    using length_addr_check [OF assms, of a] by (simp add: to_string_eq [OF False])
  moreover have "take 1 (to_string E a) = ''m''"
    by (simp add: to_string_eq [OF False])
  ultimately show ?thesis
    using to_string_neq_special [OF assms False] to_string_boundary [OF assms, of a]
    by (simp add: inner_from_str_def addr_laws_decode [OF assms] inner_from_to_vec
        to_string_def [symmetric])
qed (simp add: inner_from_str_def)

lemma to_string_inject: "addr_laws E \<Longrightarrow> to_string E a = to_string E b \<longleftrightarrow> a = b"
  by (metis inner_from_str_to_string result.inject(1) to_byte_array_inject)

lemma to_string_no_slash: "addr_laws E \<Longrightarrow> CHR ''/'' \<notin> set (to_string E a)"
  using to_string_alphabet [of E "CHR ''/''" a] by (auto simp: lower_alphabet_def)

section \<open>An instance of the laws\<close>

text \<open>
  Two letters per byte, from A to P: a concrete text encoding that satisfies the laws, used to show
  that the statements relying on them are not vacuous.
\<close>

definition nib_char :: "nat \<Rightarrow> char" where
  "nib_char n = char_of (65 + n)"

definition nibble_encode :: "bytes \<Rightarrow> string" where
  "nibble_encode d = concat (map (\<lambda>b. [nib_char (unat b div 16), nib_char (unat b mod 16)]) d)"

fun nibble_decode :: "string \<Rightarrow> bytes option" where
  "nibble_decode [] = Some []"
| "nibble_decode [c] = None"
| "nibble_decode (c # c' # s) =
     map_option (\<lambda>t. of_nat (((of_char c :: nat) - 97) * 16 + ((of_char c' :: nat) - 97)) # t) (nibble_decode s)"

definition nibble_ext :: addr_ext where
  "nibble_ext = \<lparr>base32_encode = nibble_encode, base32_decode = nibble_decode, crc16 = (\<lambda>d. of_nat (length d))\<rparr>"

lemma nib_char_facts:
  assumes "n < 16"
  shows "(of_char (ascii_lower (nib_char n)) :: nat) = 97 + n" "nib_char n \<in> base32_alphabet"
  using assms by (auto simp: nib_char_def ascii_lower_def base32_alphabet_def)

lemma nibble_decode_encode: "nibble_decode (to_ascii_lowercase (nibble_encode d)) = Some d"
proof (induction d)
  case (Cons b d)
  have "unat b < 256"
    using unsigned_less [of b] by simp
  then have "(unat b div 16) < 16" "unat b mod 16 < 16"
    by auto
  then show ?case
    using Cons by (simp add: nibble_encode_def nib_char_facts del: of_nat_add of_nat_mult)
qed (simp add: nibble_encode_def)

lemma nibble_alphabet: "set (nibble_encode d) \<subseteq> base32_alphabet"
proof (induction d)
  case (Cons b d)
  have "unat b < 256"
    using unsigned_less [of b] by simp
  then have "(unat b div 16) < 16" "unat b mod 16 < 16"
    by auto
  then show ?case
    using Cons by (simp add: nibble_encode_def nib_char_facts)
qed (simp add: nibble_encode_def)

lemma nibble_length: "length (nibble_encode d) = 2 * length d"
  by (induction d) (simp_all add: nibble_encode_def)

lemma nibble_laws_gen:
  assumes "base32_encode E = nibble_encode" "base32_decode E = nibble_decode"
  shows "addr_laws E"
  unfolding addr_laws_def assms
  using nibble_decode_encode nibble_alphabet nibble_length
  by (simp add: nibble_encode_def nib_char_def char_of_def bit_0)

lemma nibble_laws: "addr_laws nibble_ext"
  by (rule nibble_laws_gen) (simp_all add: nibble_ext_def)

section \<open>Properties\<close>

text \<open>C28: The byte encoding of addresses is a bijection between addresses and the byte strings
  \<open>Address::from_bytes\<close> accepts: it decodes a string to an address exactly when \<open>to_vec\<close> of that
  address is the string.\<close>

theorem address_bytes_bijection: "from_bytes bs = Ok a \<longleftrightarrow> to_vec a = bs"
proof
  assume "from_bytes bs = Ok a"
  then obtain b where b: "inner_from_bytes bs = Ok b" and a: "a = of_byte_array b"
    by (auto simp: from_bytes_def act_simps)
  show "to_vec a = bs"
    using inner_from_bytes_canonical [OF b] by (simp add: a to_vec_def to_byte_array_of)
next
  assume "to_vec a = bs"
  then show "from_bytes bs = Ok a"
    using inner_from_to_vec [of a] by (auto simp: from_bytes_def)
qed

text \<open>C29: The textual form round-trips and is canonical: \<open>from_str\<close> parses a string to an address
  exactly when the string is the address's \<open>Display\<close> form, the one exception being the second
  accepted spelling \<open>maaaa\<close> of the anonymous address.\<close>

theorem address_text_roundtrip:
  assumes "addr_laws E"
  shows "from_str E v = Ok a \<longleftrightarrow> v = to_string E a \<or> v = ''maaaa'' \<and> a = Anonymous"
proof
  assume "from_str E v = Ok a"
  then obtain b where b: "inner_from_str E v = Ok b" and a: "a = of_byte_array b"
    by (auto simp: from_str_def act_simps)
  have anon: "of_byte_array inner_anonymous = Anonymous"
    using of_byte_array_to [of Anonymous] by simp
  have "take 1 v = ''m''"
    using b by (simp add: inner_from_str_def split: if_splits)
  then have v: "v = ''m'' @ drop 1 v"
    by (metis append_take_drop_id)
  consider "drop 1 v = ''aa''" "b = inner_anonymous" | "drop 1 v = ''aaaa''" "b = inner_anonymous"
    | data where "inner_from_bytes data = Ok b" "inner_to_string E b = v"
  proof (cases "drop 1 v = ''aa'' \<or> drop 1 v = ''aaaa''")
    case True
    then show ?thesis
      using b that(1,2) by (simp add: inner_from_str_def split: if_splits) blast
  next
    case False
    then show ?thesis
      using b that(3) by (auto simp: inner_from_str_def act_simps simp del: drop_Suc_Cons split: if_splits)
  qed
  then show "v = to_string E a \<or> v = ''maaaa'' \<and> a = Anonymous"
  proof cases
    case (3 data)
    then show ?thesis
      using inner_from_bytes_canonical(1) [of data b] by (simp add: a to_string_def to_byte_array_of)
  qed (use v in \<open>simp_all add: a anon\<close>)
next
  assume "v = to_string E a \<or> v = ''maaaa'' \<and> a = Anonymous"
  moreover have "from_str E (to_string E a) = Ok a"
    using inner_from_str_to_string [OF assms, of a] by (simp add: from_str_def)
  moreover have "from_str E ''maaaa'' = Ok Anonymous"
    using of_byte_array_to [of Anonymous] by (simp add: from_str_def inner_from_str_def)
  ultimately show "from_str E v = Ok a"
    by blast
qed

theorem address_text_roundtrip_witness:
  "addr_laws nibble_ext \<and> from_str nibble_ext (to_string nibble_ext (Subresource 5 3)) = Ok (Subresource 5 3)"
  using address_text_roundtrip [OF nibble_laws, of "to_string nibble_ext (Subresource 5 3)" "Subresource 5 3"]
    nibble_laws by simp

text \<open>The hand-written \<open>PartialEq\<close> of address arrays is equality on the arrays the constructors
  and decoders build, although it only compares the discriminant of two anonymous addresses and the
  29 leading bytes of two public keys.\<close>

theorem address_eq_is_equality:
  assumes "inner_wf x" "inner_wf y"
  shows "inner_eq x y \<longleftrightarrow> x = y"
  using inner_eq_wf [of "of_byte_array x" "of_byte_array y"] assms
  by (metis to_byte_array_of)

theorem address_eq_is_equality_witness:
  "inner_wf (to_byte_array (PublicKey 1)) \<and> inner_wf (to_byte_array (Subresource 1 7)) \<and>
   \<not> inner_eq (to_byte_array (PublicKey 1)) (to_byte_array (Subresource 1 7))"
  using address_eq_is_equality [of "to_byte_array (PublicKey 1)" "to_byte_array (Subresource 1 7)"]
  by (simp del: to_byte_array.simps)

lemma take_bit_31_id: "n \<le> MAX_SUBRESOURCE_ID \<Longrightarrow> take_bit 31 n = n"
  by (simp add: MAX_SUBRESOURCE_ID_def word_unat_eq_iff word_le_nat_alt unsigned_take_bit_eq) (simp add: take_bit_eq_mod)

text \<open>Subresources: \<open>with_subresource_id\<close> succeeds exactly on public keys and subresources with
  an id of at most 31 bits, and its result is the one subresource of the same public key that reads
  back that id.\<close>

theorem subresource_roundtrip:
  "with_subresource_id a n = Ok b \<longleftrightarrow>
     can_sign a \<and> n \<le> MAX_SUBRESOURCE_ID \<and>
     is_subresource b \<and> subresource_id b = Some n \<and> matches a b"
proof -
  have hb: "hash_bytes h = hash_bytes h' \<longleftrightarrow> h = h'" for h h'
    by (metis hash_of_hash_bytes)
  have uc: "ucast i = n \<longleftrightarrow> i = ucast n" if "n \<le> MAX_SUBRESOURCE_ID" for i :: "31 word"
    using ucast_31(1) [of i] ucast_31(2) [of n] take_bit_31_id [OF that] by auto
  show ?thesis
    by (cases a; cases b)
      (simp_all add: with_subresource_id_def subid_try_into_def of_byte_array_subresource can_sign_def
        matches_def hb not_less[symmetric], (use uc in \<open>auto simp: not_less\<close>)+)
qed

text \<open>A string whose third-to-last byte position lies inside a multi-byte character makes
  \<open>Address::from_str\<close> panic instead of returning an error: the letter m followed by the three
  bytes of the euro sign is such a string, whatever base32 and crc16 are.\<close>

theorem from_str_panics_on_multibyte:
  "from_str E [CHR ''m'', CHR 0xE2, CHR 0x82, CHR 0xAC] = Panic ''byte index is not a char boundary''"
  by (simp add: from_str_def inner_from_str_def is_char_boundary_def)

end
