(* ===== verification/BTree.thy ===== *)
theory BTree
  imports Many_Error
begin

text \<open>
  The ordered collections of the standard library, \<open>BTreeMap\<close> and \<open>BTreeSet\<close>, as lists in key
  order: an association list with strictly increasing keys, and a strictly increasing list. The
  locale \<open>ordered_map\<close> is the contract the components use of an ordered map; it is interpreted on the
  association lists at the end of the theory.
\<close>

section \<open>Operations\<close>

type_synonym ('k, 'v) btree_map = "('k \<times> 'v) list"

definition bt_insert :: "'k::linorder \<Rightarrow> 'v \<Rightarrow> ('k, 'v) btree_map \<Rightarrow> ('k, 'v) btree_map" where
  "bt_insert k v m = filter (\<lambda>e. fst e < k) m @ (k, v) # filter (\<lambda>e. k < fst e) m"

definition bt_remove :: "'k::linorder \<Rightarrow> ('k, 'v) btree_map \<Rightarrow> ('k, 'v) btree_map" where
  "bt_remove k m = filter (\<lambda>e. fst e \<noteq> k) m"

definition bs_insert :: "'a::linorder \<Rightarrow> 'a list \<Rightarrow> 'a list" where
  "bs_insert x xs = filter (\<lambda>y. y < x) xs @ x # filter (\<lambda>y. x < y) xs"

definition bs_remove :: "'a::linorder \<Rightarrow> 'a list \<Rightarrow> 'a list" where
  "bs_remove x xs = filter (\<lambda>y. y \<noteq> x) xs"

abbreviation bs_wf :: "'a::linorder list \<Rightarrow> bool" where
  "bs_wf xs \<equiv> sorted_wrt (<) xs"

definition bs_from :: "'a::linorder list \<Rightarrow> 'a list" where
  "bs_from xs = foldl (\<lambda>s x. bs_insert x s) [] xs"

definition bs_union :: "'a::linorder list \<Rightarrow> 'a list \<Rightarrow> 'a list" where
  "bs_union xs ys = foldl (\<lambda>s x. bs_insert x s) xs ys"

section \<open>Sets\<close>

lemma set_bs_insert [simp]: "set (bs_insert x xs) = insert x (set xs)"
  by (auto simp: bs_insert_def)

lemma set_bs_remove [simp]: "set (bs_remove x xs) = set xs - {x}"
  by (auto simp: bs_remove_def)

lemma bs_wf_insert [simp]: "bs_wf xs \<Longrightarrow> bs_wf (bs_insert x xs)"
  by (auto simp: bs_insert_def sorted_wrt_append sorted_wrt_filter)

lemma bs_wf_remove [simp]: "bs_wf xs \<Longrightarrow> bs_wf (bs_remove x xs)"
  by (simp add: bs_remove_def sorted_wrt_filter)

lemma bs_union_facts: "set (bs_union xs ys) = set xs \<union> set ys \<and> (bs_wf xs \<longrightarrow> bs_wf (bs_union xs ys))"
  unfolding bs_union_def by (induction ys arbitrary: xs) auto

lemma set_bs_union [simp]: "set (bs_union xs ys) = set xs \<union> set ys"
  using bs_union_facts by blast

lemma bs_wf_union [simp]: "bs_wf xs \<Longrightarrow> bs_wf (bs_union xs ys)"
  using bs_union_facts by blast

lemma set_bs_from [simp]: "set (bs_from xs) = set xs"
  using set_bs_union [of "[]" xs] by (simp add: bs_union_def bs_from_def)

lemma bs_wf_from [simp]: "bs_wf (bs_from xs)"
  using bs_wf_union [of "[]" xs] by (simp add: bs_union_def bs_from_def)

lemma bs_wf_equalI: "bs_wf xs \<Longrightarrow> bs_wf ys \<Longrightarrow> set xs = set ys \<Longrightarrow> xs = ys"
  by (rule strict_sorted_equal)

section \<open>The contract of an ordered map\<close>

locale ordered_map =
  fixes empty :: "'m"
    and lookup :: "'m \<Rightarrow> 'k::linorder \<Rightarrow> 'v option"
    and insert :: "'k \<Rightarrow> 'v \<Rightarrow> 'm \<Rightarrow> 'm"
    and remove :: "'k \<Rightarrow> 'm \<Rightarrow> 'm"
    and entries :: "'m \<Rightarrow> ('k \<times> 'v) list"
    and wf :: "'m \<Rightarrow> bool"
  assumes wf_empty: "wf empty"
    and wf_insert: "wf m \<Longrightarrow> wf (insert k v m)"
    and wf_remove: "wf m \<Longrightarrow> wf (remove k m)"
    and lookup_empty: "lookup empty k = None"
    and lookup_insert: "wf m \<Longrightarrow> lookup (insert k v m) k' = (if k' = k then Some v else lookup m k')"
    and lookup_remove: "wf m \<Longrightarrow> lookup (remove k m) k' = (if k' = k then None else lookup m k')"
    and entries_sorted: "wf m \<Longrightarrow> keys_sorted (entries m)"
    and entries_lookup: "wf m \<Longrightarrow> map_of (entries m) k = lookup m k"
begin

lemma entries_iff:
  assumes "wf m"
  shows "(k, v) \<in> set (entries m) \<longleftrightarrow> lookup m k = Some v"
  unfolding entries_lookup [OF assms, of k, symmetric]
  using keys_sorted_distinct [OF entries_sorted [OF assms]] by simp

lemma entries_determined:
  assumes "wf m" "wf m'" "\<And>k. lookup m k = lookup m' k"
  shows "entries m = entries m'"
  using assms entries_sorted entries_lookup by (intro keys_sorted_map_of_inject) auto

lemma insert_lookup_same:
  assumes "wf m" "lookup m k = Some v"
  shows "entries (insert k v m) = entries m"
  using assms by (intro entries_determined wf_insert) (auto simp: lookup_insert)

lemma keys_insert:
  assumes "wf m"
  shows "fst ` set (entries (insert k v m)) = Set.insert k (fst ` set (entries m))"
proof -
  have k: "fst ` set (entries m') = {k. lookup m' k \<noteq> None}" if "wf m'" for m'
    using entries_lookup [OF that] by (simp only: dom_map_of_conv_image_fst [symmetric] dom_def)
  show ?thesis
    unfolding k [OF assms] k [OF wf_insert [OF assms]] using assms by (auto simp: lookup_insert)
qed

lemma collect_lookup:
  assumes "wf m"
  shows "wf (foldl (\<lambda>m e. insert (fst e) (snd e) m) m es)"
    and "lookup (foldl (\<lambda>m e. insert (fst e) (snd e) m) m es) k =
      (case map_of (rev es) k of Some v \<Rightarrow> Some v | None \<Rightarrow> lookup m k)"
  using assms
proof (induction es arbitrary: m)
  case (Cons e es)
  case 2
  then show ?case
    using Cons.IH(2) [OF wf_insert] by (auto simp: lookup_insert map_add_def split: option.splits)
qed (auto simp: wf_insert)

end

section \<open>Association lists\<close>

abbreviation bt_wf :: "('k::linorder, 'v) btree_map \<Rightarrow> bool" where
  "bt_wf m \<equiv> keys_sorted m"

lemma bt_wf_filter: "bt_wf m \<Longrightarrow> bt_wf (filter P m)"
  by (simp add: sorted_wrt_map sorted_wrt_filter)

lemma bt_wf_insert: "bt_wf m \<Longrightarrow> bt_wf (bt_insert k v m)"
  by (auto simp: bt_insert_def sorted_wrt_append sorted_wrt_map sorted_wrt_filter)

lemma map_of_filter_keys:
  "map_of (filter (\<lambda>e. fst e < k) m) k' = (if k' < k then map_of m k' else None)"
  "map_of (filter (\<lambda>e. k < fst e) m) k' = (if k < k' then map_of m k' else None)"
  "map_of (filter (\<lambda>e. fst e \<noteq> k) m) k' = (if k' \<noteq> k then map_of m k' else None)"
  by (induction m) auto

lemma map_of_bt_insert: "map_of (bt_insert k v m) k' = (if k' = k then Some v else map_of m k')"
  by (auto simp: bt_insert_def map_add_def map_of_filter_keys split: option.splits)

interpretation bt: ordered_map "[]" map_of bt_insert bt_remove "\<lambda>m. m" bt_wf
proof unfold_locales
  show "bt_wf (bt_insert k v m)" if "bt_wf m" for k v and m :: "('a \<times> 'b) list"
    by (rule bt_wf_insert [OF that])
  show "bt_wf (bt_remove k m)" if "bt_wf m" for k and m :: "('a \<times> 'b) list"
    unfolding bt_remove_def by (rule bt_wf_filter [OF that])
  show "map_of (bt_insert k v m) k' = (if k' = k then Some v else map_of m k')" for k k' v and m :: "('a \<times> 'b) list"
    by (rule map_of_bt_insert)
  show "map_of (bt_remove k m) k' = (if k' = k then None else map_of m k')" for k k' and m :: "('a \<times> 'b) list"
    unfolding bt_remove_def by (simp add: map_of_filter_keys)
qed simp_all

end
