(* ===== verification/Types.thy ===== *)
theory Types
  imports Address BTree
begin

text \<open>
  The shared value types of \<open>src/src/many-types\<close>: token amounts and fees (\<open>ledger.rs\<close>), fixed-point
  percentages, timestamps, ranges, sort orders and attribute indices (\<open>lib.rs\<close>), free CBOR values
  (\<open>cbor.rs\<close>), attributes (\<open>attributes.rs\<close>) and memos (\<open>memo.rs\<close>).
\<close>

section \<open>Token amounts and fees\<close>

text \<open>A \<open>TokenAmount\<close> wraps a \<open>BigUint\<close>; subtracting more than there is panics.\<close>

type_synonym token_amount = nat
type_synonym symbol = address

definition sub_amount :: "token_amount \<Rightarrow> token_amount \<Rightarrow> token_amount result" where
  "sub_amount a b = (if b \<le> a then Ok (a - b) else Panic ''Cannot subtract b from a because b is larger than a.'')"

lemma sub_amount_Ok [act_simps]: "sub_amount a b = Ok c \<longleftrightarrow> b \<le> a \<and> c = a - b"
  by (auto simp: sub_amount_def)

text \<open>A \<open>Percent\<close> is an unsigned fixed-point number with 32 fractional bits, kept as its 64 bits.\<close>

type_synonym percent = u64

definition percent_new :: "u32 \<Rightarrow> u32 \<Rightarrow> percent" where
  "percent_new i fraction = push_bit 32 (ucast i) + ucast fraction"

definition mul_percent :: "token_amount \<Rightarrow> percent \<Rightarrow> token_amount" where
  "mul_percent n p = drop_bit 32 (n * unat p)"

record transaction_fee =
  tf_fixed :: "token_amount option"
  tf_percent :: "percent option"

definition calculate_fees :: "transaction_fee \<Rightarrow> token_amount \<Rightarrow> token_amount" where
  "calculate_fees f amount =
    (case tf_fixed f of Some x \<Rightarrow> x | None \<Rightarrow> 0) +
    (case tf_percent f of Some p \<Rightarrow> mul_percent amount p | None \<Rightarrow> 0)"

lemma unat_percent_new: "unat (percent_new i fraction) = unat i * 2 ^ 32 + unat fraction"
proof -
  have i: "unat i < 2 ^ 32" and f: "unat fraction < 2 ^ 32"
    using unsigned_less [of i] unsigned_less [of fraction] by simp_all
  have "unat (push_bit 32 (ucast i) :: u64) = unat i * 2 ^ 32"
    using i by (simp only: unsigned_push_bit_eq unsigned_ucast_eq) (simp add: push_bit_eq_mult take_bit_eq_mod)
  moreover have "unat (ucast fraction :: u64) = unat fraction"
    using f by (simp only: unsigned_ucast_eq) (simp add: take_bit_eq_mod)
  ultimately show ?thesis
    using i f by (simp add: percent_new_def unat_word_ariths)
qed

section \<open>Timestamps\<close>

text \<open>Seconds since the epoch in a \<open>u64\<close>; addition wraps in a release build.\<close>

type_synonym timestamp = u64

definition timestamp_add :: "timestamp \<Rightarrow> u64 \<Rightarrow> timestamp" where
  "timestamp_add t d = t + d"

section \<open>Ranges and sort orders\<close>

datatype 'a bound = Included 'a | Excluded 'a | Unbounded

record 'a cbor_range =
  range_start :: "'a bound"
  range_end :: "'a bound"

definition range_contains :: "'a::linorder cbor_range \<Rightarrow> 'a \<Rightarrow> bool" where
  "range_contains r x =
    ((case range_start r of Included s \<Rightarrow> s \<le> x | Excluded s \<Rightarrow> s < x | Unbounded \<Rightarrow> True) \<and>
     (case range_end r of Included e \<Rightarrow> x \<le> e | Excluded e \<Rightarrow> x < e | Unbounded \<Rightarrow> True))"

definition range_default :: "'a cbor_range" where
  "range_default = \<lparr>range_start = Unbounded, range_end = Unbounded\<rparr>"

datatype sort_order = Indeterminate | Ascending | Descending

section \<open>Attribute indices\<close>

datatype attribute_related_index_inner =
    IdxNone
  | IdxOne u32
  | IdxTwo u32 u32
  | IdxThree u32 u32 u32
  | IdxFour u32 u32 u32 u32

record attribute_related_index =
  ari_attribute :: u32
  ari_indices :: attribute_related_index_inner

definition ari_new :: "u32 \<Rightarrow> attribute_related_index" where
  "ari_new a = \<lparr>ari_attribute = a, ari_indices = IdxNone\<rparr>"

definition with_index :: "attribute_related_index \<Rightarrow> u32 \<Rightarrow> attribute_related_index" where
  "with_index r i = \<lparr>ari_attribute = ari_attribute r, ari_indices =
    (case ari_indices r of
       IdxNone \<Rightarrow> IdxOne i
     | IdxOne a \<Rightarrow> IdxTwo a i
     | IdxTwo a b \<Rightarrow> IdxThree a b i
     | IdxThree a b c \<Rightarrow> IdxFour a b c i
     | IdxFour a b c d \<Rightarrow> IdxFour a b c d)\<rparr>"

definition indices :: "attribute_related_index \<Rightarrow> u32 list" where
  "indices r =
    (case ari_indices r of
       IdxNone \<Rightarrow> []
     | IdxOne a \<Rightarrow> [a]
     | IdxTwo a b \<Rightarrow> [a, b]
     | IdxThree a b c \<Rightarrow> [a, b, c]
     | IdxFour a b c d \<Rightarrow> [a, b, c, d])"

definition flattened :: "attribute_related_index \<Rightarrow> u32 list" where
  "flattened r = ari_attribute r # indices r"

lemma indices_with_index: "indices (with_index r i) = take 4 (indices r @ [i])"
  by (cases "ari_indices r") (simp_all add: indices_def with_index_def)

lemma flattened_inject: "flattened r = flattened r' \<longleftrightarrow> r = r'"
  by (cases r; cases r'; cases "ari_indices r"; cases "ari_indices r'")
    (auto simp: flattened_def indices_def)

section \<open>Free CBOR values and attributes\<close>

datatype cbor_any =
    CBool bool
  | CInt int
  | CString string
  | CBytes bytes
  | CArray "cbor_any list"
  | CMap "(cbor_any \<times> cbor_any) list"
  | CTagged nat cbor_any
  | CNull

text \<open>An attribute; \<open>Ord\<close> compares the id only, so a set holds at most one attribute per id.\<close>

record attribute =
  attr_id :: u32
  attr_arguments :: "cbor_any list"

definition attribute_with_id :: "u32 \<Rightarrow> attribute" where
  "attribute_with_id i = \<lparr>attr_id = i, attr_arguments = []\<rparr>"

definition with_argument :: "attribute \<Rightarrow> cbor_any \<Rightarrow> attribute" where
  "with_argument a x = a\<lparr>attr_arguments := attr_arguments a @ [x]\<rparr>"

section \<open>Memos\<close>

definition MEMO_DATA_DEFAULT_MAX_SIZE :: nat where
  "MEMO_DATA_DEFAULT_MAX_SIZE = 4000"

datatype memo_inner = MemoString string | MemoByteString bytes

record memo =
  memo_parts :: "memo_inner list"

fun memo_part_len :: "memo_inner \<Rightarrow> nat" where
  "memo_part_len (MemoString s) = length s"
| "memo_part_len (MemoByteString b) = length b"

definition memo_inner_try_from :: "string + bytes \<Rightarrow> memo_inner result" where
  "memo_inner_try_from v =
    (case v of
       Inl s \<Rightarrow>
         if length s > MEMO_DATA_DEFAULT_MAX_SIZE then
           Err (unknown (''Data size ('' @ nat_str (length s) @ '') over limit ('' @ nat_str MEMO_DATA_DEFAULT_MAX_SIZE @ '')''))
         else Ok (MemoString s)
     | Inr b \<Rightarrow>
         if length b > MEMO_DATA_DEFAULT_MAX_SIZE then
           Err (unknown (''Data size ('' @ nat_str (length b) @ '') over limit ('' @ nat_str MEMO_DATA_DEFAULT_MAX_SIZE @ '')''))
         else Ok (MemoByteString b))"

definition memo_try_from :: "string + bytes \<Rightarrow> memo result" where
  "memo_try_from v = res_bind (memo_inner_try_from v) (\<lambda>i. Ok \<lparr>memo_parts = [i]\<rparr>)"

definition memo_try_from_iter :: "(string + bytes) list \<Rightarrow> memo result" where
  "memo_try_from_iter vs =
    res_bind (res_fold (\<lambda>v acc. res_bind (memo_inner_try_from v) (\<lambda>i. Ok (acc @ [i]))) vs [])
      (\<lambda>inner. Ok \<lparr>memo_parts = inner\<rparr>)"

definition memo_push_str :: "memo \<Rightarrow> string \<Rightarrow> memo result" where
  "memo_push_str m s = res_bind (memo_inner_try_from (Inl s)) (\<lambda>i. Ok (m\<lparr>memo_parts := memo_parts m @ [i]\<rparr>))"

definition memo_push_bytes :: "memo \<Rightarrow> bytes \<Rightarrow> memo result" where
  "memo_push_bytes m b = res_bind (memo_inner_try_from (Inr b)) (\<lambda>i. Ok (m\<lparr>memo_parts := memo_parts m @ [i]\<rparr>))"

definition memo_is_empty :: "memo \<Rightarrow> bool" where
  "memo_is_empty m \<longleftrightarrow> memo_parts m = []"

definition memo_wf :: "memo \<Rightarrow> bool" where
  "memo_wf m \<longleftrightarrow> (\<forall>p\<in>set (memo_parts m). memo_part_len p \<le> MEMO_DATA_DEFAULT_MAX_SIZE)"

definition memo_eq_str :: "memo \<Rightarrow> string \<Rightarrow> bool" where
  "memo_eq_str m s =
    (length (memo_parts m) = 1 \<and>
     find (\<lambda>_. True) (List.map_filter (\<lambda>p. case p of MemoString t \<Rightarrow> Some t | _ \<Rightarrow> None) (memo_parts m)) = Some s)"

lemma memo_inner_try_from_Ok:
  "memo_inner_try_from v = Ok i \<longleftrightarrow>
     memo_part_len i \<le> MEMO_DATA_DEFAULT_MAX_SIZE \<and> (case i of MemoString s \<Rightarrow> v = Inl s | MemoByteString b \<Rightarrow> v = Inr b)"
  by (auto simp: memo_inner_try_from_def split: sum.splits memo_inner.splits)

lemma memo_collect_Ok:
  "res_fold (\<lambda>v acc. res_bind (memo_inner_try_from v) (\<lambda>i. Ok (acc @ [i]))) vs acc = Ok parts \<Longrightarrow>
   \<exists>is. parts = acc @ is \<and> length is = length vs \<and> (\<forall>i\<in>set is. memo_part_len i \<le> MEMO_DATA_DEFAULT_MAX_SIZE)"
proof (induction vs arbitrary: acc)
  case (Cons v vs)
  then obtain i where i: "memo_inner_try_from v = Ok i"
    and r: "res_fold (\<lambda>v acc. res_bind (memo_inner_try_from v) (\<lambda>i. Ok (acc @ [i]))) vs (acc @ [i]) = Ok parts"
    by (auto simp: act_simps)
  from Cons.IH [OF r] obtain is' where "parts = acc @ [i] @ is'" "length is' = length vs"
    "\<forall>i\<in>set is'. memo_part_len i \<le> MEMO_DATA_DEFAULT_MAX_SIZE"
    by auto
  with i show ?case
    by (intro exI [of _ "i # is'"]) (auto simp: memo_inner_try_from_Ok)
qed auto

text \<open>No constructor of a memo lets a part over the size limit through, and the memo is empty
  exactly when it is collected from an empty iterator; in particular \<open>try_from_iter\<close> does build an
  empty memo, which the documented invariant of the type excludes.\<close>

theorem memo_constructors_bounded:
  assumes "memo_try_from_iter vs = Ok m"
  shows "memo_wf m \<and> length (memo_parts m) = length vs \<and> (memo_is_empty m \<longleftrightarrow> vs = [])"
  using assms memo_collect_Ok [of vs "[]"]
  by (auto simp: memo_try_from_iter_def act_simps memo_wf_def memo_is_empty_def)

theorem memo_constructors_bounded_witness:
  "memo_is_empty \<lparr>memo_parts = []\<rparr> \<and> memo_try_from_iter [] = Ok \<lparr>memo_parts = []\<rparr>"
  using memo_constructors_bounded [of "[]" "\<lparr>memo_parts = []\<rparr>"]
  by (simp add: memo_try_from_iter_def)

text \<open>Fees are the fixed part plus the percentage of the amount rounded down: with the 64 bits
  of the fixed-point percentage read as i + f / 2 ^ 32, the computed fee is the largest number of
  tokens not above the exact fee.\<close>

theorem fees_round_down:
  "calculate_fees \<lparr>tf_fixed = Some x, tf_percent = Some (percent_new i f)\<rparr> amount =
     x + amount * unat i + (amount * unat f) div 2 ^ 32"
proof -
  have "amount * (unat i * 2 ^ 32 + unat f) = amount * unat f + (amount * unat i) * 2 ^ 32"
    by (simp add: algebra_simps)
  then have "(amount * (unat i * 2 ^ 32 + unat f)) div 2 ^ 32 = amount * unat i + (amount * unat f) div 2 ^ 32"
    by (simp only: div_mult_self1 [of "2 ^ 32 :: nat"] power_eq_0_iff) simp
  then show ?thesis
    by (simp add: calculate_fees_def mul_percent_def unat_percent_new drop_bit_eq_div)
qed

end
