(* ===== verification/Account.thy ===== *)
theory Account
  imports Types
begin

text \<open>
  Accounts, \<open>src/src/many-modules/src/_9_account.rs\<close>, and their features,
  \<open>_9_account/features.rs\<close> and \<open>_9_account/features/*.rs\<close>: roles, role tables, feature sets and
  the multisig feature with its CBOR argument.
\<close>

section \<open>Roles\<close>

datatype role =
    Owner
  | CanLedgerTransact
  | CanMultisigSubmit
  | CanMultisigApprove
  | CanKvStorePut
  | CanKvStoreDisable
  | CanKvStoreTransfer
  | CanTokensCreate
  | CanTokensMint
  | CanTokensBurn
  | CanTokensUpdate
  | CanTokensAddExtendedInfo
  | CanTokensRemoveExtendedInfo

text \<open>The derived \<open>Ord\<close> is the declaration order.\<close>

primrec role_index :: "role \<Rightarrow> nat" where
  "role_index Owner = 0"
| "role_index CanLedgerTransact = 1"
| "role_index CanMultisigSubmit = 2"
| "role_index CanMultisigApprove = 3"
| "role_index CanKvStorePut = 4"
| "role_index CanKvStoreDisable = 5"
| "role_index CanKvStoreTransfer = 6"
| "role_index CanTokensCreate = 7"
| "role_index CanTokensMint = 8"
| "role_index CanTokensBurn = 9"
| "role_index CanTokensUpdate = 10"
| "role_index CanTokensAddExtendedInfo = 11"
| "role_index CanTokensRemoveExtendedInfo = 12"

lemma role_index_inject: "role_index r = role_index r' \<longleftrightarrow> r = r'"
  by (cases r; cases r') simp_all

instantiation role :: linorder
begin

definition less_eq_role :: "role \<Rightarrow> role \<Rightarrow> bool" where
  "less_eq_role a b \<longleftrightarrow> role_index a \<le> role_index b"

definition less_role :: "role \<Rightarrow> role \<Rightarrow> bool" where
  "less_role a b \<longleftrightarrow> role_index a < role_index b"

instance
  by standard (auto simp: less_eq_role_def less_role_def simp flip: role_index_inject)

end

text \<open>The \<open>strum\<close> names in camel case.\<close>

primrec role_str :: "role \<Rightarrow> string" where
  "role_str Owner = ''owner''"
| "role_str CanLedgerTransact = ''canLedgerTransact''"
| "role_str CanMultisigSubmit = ''canMultisigSubmit''"
| "role_str CanMultisigApprove = ''canMultisigApprove''"
| "role_str CanKvStorePut = ''canKvStorePut''"
| "role_str CanKvStoreDisable = ''canKvStoreDisable''"
| "role_str CanKvStoreTransfer = ''canKvStoreTransfer''"
| "role_str CanTokensCreate = ''canTokensCreate''"
| "role_str CanTokensMint = ''canTokensMint''"
| "role_str CanTokensBurn = ''canTokensBurn''"
| "role_str CanTokensUpdate = ''canTokensUpdate''"
| "role_str CanTokensAddExtendedInfo = ''canTokensAddExtendedInfo''"
| "role_str CanTokensRemoveExtendedInfo = ''canTokensRemoveExtendedInfo''"

type_synonym address_role_map = "(address, role list) btree_map"

section \<open>Features\<close>

text \<open>A feature is an attribute; a feature set is ordered by feature id and holds one per id.\<close>

type_synonym feature = attribute
type_synonym feature_set = "feature list"

abbreviation feature_id :: "feature \<Rightarrow> u32" where
  "feature_id \<equiv> attr_id"

definition fs_insert :: "feature \<Rightarrow> feature_set \<Rightarrow> bool \<times> feature_set" where
  "fs_insert f fs =
    (\<exists>g\<in>set fs. feature_id g = feature_id f,
     filter (\<lambda>g. feature_id g < feature_id f) fs @ f # filter (\<lambda>g. feature_id f < feature_id g) fs)"

definition fs_remove :: "u32 \<Rightarrow> feature_set \<Rightarrow> bool \<times> feature_set" where
  "fs_remove i fs = (\<exists>g\<in>set fs. feature_id g = i, filter (\<lambda>g. feature_id g \<noteq> i) fs)"

definition fs_has_id :: "feature_set \<Rightarrow> u32 \<Rightarrow> bool" where
  "fs_has_id fs i \<longleftrightarrow> list_ex (\<lambda>g. i = feature_id g) fs"

definition fs_get_feature :: "feature_set \<Rightarrow> u32 \<Rightarrow> feature option" where
  "fs_get_feature fs i = find (\<lambda>g. i = feature_id g) fs"

definition fs_get :: "feature_set \<Rightarrow> u32 \<Rightarrow> (feature \<Rightarrow> 'a result) \<Rightarrow> 'a result" where
  "fs_get fs i try_create =
    (case fs_get_feature fs i of
       None \<Rightarrow> Err (attribute_not_found (nat_str (unat i)))
     | Some f \<Rightarrow> try_create f)"

definition fs_wf :: "feature_set \<Rightarrow> bool" where
  "fs_wf fs \<longleftrightarrow> sorted_wrt (\<lambda>f g. feature_id f < feature_id g) fs"

definition AccountLedger_ID :: u32 where "AccountLedger_ID = 0"
definition MultisigAccountFeature_ID :: u32 where "MultisigAccountFeature_ID = 1"
definition AccountKvStore_ID :: u32 where "AccountKvStore_ID = 2"
definition TokenAccountLedger_ID :: u32 where "TokenAccountLedger_ID = 3"

definition AccountLedger_roles :: "role list" where
  "AccountLedger_roles = bs_from [CanLedgerTransact]"

definition MultisigAccountFeature_roles :: "role list" where
  "MultisigAccountFeature_roles = bs_from [CanMultisigSubmit, CanMultisigApprove]"

definition AccountKvStore_roles :: "role list" where
  "AccountKvStore_roles = bs_from [CanKvStorePut, CanKvStoreDisable, CanKvStoreTransfer]"

definition TokenAccountLedger_roles :: "role list" where
  "TokenAccountLedger_roles = bs_from [CanTokensCreate, CanTokensBurn, CanTokensMint, CanTokensUpdate,
     CanTokensAddExtendedInfo, CanTokensRemoveExtendedInfo]"

text \<open>The features without arguments: \<open>try_create\<close> ignores the feature.\<close>

definition plain_try_create :: "feature \<Rightarrow> unit result" where
  "plain_try_create f = Ok ()"

section \<open>The multisig feature\<close>

record multisig_arg =
  ma_threshold :: "u64 option"
  ma_timeout_in_secs :: "u64 option"
  ma_execute_automatically :: "bool option"

definition int_to_u64 :: "int \<Rightarrow> u64 option" where
  "int_to_u64 x = (if 0 \<le> x \<and> x < 2 ^ 64 then Some (word_of_int x) else None)"

definition multisig_try_create :: "feature \<Rightarrow> multisig_arg result" where
  "multisig_try_create f =
    (if length (attr_arguments f) \<noteq> 1 then Err invalid_attribute_arguments
     else case attr_arguments f of
       CMap m # _ \<Rightarrow>
         Ok \<lparr>ma_threshold = (case map_of m (CInt 0) of Some (CInt x) \<Rightarrow> int_to_u64 x | _ \<Rightarrow> None),
             ma_timeout_in_secs = (case map_of m (CInt 1) of Some (CInt x) \<Rightarrow> int_to_u64 x | _ \<Rightarrow> None),
             ma_execute_automatically = (case map_of m (CInt 2) of Some (CBool b) \<Rightarrow> Some b | _ \<Rightarrow> None)\<rparr>
     | _ \<Rightarrow> Err invalid_attribute_arguments)"

text \<open>The three keys are inserted in increasing order; \<open>as i64\<close> reinterprets the 64 bits.\<close>

definition multisig_as_feature :: "multisig_arg \<Rightarrow> feature" where
  "multisig_as_feature a =
    with_argument (attribute_with_id MultisigAccountFeature_ID)
      (CMap ((case ma_threshold a of Some t \<Rightarrow> [(CInt 0, CInt (sint t))] | None \<Rightarrow> []) @
             (case ma_timeout_in_secs a of Some t \<Rightarrow> [(CInt 1, CInt (sint t))] | None \<Rightarrow> []) @
             (case ma_execute_automatically a of Some b \<Rightarrow> [(CInt 2, CBool b)] | None \<Rightarrow> [])))"

section \<open>Accounts\<close>

datatype 'c reason = Reason (reason_code: 'c) (reason_message: "string option")
  (reason_arguments: "(string \<times> string) list")

record account =
  acc_description :: "string option"
  acc_roles :: address_role_map
  acc_features :: feature_set
  acc_disabled :: "(bool + u64 reason) option"

record create_args =
  ca_description :: "string option"
  ca_roles :: "address_role_map option"
  ca_features :: feature_set

definition roles_of :: "address_role_map \<Rightarrow> address \<Rightarrow> role list" where
  "roles_of m i = (case map_of m i of Some v \<Rightarrow> v | None \<Rightarrow> [])"

definition has_role :: "account \<Rightarrow> address \<Rightarrow> role \<Rightarrow> bool" where
  "has_role a i r = (case map_of (acc_roles a) i of Some v \<Rightarrow> r \<in> set v | None \<Rightarrow> False)"

fun needs_role_loop :: "account \<Rightarrow> address \<Rightarrow> role option \<Rightarrow> role list \<Rightarrow> unit result" where
  "needs_role_loop a i first [] =
     Err (user_needs_role (role_str (case first of Some r \<Rightarrow> r | None \<Rightarrow> Owner)))"
| "needs_role_loop a i first (r # rs) =
     (let first' = (case first of Some f \<Rightarrow> Some f | None \<Rightarrow> Some r) in
      if has_role a i r then Ok () else needs_role_loop a i first' rs)"

definition needs_role :: "account \<Rightarrow> address \<Rightarrow> role list \<Rightarrow> unit result" where
  "needs_role a i rs = needs_role_loop a i None rs"

definition add_role :: "account \<Rightarrow> address \<Rightarrow> role \<Rightarrow> account" where
  "add_role a i r = a\<lparr>acc_roles := bt_insert i (bs_insert r (roles_of (acc_roles a) i)) (acc_roles a)\<rparr>"

definition remove_role :: "account \<Rightarrow> address \<Rightarrow> role \<Rightarrow> bool \<times> account" where
  "remove_role a i r =
    (case map_of (acc_roles a) i of
       None \<Rightarrow> (False, a)
     | Some v \<Rightarrow>
         let v' = bs_remove r v in
         (r \<in> set v,
          a\<lparr>acc_roles := if v' = [] then bt_remove i (acc_roles a) else bt_insert i v' (acc_roles a)\<rparr>))"

definition account_create :: "address \<Rightarrow> create_args \<Rightarrow> account" where
  "account_create sender args =
    (let roles = (case ca_roles args of Some m \<Rightarrow> m | None \<Rightarrow> []) in
     \<lparr>acc_description = ca_description args,
      acc_roles = bt_insert sender (bs_insert Owner (roles_of roles sender)) roles,
      acc_features = ca_features args,
      acc_disabled = None\<rparr>)"

definition account_disable :: "account \<Rightarrow> u64 reason option \<Rightarrow> account" where
  "account_disable a reason =
    a\<lparr>acc_disabled := Some (case reason of None \<Rightarrow> Inl True | Some e \<Rightarrow> Inr e)\<rparr>"

definition account_set_description :: "account \<Rightarrow> string option \<Rightarrow> account" where
  "account_set_description a d = a\<lparr>acc_description := d\<rparr>"

definition account_get_roles :: "account \<Rightarrow> address \<Rightarrow> role list" where
  "account_get_roles a i = roles_of (acc_roles a) i"

section \<open>Account maps\<close>

record account_map =
  am_id :: address
  am_inner :: "(u32, account) btree_map"

definition am_get :: "account_map \<Rightarrow> address \<Rightarrow> account option" where
  "am_get m i =
    (if matches i (am_id m) then
       (case subresource_id i of Some s \<Rightarrow> map_of (am_inner m) s | None \<Rightarrow> None)
     else None)"

definition am_contains :: "account_map \<Rightarrow> address \<Rightarrow> bool" where
  "am_contains m i \<longleftrightarrow> am_get m i \<noteq> None"

definition am_insert :: "account_map \<Rightarrow> account \<Rightarrow> (address \<times> account option \<times> account_map) result" where
  "am_insert m a =
    (let subid = (if am_inner m = [] then 0 else fst (last (am_inner m)) + 1) in
     res_bind (with_subresource_id (am_id m) subid) (\<lambda>i.
       Ok (i, map_of (am_inner m) subid, m\<lparr>am_inner := bt_insert subid a (am_inner m)\<rparr>)))"

definition am_remove :: "account_map \<Rightarrow> address \<Rightarrow> account option \<times> account_map" where
  "am_remove m i =
    (if matches i (am_id m) then
       (case subresource_id i of
          Some s \<Rightarrow> (map_of (am_inner m) s, m\<lparr>am_inner := bt_remove s (am_inner m)\<rparr>)
        | None \<Rightarrow> (None, m))
     else (None, m))"

definition am_has_role :: "account_map \<Rightarrow> address \<Rightarrow> address \<Rightarrow> role \<Rightarrow> bool" where
  "am_has_role m acc i r = (case am_get m acc of Some a \<Rightarrow> has_role a i r | None \<Rightarrow> False)"

definition am_needs_role :: "'x addr_ext_scheme \<Rightarrow> account_map \<Rightarrow> address \<Rightarrow> address \<Rightarrow> role list \<Rightarrow> unit result" where
  "am_needs_role E m acc i rs =
    (case am_get m acc of Some a \<Rightarrow> needs_role a i rs | None \<Rightarrow> Err (unknown_account (to_string E acc)))"

section \<open>Role tables\<close>

definition account_wf :: "account \<Rightarrow> bool" where
  "account_wf a \<longleftrightarrow> bt_wf (acc_roles a) \<and> (\<forall>e\<in>set (acc_roles a). bs_wf (snd e)) \<and> fs_wf (acc_features a)"

lemma has_role_iff: "has_role a i r \<longleftrightarrow> r \<in> set (roles_of (acc_roles a) i)"
  by (simp add: has_role_def roles_of_def split: option.splits)

lemma needs_role_loop_Ok:
  "needs_role_loop a i first rs = Ok () \<longleftrightarrow> (\<exists>r\<in>set rs. has_role a i r)"
  by (induction rs arbitrary: first) (auto simp: Let_def)

lemma needs_role_loop_Err:
  "needs_role_loop a i first rs = Ok () \<or>
   needs_role_loop a i first rs = Err (user_needs_role (role_str (case first of Some r \<Rightarrow> r | None \<Rightarrow> (case rs of r # _ \<Rightarrow> r | [] \<Rightarrow> Owner))))"
proof (induction rs arbitrary: first)
  case (Cons r rs)
  show ?case
    using Cons [of "case first of Some f \<Rightarrow> Some f | None \<Rightarrow> Some r"]
    by (cases first) (auto simp: Let_def)
qed (simp split: option.splits)

lemma roles_of_Nil [simp]: "roles_of [] i = []"
  by (simp add: roles_of_def)

lemma roles_of_bt_insert:
  "roles_of (bt_insert i v m) j = (if j = i then v else roles_of m j)"
  by (simp add: roles_of_def map_of_bt_insert)

lemma roles_of_bt_remove: "roles_of (bt_remove i m) j = (if j = i then [] else roles_of m j)"
  by (simp add: roles_of_def bt_remove_def map_of_filter_keys)

lemma has_role_add_role: "has_role (add_role a i r) j r' \<longleftrightarrow> j = i \<and> r' = r \<or> has_role a j r'"
  by (auto simp: has_role_iff add_role_def roles_of_bt_insert)

lemma has_role_remove_role:
  "has_role (snd (remove_role a i r)) j r' \<longleftrightarrow> \<not> (j = i \<and> r' = r) \<and> has_role a j r'"
proof (cases "map_of (acc_roles a) i")
  case (Some v)
  then have "roles_of (acc_roles a) i = v"
    by (simp add: roles_of_def)
  moreover have "r' \<in> set v \<Longrightarrow> r' \<noteq> r \<Longrightarrow> bs_remove r v \<noteq> []"
    by (auto simp: bs_remove_def filter_empty_conv)
  moreover have "bs_remove r v = [] \<Longrightarrow> r' \<in> set v \<Longrightarrow> r' = r"
    by (auto simp: bs_remove_def filter_empty_conv)
  ultimately show ?thesis
    using Some by (auto simp: has_role_iff remove_role_def Let_def roles_of_bt_insert roles_of_bt_remove)
qed (auto simp: remove_role_def has_role_def)

lemma fst_remove_role: "fst (remove_role a i r) \<longleftrightarrow> has_role a i r"
  by (simp add: remove_role_def has_role_def Let_def split: option.splits)

lemma set_bt_insert: "set (bt_insert k v m) \<subseteq> insert (k, v) (set m)"
  by (auto simp: bt_insert_def)

lemma roles_of_wf:
  assumes "\<forall>e\<in>set m. bs_wf (snd e)"
  shows "bs_wf (roles_of m i)"
  using assms by (auto simp: roles_of_def split: option.splits dest!: map_of_SomeD)

lemma account_wf_add_role: "account_wf a \<Longrightarrow> account_wf (add_role a i r)"
  using set_bt_insert [of i "bs_insert r (roles_of (acc_roles a) i)" "acc_roles a"]
    roles_of_wf [of "acc_roles a" i]
  by (auto simp: account_wf_def add_role_def bt_wf_insert)

lemma account_wf_remove_role: "account_wf a \<Longrightarrow> account_wf (snd (remove_role a i r))"
proof (cases "map_of (acc_roles a) i")
  case (Some v)
  assume a: "account_wf a"
  have "bs_wf v"
    using a Some by (auto simp: account_wf_def dest!: map_of_SomeD)
  moreover have "bt_wf (bt_remove i (acc_roles a))"
    using a bt.wf_remove [of "acc_roles a" i] by (simp add: account_wf_def)
  ultimately show ?thesis
    using a Some set_bt_insert [of i "bs_remove r v" "acc_roles a"]
    by (auto simp: account_wf_def remove_role_def Let_def bt_wf_insert bt_remove_def)
qed (simp add: remove_role_def)

lemma account_wf_create:
  assumes "case ca_roles args of Some m \<Rightarrow> bt_wf m \<and> (\<forall>e\<in>set m. bs_wf (snd e)) | None \<Rightarrow> True"
    and "fs_wf (ca_features args)"
  shows "account_wf (account_create sender args)"
proof -
  define m where "m = (case ca_roles args of Some m \<Rightarrow> m | None \<Rightarrow> [])"
  have m: "bt_wf m" "\<forall>e\<in>set m. bs_wf (snd e)"
    using assms(1) by (auto simp: m_def split: option.splits)
  then show ?thesis
    using assms(2) set_bt_insert [of sender "bs_insert Owner (roles_of m sender)" m] roles_of_wf [of m sender]
    by (auto simp: account_wf_def account_create_def m_def [symmetric] bt_wf_insert)
qed

lemma has_role_create:
  "has_role (account_create sender args) j r \<longleftrightarrow>
     j = sender \<and> r = Owner \<or> (case ca_roles args of Some m \<Rightarrow> r \<in> set (roles_of m j) | None \<Rightarrow> False)"
  by (cases "ca_roles args")
    (auto simp: has_role_iff account_create_def Let_def roles_of_bt_insert)

section \<open>Feature sets\<close>

lemma fs_wf_insert: "fs_wf fs \<Longrightarrow> fs_wf (snd (fs_insert f fs))"
  by (auto simp: fs_wf_def fs_insert_def sorted_wrt_append sorted_wrt_filter)

lemma find_append: "find P (xs @ ys) = (case find P xs of Some x \<Rightarrow> Some x | None \<Rightarrow> find P ys)"
  by (induction xs) auto

lemma find_filter: "find P (filter Q xs) = find (\<lambda>x. P x \<and> Q x) xs"
  by (induction xs) auto

lemma find_false: "(\<And>x. \<not> P x) \<Longrightarrow> find P xs = None"
  by (induction xs) auto

lemma fs_get_insert:
  "fs_get_feature (snd (fs_insert f fs)) i = (if i = feature_id f then Some f else fs_get_feature fs i)"
proof (cases "i = feature_id f")
  case True
  have "find (\<lambda>x. feature_id f = feature_id x \<and> feature_id x < feature_id f) fs = None"
    by (rule find_false) auto
  then show ?thesis
    using True by (simp add: fs_get_feature_def fs_insert_def find_append find_filter)
next
  case False
  show ?thesis
  proof (cases "i < feature_id f")
    case True
    have "find (\<lambda>x. i = feature_id x \<and> feature_id x < feature_id f) fs = find (\<lambda>x. i = feature_id x) fs"
      using True by (metis (mono_tags, lifting))
    moreover have "find (\<lambda>x. i = feature_id x \<and> feature_id f < feature_id x) fs = None"
      using True by (intro find_false) auto
    ultimately show ?thesis
      using False by (simp add: fs_get_feature_def fs_insert_def find_append find_filter split: option.splits)
  next
    case nl: False
    with False have "feature_id f < i" by simp
    then have "find (\<lambda>x. i = feature_id x \<and> feature_id f < feature_id x) fs = find (\<lambda>x. i = feature_id x) fs"
      by (metis (mono_tags, lifting))
    moreover have "find (\<lambda>x. i = feature_id x \<and> feature_id x < feature_id f) fs = None"
      using nl by (intro find_false) auto
    ultimately show ?thesis
      using False by (simp add: fs_get_feature_def fs_insert_def find_append find_filter split: option.splits)
  qed
qed

lemma fs_has_id_iff: "fs_has_id fs i \<longleftrightarrow> fs_get_feature fs i \<noteq> None"
  by (auto simp: fs_has_id_def fs_get_feature_def find_None_iff list_ex_iff)

section \<open>Properties\<close>

text \<open>Role tables: adding a role grants exactly that role, removing one revokes exactly that
  role and reports whether it was there, a new account makes its creator an owner and grants nothing
  else beyond the requested roles, and \<open>needs_role\<close> accepts exactly when one of the roles is held.\<close>

theorem role_table_operations:
  "(has_role (add_role a i r) j r' \<longleftrightarrow> j = i \<and> r' = r \<or> has_role a j r') \<and>
   (has_role (snd (remove_role a i r)) j r' \<longleftrightarrow> \<not> (j = i \<and> r' = r) \<and> has_role a j r') \<and>
   (fst (remove_role a i r) \<longleftrightarrow> has_role a i r) \<and>
   (has_role (account_create i args) j r' \<longleftrightarrow>
      j = i \<and> r' = Owner \<or> (case ca_roles args of Some m \<Rightarrow> r' \<in> set (roles_of m j) | None \<Rightarrow> False)) \<and>
   (needs_role a i rs = Ok () \<longleftrightarrow> list_ex (has_role a i) rs)"
  by (intro conjI has_role_add_role has_role_remove_role fst_remove_role has_role_create)
    (simp add: needs_role_def needs_role_loop_Ok list_ex_iff)

lemma int_to_u64_sint: "int_to_u64 (sint t) = (if unat t < 2 ^ 63 then Some t else None)"
proof -
  have r: "- (2 ^ 63) \<le> sint t" "sint t < 2 ^ 63"
    using sint_range_size [of t] by (simp_all add: word_size)
  have w: "word_of_int (sint t) = t"
    by simp
  have "uint (word_of_int (sint t) :: u64) = sint t mod 2 ^ 64"
    by (simp only: uint_word_of_int) simp
  then have u: "uint t = sint t mod 2 ^ 64"
    unfolding w .
  have n: "unat t < 2 ^ 63 \<longleftrightarrow> uint t < 2 ^ 63"
    using of_nat_less_iff [of "unat t" "2 ^ 63", where 'a = int] by simp
  show ?thesis
  proof (cases "0 \<le> sint t")
    case True
    then have "uint t = sint t"
      using u r by simp
    then show ?thesis
      using True r n by (simp add: int_to_u64_def)
  next
    case False
    have "sint t mod 2 ^ 64 = (sint t + 2 ^ 64) mod 2 ^ 64"
      by simp
    also have "\<dots> = sint t + 2 ^ 64"
      using r False by (intro mod_pos_pos_trivial) auto
    finally show ?thesis
      using False r n u by (simp add: int_to_u64_def)
  qed
qed

text \<open>The multisig feature round-trips through its CBOR argument exactly when its threshold and
  its timeout are below 2 ^ 63; a larger value is cast to a negative integer and reads back as
  absent.\<close>

theorem multisig_feature_roundtrip:
  "multisig_try_create (multisig_as_feature a) = Ok a \<longleftrightarrow>
     (case ma_threshold a of Some t \<Rightarrow> unat t < 2 ^ 63 | None \<Rightarrow> True) \<and>
     (case ma_timeout_in_secs a of Some t \<Rightarrow> unat t < 2 ^ 63 | None \<Rightarrow> True)"
  by (cases a; cases "ma_threshold a"; cases "ma_timeout_in_secs a"; cases "ma_execute_automatically a")
    (simp_all add: multisig_try_create_def multisig_as_feature_def with_argument_def attribute_with_id_def
      int_to_u64_sint)

end
