(* ===== verification/Events.thy ===== *)
theory Events
  imports Account
begin

text \<open>
  Events, \<open>src/src/many-modules/src/_4_events.rs\<close>, with the argument structs of the endpoints they
  record: event identifiers, the event table (kinds, contents, their numeric index, the addresses an
  event is about), and the transactions a multisig account can hold. The big-integer crate is a
  parameter.
\<close>

section \<open>Event identifiers\<close>

record num_ext = addr_ext +
  bu_from_bytes_be :: "bytes \<Rightarrow> nat"
  bu_to_bytes_be :: "nat \<Rightarrow> bytes"

type_synonym event_id = bytes

definition event_id_from_u64 :: "u64 \<Rightarrow> event_id" where
  "event_id_from_u64 v = u64_to_be_bytes v"

definition event_id_add :: "'x num_ext_scheme \<Rightarrow> event_id \<Rightarrow> u32 \<Rightarrow> event_id" where
  "event_id_add E i n = bu_to_bytes_be E (bu_from_bytes_be E i + unat n)"

definition event_id_sub :: "'x num_ext_scheme \<Rightarrow> event_id \<Rightarrow> u32 \<Rightarrow> event_id result" where
  "event_id_sub E i n = res_bind (sub_amount (bu_from_bytes_be E i) (unat n)) (\<lambda>d. Ok (bu_to_bytes_be E d))"

text \<open>
  What the code relies on: \<open>from_bytes_be\<close> reads a big-endian number and \<open>to_bytes_be\<close> writes its
  shortest non-empty big-endian form.
\<close>

definition num_laws :: "'x num_ext_scheme \<Rightarrow> bool" where
  "num_laws E \<longleftrightarrow> addr_laws E \<and>
     (\<forall>bs. bu_from_bytes_be E bs = nat_be bs) \<and>
     (\<forall>n. nat_be (bu_to_bytes_be E n) = n) \<and>
     (\<forall>n k. n < 256 ^ k \<longrightarrow> 0 < k \<longrightarrow> length (bu_to_bytes_be E n) \<le> k)"

section \<open>Arguments of the endpoints\<close>

record send_args =
  sa_from :: "address option"
  sa_to :: address
  sa_amount :: token_amount
  sa_symbol :: symbol
  sa_memo :: "memo option"

record put_args =
  pa_key :: bytes
  pa_value :: bytes
  pa_alternative_owner :: "address option"

record kv_disable_args =
  kda_key :: bytes
  kda_alternative_owner :: "address option"
  kda_reason :: "u64 reason option"

record transfer_args =
  ta_key :: bytes
  ta_alternative_owner :: "address option"
  ta_new_owner :: address

text \<open>\<open>QueryReturns\<close> of the key-value store, which its storage keeps as \<open>KvStoreMetadata\<close>.\<close>

record kv_metadata =
  kvm_owner :: address
  kvm_disabled :: "(bool + u64 reason) option"
  kvm_previous_owner :: "address option"

datatype key_filter_type = FilterOwner address | FilterPreviousOwner address | FilterDisabled bool

record set_description_args =
  sda_account :: address
  sda_description :: string

record add_roles_args =
  ara_account :: address
  ara_roles :: address_role_map

record remove_roles_args =
  rra_account :: address
  rra_roles :: address_role_map

record disable_args =
  da_account :: address

record add_features_args =
  afa_account :: address
  afa_roles :: "address_role_map option"
  afa_features :: feature_set

record set_defaults_args =
  sdf_account :: address
  sdf_threshold :: "u64 option"
  sdf_timeout_in_secs :: "u64 option"
  sdf_execute_automatically :: "bool option"

text \<open>\<open>ApproveArgs\<close>, \<open>RevokeArgs\<close>, \<open>ExecuteArgs\<close> and \<open>WithdrawArgs\<close> hold one token each.\<close>

record token_arg =
  arg_token :: bytes

section \<open>Tokens\<close>

record token_info_summary =
  tis_name :: string
  tis_ticker :: string
  tis_decimals :: u64

record token_info_supply =
  sup_total :: token_amount
  sup_circulating :: token_amount
  sup_maximum :: "token_amount option"

record token_info =
  ti_symbol :: symbol
  ti_summary :: token_info_summary
  ti_supply :: token_info_supply
  ti_owner :: "address option"

text \<open>\<open>Either<Address, CborNull>\<close>.\<close>

type_synonym token_maybe_owner = "address + unit"
type_synonym ledger_tokens_address_map = "(address, token_amount) btree_map"

datatype single_visual_token_logo = UnicodeChar nat | Image string bytes
type_synonym visual_token_logo = "single_visual_token_logo list"

datatype extended_info_key = KeyMemo | KeyVisualLogo
datatype extended_info = InfoMemo memo | InfoVisualLogo visual_token_logo

primrec extended_info_key_index :: "extended_info_key \<Rightarrow> u32" where
  "extended_info_key_index KeyMemo = 0"
| "extended_info_key_index KeyVisualLogo = 1"

instantiation extended_info_key :: linorder
begin

definition less_eq_extended_info_key :: "extended_info_key \<Rightarrow> extended_info_key \<Rightarrow> bool" where
  "less_eq_extended_info_key a b \<longleftrightarrow> extended_info_key_index a \<le> extended_info_key_index b"

definition less_extended_info_key :: "extended_info_key \<Rightarrow> extended_info_key \<Rightarrow> bool" where
  "less_extended_info_key a b \<longleftrightarrow> extended_info_key_index a < extended_info_key_index b"

instance
proof
  fix x y :: extended_info_key
  assume "x \<le> y" "y \<le> x"
  then show "x = y"
    by (cases x; cases y) (simp_all add: less_eq_extended_info_key_def)
qed (auto simp: less_eq_extended_info_key_def less_extended_info_key_def)

end

definition extended_info_key_try_from :: "attribute_related_index \<Rightarrow> extended_info_key option" where
  "extended_info_key_try_from i =
    (if ari_attribute i = 0 then Some KeyMemo
     else if ari_attribute i = 1 then Some KeyVisualLogo
     else None)"

primrec extended_info_as_key :: "extended_info \<Rightarrow> extended_info_key" where
  "extended_info_as_key (InfoMemo m) = KeyMemo"
| "extended_info_as_key (InfoVisualLogo l) = KeyVisualLogo"

type_synonym token_extended_info = "(extended_info_key, extended_info) btree_map"

definition ext_info_insert :: "extended_info \<Rightarrow> token_extended_info \<Rightarrow> token_extended_info" where
  "ext_info_insert v i = bt_insert (extended_info_as_key v) v i"

definition conv_index_error :: many_error where
  "conv_index_error = unknown ''Unable to convert AttributeRelatedIndex to ExtendedInfoKey''"

definition ext_info_contains_index :: "token_extended_info \<Rightarrow> attribute_related_index \<Rightarrow> bool result" where
  "ext_info_contains_index i ix =
    res_bind (ok_or conv_index_error (extended_info_key_try_from ix)) (\<lambda>k. Ok (map_of i k \<noteq> None))"

definition ext_info_remove :: "token_extended_info \<Rightarrow> attribute_related_index \<Rightarrow> token_extended_info result" where
  "ext_info_remove i ix =
    res_bind (ok_or conv_index_error (extended_info_key_try_from ix)) (\<lambda>k. Ok (bt_remove k i))"

definition ext_info_retain :: "token_extended_info \<Rightarrow> attribute_related_index list \<Rightarrow> token_extended_info result" where
  "ext_info_retain i ixs =
    res_bind
      (res_fold (\<lambda>ix ks. res_bind (ok_or (unknown ''Unable to convert {i} to ExtendedInfoKey'')
          (extended_info_key_try_from ix)) (\<lambda>k. Ok (bs_insert k ks))) ixs [])
      (\<lambda>ks. Ok (filter (\<lambda>e. fst e \<in> set ks) i))"

definition ext_info_memo :: "token_extended_info \<Rightarrow> memo option" where
  "ext_info_memo i = (case map_of i KeyMemo of Some (InfoMemo m) \<Rightarrow> Some m | _ \<Rightarrow> None)"

definition ext_info_with_memo :: "token_extended_info \<Rightarrow> memo \<Rightarrow> token_extended_info" where
  "ext_info_with_memo i m = ext_info_insert (InfoMemo m) i"

definition ext_info_visual_logo :: "token_extended_info \<Rightarrow> visual_token_logo option" where
  "ext_info_visual_logo i = (case map_of i KeyVisualLogo of Some (InfoVisualLogo l) \<Rightarrow> Some l | _ \<Rightarrow> None)"

definition ext_info_with_visual_logo :: "token_extended_info \<Rightarrow> visual_token_logo \<Rightarrow> token_extended_info" where
  "ext_info_with_visual_logo i l = ext_info_insert (InfoVisualLogo l) i"

record token_create_args =
  tca_summary :: token_info_summary
  tca_owner :: "token_maybe_owner option"
  tca_initial_distribution :: "ledger_tokens_address_map option"
  tca_maximum_supply :: "token_amount option"
  tca_extended_info :: "token_extended_info option"
  tca_memo :: "memo option"

record token_info_args =
  tia_symbol :: symbol
  tia_extended_info :: "attribute_related_index list option"

record token_update_args =
  tua_symbol :: symbol
  tua_name :: "string option"
  tua_ticker :: "string option"
  tua_decimals :: "u64 option"
  tua_owner :: "token_maybe_owner option"
  tua_memo :: "memo option"

record token_add_extended_info_args =
  taei_symbol :: symbol
  taei_extended_info :: token_extended_info
  taei_memo :: "memo option"

record token_remove_extended_info_args =
  trei_symbol :: symbol
  trei_extended_info :: "attribute_related_index list"
  trei_memo :: "memo option"

record token_mint_args =
  tma_symbol :: symbol
  tma_distribution :: ledger_tokens_address_map
  tma_memo :: "memo option"

record token_burn_args =
  tba_symbol :: symbol
  tba_distribution :: ledger_tokens_address_map
  tba_memo :: "memo option"
  tba_error_on_under_burn :: "bool option"

record web_deploy_args =
  wda_owner :: "address option"
  wda_site_name :: string
  wda_site_description :: "string option"
  wda_source :: bytes
  wda_memo :: "memo option"
  wda_domain :: "string option"

record web_remove_args =
  wra_owner :: "address option"
  wra_site_name :: string
  wra_memo :: "memo option"

section \<open>Multisig transactions\<close>

text \<open>
  \<open>AccountMultisigTransaction\<close>, one constructor per event kind that has arguments, and
  \<open>SubmitTransactionArgs\<close>, which contains a transaction again. The memo and data of the legacy
  format are a string and a byte string.
\<close>

datatype multisig_transaction =
    TxSend send_args
  | TxKvStorePut put_args
  | TxKvStoreDisable kv_disable_args
  | TxAccountCreate create_args
  | TxAccountSetDescription set_description_args
  | TxAccountAddRoles add_roles_args
  | TxAccountRemoveRoles remove_roles_args
  | TxAccountDisable disable_args
  | TxAccountAddFeatures add_features_args
  | TxAccountMultisigSubmit submit_transaction_args
  | TxAccountMultisigApprove token_arg
  | TxAccountMultisigRevoke token_arg
  | TxAccountMultisigExecute token_arg
  | TxAccountMultisigWithdraw token_arg
  | TxAccountMultisigSetDefaults set_defaults_args
  | TxTokenCreate token_create_args
  | TxTokenUpdate token_update_args
  | TxTokenAddExtendedInfo token_add_extended_info_args
  | TxTokenRemoveExtendedInfo token_remove_extended_info_args
  | TxTokenMint token_mint_args
  | TxTokenBurn token_burn_args
  | TxKvStoreTransfer transfer_args
  | TxWebDeploy web_deploy_args
  | TxWebRemove web_remove_args
  | TxWebUpdate web_deploy_args
and submit_transaction_args =
  SubmitArgs (sub_account: address) (sub_memo_legacy: "string option")
    (sub_transaction: multisig_transaction) (sub_threshold: "u64 option")
    (sub_timeout_in_secs: "u64 option") (sub_execute_automatically: "bool option")
    (sub_data_legacy: "bytes option") (sub_memo: "memo option")

definition roles_addresses :: "address_role_map option \<Rightarrow> address list" where
  "roles_addresses r = (case r of Some m \<Rightarrow> map fst m | None \<Rightarrow> [])"

definition send_args_addresses :: "send_args \<Rightarrow> address list" where
  "send_args_addresses a =
    (case sa_from a of Some f \<Rightarrow> bs_from [f, sa_to a] | None \<Rightarrow> bs_from [sa_to a])"

fun tx_addresses :: "multisig_transaction \<Rightarrow> address list"
  and submit_addresses :: "submit_transaction_args \<Rightarrow> address list" where
  "tx_addresses (TxSend a) = send_args_addresses a"
| "tx_addresses (TxAccountCreate a) = roles_addresses (ca_roles a)"
| "tx_addresses (TxAccountSetDescription a) = [sda_account a]"
| "tx_addresses (TxAccountAddRoles a) = bs_union [ara_account a] (map fst (ara_roles a))"
| "tx_addresses (TxAccountRemoveRoles a) = bs_union [rra_account a] (map fst (rra_roles a))"
| "tx_addresses (TxAccountDisable a) = [da_account a]"
| "tx_addresses (TxAccountAddFeatures a) = bs_union [afa_account a] (roles_addresses (afa_roles a))"
| "tx_addresses (TxAccountMultisigSubmit a) = submit_addresses a"
| "tx_addresses (TxAccountMultisigSetDefaults a) = [sdf_account a]"
| "tx_addresses (TxKvStoreTransfer a) =
     bs_insert (ta_new_owner a) (case ta_alternative_owner a of Some o' \<Rightarrow> [o'] | None \<Rightarrow> [])"
| "tx_addresses _ = []"
| "submit_addresses (SubmitArgs acc ml tx th ti au da m) = bs_union [acc] (tx_addresses tx)"

definition tx_is_about :: "multisig_transaction \<Rightarrow> address \<Rightarrow> bool" where
  "tx_is_about t a \<longleftrightarrow> a \<in> set (tx_addresses t)"

section \<open>Responses and events\<close>

record response_message =
  rm_version :: "u8 option"
  rm_from :: address
  rm_to :: "address option"
  rm_data :: "many_error + bytes"
  rm_timestamp :: "timestamp option"
  rm_id :: "u64 option"
  rm_attributes :: "attribute list"

definition response_default :: response_message where
  "response_default = \<lparr>rm_version = None, rm_from = Anonymous, rm_to = None, rm_data = Inr [],
     rm_timestamp = None, rm_id = None, rm_attributes = []\<rparr>"

datatype event_info =
    EvSend address address symbol token_amount "memo option"
  | EvKvStorePut bytes bytes address
  | EvKvStoreDisable bytes "u64 reason option"
  | EvAccountCreate address "string option" address_role_map feature_set
  | EvAccountSetDescription address string
  | EvAccountAddRoles address address_role_map
  | EvAccountRemoveRoles address address_role_map
  | EvAccountDisable address
  | EvAccountAddFeatures address address_role_map feature_set
  | EvAccountMultisigSubmit address address "string option" multisig_transaction "bytes option"
      u64 timestamp bool "bytes option" "memo option"
  | EvAccountMultisigApprove address bytes address
  | EvAccountMultisigRevoke address bytes address
  | EvAccountMultisigExecute address bytes "address option" response_message
  | EvAccountMultisigWithdraw address bytes address
  | EvAccountMultisigSetDefaults address address "u64 option" "u64 option" "bool option"
  | EvAccountMultisigExpired address bytes timestamp
  | EvTokenCreate token_info_summary symbol "token_maybe_owner option" "ledger_tokens_address_map option"
      "token_amount option" "token_extended_info option" "memo option"
  | EvTokenUpdate symbol "string option" "string option" "u64 option" "token_maybe_owner option" "memo option"
  | EvTokenAddExtendedInfo symbol "attribute_related_index list" "memo option"
  | EvTokenRemoveExtendedInfo symbol "attribute_related_index list" "memo option"
  | EvTokenMint symbol ledger_tokens_address_map "memo option"
  | EvTokenBurn symbol ledger_tokens_address_map "memo option"
  | EvKvStoreTransfer bytes address address
  | EvWebDeploy address string "string option" string "memo option" "string option"
  | EvWebRemove address string "memo option"
  | EvWebUpdate address string "string option" string "memo option" "string option"

datatype event_kind =
    KSend | KKvStorePut | KKvStoreDisable | KAccountCreate | KAccountSetDescription | KAccountAddRoles
  | KAccountRemoveRoles | KAccountDisable | KAccountAddFeatures | KAccountMultisigSubmit
  | KAccountMultisigApprove | KAccountMultisigRevoke | KAccountMultisigExecute | KAccountMultisigWithdraw
  | KAccountMultisigSetDefaults | KAccountMultisigExpired | KTokenCreate | KTokenUpdate
  | KTokenAddExtendedInfo | KTokenRemoveExtendedInfo | KTokenMint | KTokenBurn | KKvStoreTransfer
  | KWebDeploy | KWebRemove | KWebUpdate

primrec event_kind_of :: "event_info \<Rightarrow> event_kind" where
  "event_kind_of (EvSend a b c d e) = KSend"
| "event_kind_of (EvKvStorePut a b c) = KKvStorePut"
| "event_kind_of (EvKvStoreDisable a b) = KKvStoreDisable"
| "event_kind_of (EvAccountCreate a b c d) = KAccountCreate"
| "event_kind_of (EvAccountSetDescription a b) = KAccountSetDescription"
| "event_kind_of (EvAccountAddRoles a b) = KAccountAddRoles"
| "event_kind_of (EvAccountRemoveRoles a b) = KAccountRemoveRoles"
| "event_kind_of (EvAccountDisable a) = KAccountDisable"
| "event_kind_of (EvAccountAddFeatures a b c) = KAccountAddFeatures"
| "event_kind_of (EvAccountMultisigSubmit a b c d e f g h i j) = KAccountMultisigSubmit"
| "event_kind_of (EvAccountMultisigApprove a b c) = KAccountMultisigApprove"
| "event_kind_of (EvAccountMultisigRevoke a b c) = KAccountMultisigRevoke"
| "event_kind_of (EvAccountMultisigExecute a b c d) = KAccountMultisigExecute"
| "event_kind_of (EvAccountMultisigWithdraw a b c) = KAccountMultisigWithdraw"
| "event_kind_of (EvAccountMultisigSetDefaults a b c d e) = KAccountMultisigSetDefaults"
| "event_kind_of (EvAccountMultisigExpired a b c) = KAccountMultisigExpired"
| "event_kind_of (EvTokenCreate a b c d e f g) = KTokenCreate"
| "event_kind_of (EvTokenUpdate a b c d e f) = KTokenUpdate"
| "event_kind_of (EvTokenAddExtendedInfo a b c) = KTokenAddExtendedInfo"
| "event_kind_of (EvTokenRemoveExtendedInfo a b c) = KTokenRemoveExtendedInfo"
| "event_kind_of (EvTokenMint a b c) = KTokenMint"
| "event_kind_of (EvTokenBurn a b c) = KTokenBurn"
| "event_kind_of (EvKvStoreTransfer a b c) = KKvStoreTransfer"
| "event_kind_of (EvWebDeploy a b c d e f) = KWebDeploy"
| "event_kind_of (EvWebRemove a b c) = KWebRemove"
| "event_kind_of (EvWebUpdate a b c d e f) = KWebUpdate"

text \<open>The numeric index of the table, flattened.\<close>

primrec event_kind_path :: "event_kind \<Rightarrow> u32 list" where
  "event_kind_path KSend = [6, 0]"
| "event_kind_path KKvStorePut = [7, 0]"
| "event_kind_path KKvStoreDisable = [7, 1]"
| "event_kind_path KAccountCreate = [9, 0]"
| "event_kind_path KAccountSetDescription = [9, 1]"
| "event_kind_path KAccountAddRoles = [9, 2]"
| "event_kind_path KAccountRemoveRoles = [9, 3]"
| "event_kind_path KAccountDisable = [9, 4]"
| "event_kind_path KAccountAddFeatures = [9, 5]"
| "event_kind_path KAccountMultisigSubmit = [9, 1, 0]"
| "event_kind_path KAccountMultisigApprove = [9, 1, 1]"
| "event_kind_path KAccountMultisigRevoke = [9, 1, 2]"
| "event_kind_path KAccountMultisigExecute = [9, 1, 3]"
| "event_kind_path KAccountMultisigWithdraw = [9, 1, 4]"
| "event_kind_path KAccountMultisigSetDefaults = [9, 1, 5]"
| "event_kind_path KAccountMultisigExpired = [9, 1, 6]"
| "event_kind_path KTokenCreate = [11, 0]"
| "event_kind_path KTokenUpdate = [11, 1]"
| "event_kind_path KTokenAddExtendedInfo = [11, 2]"
| "event_kind_path KTokenRemoveExtendedInfo = [11, 3]"
| "event_kind_path KTokenMint = [12, 0]"
| "event_kind_path KTokenBurn = [12, 1]"
| "event_kind_path KKvStoreTransfer = [13, 0]"
| "event_kind_path KWebDeploy = [17, 0]"
| "event_kind_path KWebRemove = [17, 1]"
| "event_kind_path KWebUpdate = [17, 2]"

definition event_kinds :: "event_kind list" where
  "event_kinds =
    [KSend, KKvStorePut, KKvStoreDisable, KAccountCreate, KAccountSetDescription, KAccountAddRoles,
     KAccountRemoveRoles, KAccountDisable, KAccountAddFeatures, KAccountMultisigSubmit,
     KAccountMultisigApprove, KAccountMultisigRevoke, KAccountMultisigExecute, KAccountMultisigWithdraw,
     KAccountMultisigSetDefaults, KAccountMultisigExpired, KTokenCreate, KTokenUpdate,
     KTokenAddExtendedInfo, KTokenRemoveExtendedInfo, KTokenMint, KTokenBurn, KKvStoreTransfer,
     KWebDeploy, KWebRemove, KWebUpdate]"

definition event_kind_index :: "event_kind \<Rightarrow> attribute_related_index" where
  "event_kind_index k = foldl with_index (ari_new (hd (event_kind_path k))) (tl (event_kind_path k))"

definition event_kind_try_from :: "attribute_related_index \<Rightarrow> u32 list + event_kind" where
  "event_kind_try_from i =
    (case find (\<lambda>k. event_kind_path k = flattened i) event_kinds of
       Some k \<Rightarrow> Inr k
     | None \<Rightarrow> Inl (flattened i))"

text \<open>The fields tagged \<open>memo\<close>.\<close>

fun event_memo :: "event_info \<Rightarrow> memo option" where
  "event_memo (EvSend f t s a m) = m"
| "event_memo (EvAccountMultisigSubmit a b c d e f g h i m) = m"
| "event_memo (EvTokenCreate a b c d e f m) = m"
| "event_memo (EvTokenUpdate a b c d e m) = m"
| "event_memo (EvTokenAddExtendedInfo a b m) = m"
| "event_memo (EvTokenRemoveExtendedInfo a b m) = m"
| "event_memo (EvTokenMint a b m) = m"
| "event_memo (EvTokenBurn a b m) = m"
| "event_memo (EvWebDeploy a b c d m e) = m"
| "event_memo (EvWebRemove a b m) = m"
| "event_memo (EvWebUpdate a b c d m e) = m"
| "event_memo _ = None"

text \<open>The fields tagged \<open>id\<close> and \<open>maybe_owner\<close>.\<close>

definition maybe_owner_addresses :: "token_maybe_owner option \<Rightarrow> address list" where
  "maybe_owner_addresses o' = (case o' of Some (Inl a) \<Rightarrow> [a] | _ \<Rightarrow> [])"

fun event_addresses :: "event_info \<Rightarrow> address list" where
  "event_addresses (EvSend f t s a m) = bs_from [f, t, s]"
| "event_addresses (EvKvStorePut k v ow) = [ow]"
| "event_addresses (EvKvStoreDisable k r) = []"
| "event_addresses (EvAccountCreate a d r f) = bs_from (a # map fst r)"
| "event_addresses (EvAccountSetDescription a d) = [a]"
| "event_addresses (EvAccountAddRoles a r) = bs_from (a # map fst r)"
| "event_addresses (EvAccountRemoveRoles a r) = bs_from (a # map fst r)"
| "event_addresses (EvAccountDisable a) = [a]"
| "event_addresses (EvAccountAddFeatures a r f) = bs_from (a # map fst r)"
| "event_addresses (EvAccountMultisigSubmit s a ml t to th ti au da m) = bs_from (s # a # tx_addresses t)"
| "event_addresses (EvAccountMultisigApprove a t p) = bs_from [a, p]"
| "event_addresses (EvAccountMultisigRevoke a t p) = bs_from [a, p]"
| "event_addresses (EvAccountMultisigExecute a t p r) = bs_from (a # (case p of Some x \<Rightarrow> [x] | None \<Rightarrow> []))"
| "event_addresses (EvAccountMultisigWithdraw a t p) = bs_from [a, p]"
| "event_addresses (EvAccountMultisigSetDefaults s a th ti au) = bs_from [s, a]"
| "event_addresses (EvAccountMultisigExpired a t ti) = [a]"
| "event_addresses (EvTokenCreate su s ow d mx x m) =
     bs_from (s # maybe_owner_addresses ow @ (case d of Some dd \<Rightarrow> map fst dd | None \<Rightarrow> []))"
| "event_addresses (EvTokenUpdate s n t d ow m) = bs_from (s # maybe_owner_addresses ow)"
| "event_addresses (EvTokenAddExtendedInfo s x m) = [s]"
| "event_addresses (EvTokenRemoveExtendedInfo s x m) = [s]"
| "event_addresses (EvTokenMint s d m) = bs_from (s # map fst d)"
| "event_addresses (EvTokenBurn s d m) = bs_from (s # map fst d)"
| "event_addresses (EvKvStoreTransfer k ow n) = bs_from [ow, n]"
| "event_addresses (EvWebDeploy ow n d h m do) = [ow]"
| "event_addresses (EvWebRemove ow n m) = [ow]"
| "event_addresses (EvWebUpdate ow n d h m do) = [ow]"

definition event_is_about :: "event_info \<Rightarrow> address \<Rightarrow> bool" where
  "event_is_about e a \<longleftrightarrow> a \<in> set (event_addresses e)"

record event_log =
  el_id :: event_id
  el_time :: timestamp
  el_content :: event_info

definition event_log_kind :: "event_log \<Rightarrow> event_kind" where
  "event_log_kind l = event_kind_of (el_content l)"

definition event_log_is_about :: "event_log \<Rightarrow> address \<Rightarrow> bool" where
  "event_log_is_about l a = event_is_about (el_content l) a"

lemma event_kinds_all: "k \<in> set event_kinds"
  by (cases k) (simp_all add: event_kinds_def)

lemma event_kinds_distinct: "distinct (map event_kind_path event_kinds)"
  by code_simp

lemma event_kind_path_inject: "event_kind_path k = event_kind_path k' \<longleftrightarrow> k = k'"
  using event_kinds_distinct event_kinds_all [of k] event_kinds_all [of k']
  by (auto simp: distinct_map dest: inj_onD)

lemma find_eq: "k \<in> set ks \<Longrightarrow> find (\<lambda>k'. k' = k) ks = Some k"
  by (induction ks) auto

text \<open>The numeric index of an event kind identifies it: converting a kind to its attribute
  index and back gives the kind, and no two kinds of the table share an index although some paths
  are prefixes of others.\<close>

theorem event_kind_roundtrip: "event_kind_try_from (event_kind_index k) = Inr k"
proof -
  have f: "flattened (event_kind_index k) = event_kind_path k"
    by (cases k) (simp_all add: event_kind_index_def flattened_def ari_new_def indices_def with_index_def)
  have "find (\<lambda>k'. event_kind_path k' = event_kind_path k) event_kinds = Some k"
    unfolding event_kind_path_inject by (rule find_eq [OF event_kinds_all])
  then show ?thesis
    by (simp add: event_kind_try_from_def f)
qed

end
