(* ===== verification/Store.thy ===== *)
theory Store
  imports Events
begin

text \<open>
  The persistent store of the ledger. The Merkle store (\<open>merk\<close>), the CBOR codecs (\<open>minicbor\<close>) and the
  system clock are parameters, the fields of \<open>ext\<close>; \<open>merk_laws\<close> and \<open>codec_ok\<close> state what the
  code relies on. The theory also holds the records the ledger keeps in the store and the storage keys
  of \<open>src/src/many-ledger/src/storage.rs\<close> and \<open>storage/*.rs\<close>, with their separation lemmas.
\<close>

section \<open>Stored records\<close>

datatype multisig_transaction_state = Pending | ExecutedAutomatically | ExecutedManually | Withdrawn | Expired

record approver_info =
  approved :: bool

text \<open>\<open>InfoReturn\<close> of the multisig feature.\<close>

record multisig_info =
  mi_memo_legacy :: "string option"
  mi_transaction :: multisig_transaction
  mi_submitter :: address
  mi_approvers :: "(address, approver_info) btree_map"
  mi_threshold :: u64
  mi_execute_automatically :: bool
  mi_timeout :: timestamp
  mi_data_legacy :: "bytes option"
  mi_state :: multisig_transaction_state
  mi_memo :: "memo option"

text \<open>
  A \<open>SystemTime\<close> counts whole seconds here: the ledger only stores times it converts from a
  \<open>Timestamp\<close>. On the supported platforms a time holds its seconds in an \<open>i64\<close>, so adding to it
  fails from \<open>2 ^ 63\<close> on.
\<close>

type_synonym system_time = nat

definition checked_add_secs :: "system_time \<Rightarrow> nat \<Rightarrow> system_time option" where
  "checked_add_secs t d = (if t + d < 2 ^ 63 then Some (t + d) else None)"

definition as_system_time :: "timestamp \<Rightarrow> system_time result" where
  "as_system_time t =
    ok_or (unknown ''duration value can not represent system time'') (checked_add_secs 0 (unat t))"

definition from_system_time :: "system_time \<Rightarrow> timestamp result" where
  "from_system_time t = Ok (of_nat t)"

record multisig_transaction_storage =
  ms_account :: address
  ms_info :: multisig_info
  ms_creation :: system_time
  ms_disabled :: bool

datatype data_type = DataCounter | DataGauge

datatype data_value_gauge = GaugeInt "64 word" | GaugeFloat u64 | GaugeBigInt int

datatype data_value = Counter u64 | Gauge data_value_gauge

record data_info =
  di_type :: data_type
  di_shortname :: string

record credential_storage =
  cs_cred_id :: bytes
  cs_public_key :: bytes

record block_9400_tx =
  b94_tx_id :: bytes
  b94_response :: response_message

section \<open>The store and the codecs\<close>

text \<open>\<open>merk::Op\<close>.\<close>

datatype 'v merk_op = Put 'v | Delete

text \<open>The ranges of \<open>ReadOptions\<close>: all keys with a prefix, or a lower and an excluded upper bound.\<close>

datatype iter_range = PrefixRange bytes | BoundRange bytes bytes

datatype iter_mode = IterStart | IterEnd

fun in_iter_range :: "iter_range \<Rightarrow> bytes \<Rightarrow> bool" where
  "in_iter_range (PrefixRange p) k \<longleftrightarrow> take (length p) k = p"
| "in_iter_range (BoundRange l u) k \<longleftrightarrow> l \<le> k \<and> k < u"

declare in_iter_range.simps [simp del]

record ('a, 'v) codec =
  enc :: "'a \<Rightarrow> string + 'v"
  dec :: "'v \<Rightarrow> string + 'a"

text \<open>
  \<open>apply\<close> and \<open>commit\<close> take \<open>&mut self\<close>: they return the store they leave behind on every outcome.
  \<open>val_of_bytes\<close> and \<open>val_bytes\<close> are the raw bytes of a value.
\<close>

record ('m, 'v) ext = num_ext +
  merk_get :: "'m \<Rightarrow> bytes \<Rightarrow> string + 'v option"
  merk_apply :: "'m \<Rightarrow> (bytes \<times> 'v merk_op) list \<Rightarrow> (string + unit) \<times> 'm"
  merk_commit :: "'m \<Rightarrow> (string + unit) \<times> 'm"
  merk_iter :: "'m \<Rightarrow> iter_mode \<Rightarrow> iter_range \<Rightarrow> (string + bytes \<times> 'v) list"
  merk_root_hash :: "'m \<Rightarrow> bytes"
  val_of_bytes :: "bytes \<Rightarrow> 'v"
  val_bytes :: "'v \<Rightarrow> bytes"
  account_codec :: "(account, 'v) codec"
  token_info_codec :: "(token_info, 'v) codec"
  ext_info_codec :: "(token_extended_info, 'v) codec"
  symbols_codec :: "((symbol, string) btree_map, 'v) codec"
  event_codec :: "(event_log, 'v) codec"
  multisig_codec :: "(multisig_transaction_storage, 'v) codec"
  data_attributes_codec :: "((attribute_related_index \<times> data_value) list, 'v) codec"
  data_info_codec :: "((attribute_related_index \<times> data_info) list, 'v) codec"
  credential_codec :: "(credential_storage, 'v) codec"
  block_9400_codec :: "(block_9400_tx, 'v) codec"
  response_codec :: "(response_message, 'v) codec"
  metadata_codec :: "(kv_metadata, 'v) codec"
  event_id_codec :: "(event_id, 'v) codec"
  recall_phrase_cbor :: "string list \<Rightarrow> string + bytes"
  empty_return_cbor :: "string + bytes"
  create_return_cbor :: "address \<Rightarrow> string + bytes"
  submit_return_cbor :: "bytes \<Rightarrow> string + bytes"
  base64_decode :: "string \<Rightarrow> string + bytes"
  system_now :: timestamp

text \<open>
  What a batch does to the contents of the store.
\<close>

fun apply_op :: "(bytes \<Rightarrow> 'v option) \<Rightarrow> bytes \<times> 'v merk_op \<Rightarrow> bytes \<Rightarrow> 'v option" where
  "apply_op f (k, Put v) = f(k := Some v)"
| "apply_op f (k, Delete) = f(k := None)"

definition apply_ops :: "(bytes \<Rightarrow> 'v option) \<Rightarrow> (bytes \<times> 'v merk_op) list \<Rightarrow> bytes \<Rightarrow> 'v option" where
  "apply_ops f ops = foldl apply_op f ops"

text \<open>
  The documented behaviour of \<open>merk\<close>, with \<open>V\<close> the contents of a store and \<open>C\<close> its committed
  contents: \<open>get\<close> reads the contents with everything applied so far, \<open>apply\<close> refuses a batch whose
  keys are not strictly increasing, \<open>commit\<close> writes the contents to disk, and the iterators of the
  underlying database list what is on disk, in key order.
\<close>

definition merk_laws :: "('m, 'v) ext \<Rightarrow> ('m \<Rightarrow> bytes \<Rightarrow> 'v option) \<Rightarrow> ('m \<Rightarrow> bytes \<Rightarrow> 'v option) \<Rightarrow> bool" where
  "merk_laws E V C \<longleftrightarrow>
     num_laws E \<and>
     (\<forall>b. val_bytes E (val_of_bytes E b) = b) \<and>
     (\<forall>m k x. merk_get E m k = Inr x \<longrightarrow> x = V m k) \<and>
     (\<forall>m ops m'. merk_apply E m ops = (Inr (), m') \<longrightarrow>
        keys_sorted ops \<and> V m' = apply_ops (V m) ops \<and> C m' = C m) \<and>
     (\<forall>m m'. merk_commit E m = (Inr (), m') \<longrightarrow> V m' = V m \<and> C m' = V m) \<and>
     (\<forall>m o' r k v. Inr (k, v) \<in> set (merk_iter E m o' r) \<longrightarrow> in_iter_range r k \<and> C m k = Some v)"

text \<open>A store without I/O errors.\<close>

definition merk_reliable :: "('m, 'v) ext \<Rightarrow> ('m \<Rightarrow> bytes \<Rightarrow> 'v option) \<Rightarrow> ('m \<Rightarrow> bytes \<Rightarrow> 'v option) \<Rightarrow> bool" where
  "merk_reliable E V C \<longleftrightarrow>
     (\<forall>m k. merk_get E m k = Inr (V m k)) \<and>
     (\<forall>m ops. keys_sorted ops \<longrightarrow> (\<forall>k. (k, Delete) \<in> set ops \<longrightarrow> V m k \<noteq> None) \<longrightarrow>
        fst (merk_apply E m ops) = Inr ()) \<and>
     (\<forall>m. fst (merk_commit E m) = Inr ()) \<and>
     (\<forall>m r. \<exists>es. merk_iter E m IterStart r = map Inr es \<and> merk_iter E m IterEnd r = map Inr (rev es) \<and>
        keys_sorted es \<and> (\<forall>k. map_of es k = (if in_iter_range r k then C m k else None)))"

definition codec_ok :: "('a, 'v) codec \<Rightarrow> bool" where
  "codec_ok c \<longleftrightarrow> (\<forall>x v. enc c x = Inr v \<longrightarrow> dec c v = Inr x)"

definition codec_total :: "('a, 'v) codec \<Rightarrow> bool" where
  "codec_total c \<longleftrightarrow> (\<forall>x. \<exists>v. enc c x = Inr v)"

section \<open>Access to the store\<close>

text \<open>The store calls of the ledger, with the error each call site maps a failure to.\<close>

definition db_get :: "('m, 'v) ext \<Rightarrow> (string \<Rightarrow> many_error) \<Rightarrow> bytes \<Rightarrow> 'm \<Rightarrow> 'v option result" where
  "db_get E f k m = from_sum f (merk_get E m k)"

definition db_apply :: "('m, 'v) ext \<Rightarrow> (string \<Rightarrow> many_error) \<Rightarrow> (bytes \<times> 'v merk_op) list \<Rightarrow> ('m, unit) act" where
  "db_apply E f ops m = (case merk_apply E m ops of (r, m') \<Rightarrow> (from_sum f r, m'))"

definition db_commit :: "('m, 'v) ext \<Rightarrow> (string \<Rightarrow> many_error) \<Rightarrow> ('m, unit) act" where
  "db_commit E f m = (case merk_commit E m of (r, m') \<Rightarrow> (from_sum f r, m'))"

lemma db_get_Ok: "merk_laws E V C \<Longrightarrow> db_get E f k m = Ok x \<Longrightarrow> x = V m k"
  by (auto simp: db_get_def act_simps merk_laws_def)

lemma db_apply_Ok:
  assumes "merk_laws E V C" "db_apply E f ops m = (Ok u, m')"
  shows "keys_sorted ops \<and> V m' = apply_ops (V m) ops \<and> C m' = C m"
proof -
  have "merk_apply E m ops = (Inr (), m')"
    using assms(2) by (auto simp: db_apply_def act_simps split: prod.splits)
  with assms(1) show ?thesis
    unfolding merk_laws_def by blast
qed

lemma db_commit_Ok:
  assumes "merk_laws E V C" "db_commit E f m = (Ok u, m')"
  shows "V m' = V m \<and> C m' = V m"
proof -
  have "merk_commit E m = (Inr (), m')"
    using assms(2) by (auto simp: db_commit_def act_simps split: prod.splits)
  with assms(1) show ?thesis
    unfolding merk_laws_def by blast
qed

lemma db_get_reliable: "merk_reliable E V C \<Longrightarrow> db_get E f k m = Ok (V m k)"
  by (simp add: db_get_def merk_reliable_def)

lemma db_apply_reliable:
  assumes "merk_reliable E V C" "keys_sorted ops" "\<And>k. (k, Delete) \<in> set ops \<Longrightarrow> V m k \<noteq> None"
  obtains m' where "db_apply E f ops m = (Ok (), m')"
proof -
  have "fst (merk_apply E m ops) = Inr ()"
    using assms unfolding merk_reliable_def by blast
  then show thesis
    using that by (cases "merk_apply E m ops") (auto simp: db_apply_def)
qed

lemma db_commit_reliable:
  assumes "merk_reliable E V C"
  obtains m' where "db_commit E f m = (Ok (), m')"
proof -
  have "fst (merk_commit E m) = Inr ()"
    using assms unfolding merk_reliable_def by blast
  then show thesis
    using that by (cases "merk_commit E m") (auto simp: db_commit_def)
qed

lemma apply_ops_simps [simp]:
  "apply_ops f [] = f"
  "apply_ops f (op # ops) = apply_ops (apply_op f op) ops"
  by (simp_all add: apply_ops_def)

lemma apply_ops_other: "k \<notin> fst ` set ops \<Longrightarrow> apply_ops f ops k = f k"
proof (induction ops arbitrary: f)
  case (Cons e ops)
  then show ?case by (cases e; cases "snd e") auto
qed simp

text \<open>A batch with distinct keys, at one key.\<close>

lemma apply_ops_at:
  assumes "distinct (map fst ops)"
  shows "apply_ops f ops k =
    (case map_of ops k of None \<Rightarrow> f k | Some (Put v) \<Rightarrow> Some v | Some Delete \<Rightarrow> None)"
  using assms
proof (induction ops arbitrary: f)
  case (Cons e ops)
  obtain k' p where e: "e = (k', p)" by (cases e)
  have "map_of ops k' = None"
    using Cons.prems e by (simp add: map_of_eq_None_iff)
  with Cons e show ?case
    by (cases p) (auto split: option.splits)
qed simp

lemma merk_laws_num: "merk_laws E V C \<Longrightarrow> num_laws E"
  by (simp add: merk_laws_def)

lemma merk_laws_addr: "merk_laws E V C \<Longrightarrow> addr_laws E"
  by (simp add: merk_laws_def num_laws_def)

lemma merk_laws_val: "merk_laws E V C \<Longrightarrow> val_bytes E (val_of_bytes E b) = b"
  by (simp add: merk_laws_def)

lemma codec_okD: "codec_ok c \<Longrightarrow> enc c x = Inr v \<Longrightarrow> dec c v = Inr x"
  by (simp add: codec_ok_def)

lemma codec_ok_inj: "codec_ok c \<Longrightarrow> enc c x = Inr v \<Longrightarrow> enc c y = Inr v \<Longrightarrow> x = y"
  by (metis codec_ok_def sum.inject(2))

end
