(* ===== verification/Keys.thy ===== *)
theory Keys
  imports Address
begin

text \<open>
  The storage keys of the ledger, \<open>src/src/many-ledger/src/storage.rs\<close> and \<open>storage/*.rs\<close>. Keys of
  different families are different, and within a family a key determines what it was built from:
  writes of one component never touch the entries of another.
\<close>

section \<open>Keys\<close>

definition SYMBOLS_ROOT :: string where [key_defs]: "SYMBOLS_ROOT = ''/config/symbols''"
definition IDENTITY_ROOT :: string where [key_defs]: "IDENTITY_ROOT = ''/config/identity''"
definition HEIGHT_ROOT :: string where [key_defs]: "HEIGHT_ROOT = ''/height''"
definition ACCOUNT_IDENTITY_ROOT :: string where [key_defs]: "ACCOUNT_IDENTITY_ROOT = ''/config/account_identity''"
definition ACCOUNT_SUBRESOURCE_ID_ROOT :: string where [key_defs]: "ACCOUNT_SUBRESOURCE_ID_ROOT = ''/config/account_id''"
definition TOKEN_IDENTITY_ROOT :: string where [key_defs]: "TOKEN_IDENTITY_ROOT = ''/config/token_identity''"
definition SYMBOLS_ROOT_DASH :: string where [key_defs]: "SYMBOLS_ROOT_DASH = ''/config/symbols/''"
definition EVENTS_ROOT :: bytes where [key_defs]: "EVENTS_ROOT = utf8 ''/events/''"
definition EVENT_COUNT_ROOT :: bytes where [key_defs]: "EVENT_COUNT_ROOT = utf8 ''/events_count''"
definition MULTISIG_TRANSACTIONS_ROOT :: bytes where [key_defs]: "MULTISIG_TRANSACTIONS_ROOT = utf8 ''/multisig/''"
definition DATA_ATTRIBUTES_KEY :: bytes where [key_defs]: "DATA_ATTRIBUTES_KEY = utf8 ''/data/attributes''"
definition DATA_INFO_KEY :: bytes where [key_defs]: "DATA_INFO_KEY = utf8 ''/data/info''"
definition BALANCES_ROOT_BYTES :: bytes where [key_defs]: "BALANCES_ROOT_BYTES = utf8 ''/balances''"
definition IDSTORE_ROOT :: bytes where [key_defs]: "IDSTORE_ROOT = utf8 ''/idstore/''"
definition IDSTORE_SEED_ROOT :: bytes where [key_defs]: "IDSTORE_SEED_ROOT = utf8 ''/config/idstore_seed''"

definition key_for_account_balance :: "'x addr_ext_scheme \<Rightarrow> address \<Rightarrow> address \<Rightarrow> bytes" where [key_defs]:
  "key_for_account_balance E i symbol = utf8 (''/balances/'' @ to_string E i @ ''/'' @ to_string E symbol)"

definition key_for_subresource_counter :: "'x addr_ext_scheme \<Rightarrow> address \<Rightarrow> bool \<Rightarrow> bytes" where [key_defs]:
  "key_for_subresource_counter E i token_migration_active =
    (if token_migration_active then utf8 (''/config/subresource_counter/'' @ to_string E i)
     else utf8 ACCOUNT_SUBRESOURCE_ID_ROOT)"

definition key_for_account :: "'x addr_ext_scheme \<Rightarrow> address \<Rightarrow> bytes" where [key_defs]:
  "key_for_account E i = utf8 (''/accounts/'' @ to_string E i)"

definition key_for_symbol :: "'x addr_ext_scheme \<Rightarrow> address \<Rightarrow> string" where [key_defs]:
  "key_for_symbol E symbol = ''/config/symbols/'' @ to_string E symbol"

definition key_for_ext_info :: "'x addr_ext_scheme \<Rightarrow> address \<Rightarrow> bytes" where [key_defs]:
  "key_for_ext_info E symbol = utf8 (''/config/ext_info/'' @ to_string E symbol)"

definition EVENT_ID_KEY_SIZE_IN_BYTES :: nat where
  "EVENT_ID_KEY_SIZE_IN_BYTES = 32"

text \<open>Longer identifiers are cut, shorter ones are padded with zero bytes in front.\<close>

definition exp_id :: "bytes \<Rightarrow> bytes" where
  "exp_id i =
    (let t = (if length i > EVENT_ID_KEY_SIZE_IN_BYTES then take EVENT_ID_KEY_SIZE_IN_BYTES i else i) in
     replicate (EVENT_ID_KEY_SIZE_IN_BYTES - length t) 0 @ t)"

definition key_for_event :: "bytes \<Rightarrow> bytes" where [key_defs]:
  "key_for_event i = EVENTS_ROOT @ exp_id i"

definition key_for_multisig_transaction :: "bytes \<Rightarrow> bytes" where [key_defs]:
  "key_for_multisig_transaction token = MULTISIG_TRANSACTIONS_ROOT @ exp_id token"

datatype id_store_root_separator = SepRecallPhrase | SepAddress

primrec separator_value :: "id_store_root_separator \<Rightarrow> bytes" where
  "separator_value SepRecallPhrase = utf8 ''00''"
| "separator_value SepAddress = utf8 ''01''"

definition idstore_key :: "id_store_root_separator \<Rightarrow> bytes \<Rightarrow> bytes" where [key_defs]:
  "idstore_key sep k = IDSTORE_ROOT @ separator_value sep @ k"

section \<open>Separation\<close>

lemma keys_neq [simp]:
  "key_for_account_balance E a s \<noteq> key_for_event i"
  "key_for_account_balance E a s \<noteq> EVENT_COUNT_ROOT"
  "key_for_account_balance E a s \<noteq> utf8 HEIGHT_ROOT"
  "key_for_account_balance E a s \<noteq> utf8 SYMBOLS_ROOT"
  "key_for_account_balance E a s \<noteq> utf8 IDENTITY_ROOT"
  "key_for_account_balance E a s \<noteq> utf8 (key_for_symbol E s')"
  "key_for_account_balance E a s \<noteq> key_for_ext_info E s''"
  "key_for_account_balance E a s \<noteq> key_for_subresource_counter E c True"
  "key_for_account_balance E a s \<noteq> utf8 ACCOUNT_SUBRESOURCE_ID_ROOT"
  "key_for_account_balance E a s \<noteq> key_for_account E d"
  "key_for_account_balance E a s \<noteq> key_for_multisig_transaction t"
  "key_for_account_balance E a s \<noteq> DATA_ATTRIBUTES_KEY"
  "key_for_account_balance E a s \<noteq> DATA_INFO_KEY"
  "key_for_account_balance E a s \<noteq> utf8 TOKEN_IDENTITY_ROOT"
  "key_for_account_balance E a s \<noteq> utf8 ACCOUNT_IDENTITY_ROOT"
  "key_for_account_balance E a s \<noteq> idstore_key sep x"
  "key_for_account_balance E a s \<noteq> IDSTORE_SEED_ROOT"
  "key_for_event i \<noteq> EVENT_COUNT_ROOT"
  "key_for_event i \<noteq> utf8 HEIGHT_ROOT"
  "key_for_event i \<noteq> utf8 SYMBOLS_ROOT"
  "key_for_event i \<noteq> utf8 IDENTITY_ROOT"
  "key_for_event i \<noteq> utf8 (key_for_symbol E s')"
  "key_for_event i \<noteq> key_for_ext_info E s''"
  "key_for_event i \<noteq> key_for_subresource_counter E c True"
  "key_for_event i \<noteq> utf8 ACCOUNT_SUBRESOURCE_ID_ROOT"
  "key_for_event i \<noteq> key_for_account E d"
  "key_for_event i \<noteq> key_for_multisig_transaction t"
  "key_for_event i \<noteq> DATA_ATTRIBUTES_KEY"
  "key_for_event i \<noteq> DATA_INFO_KEY"
  "key_for_event i \<noteq> utf8 TOKEN_IDENTITY_ROOT"
  "key_for_event i \<noteq> utf8 ACCOUNT_IDENTITY_ROOT"
  "key_for_event i \<noteq> idstore_key sep x"
  "key_for_event i \<noteq> IDSTORE_SEED_ROOT"
  "EVENT_COUNT_ROOT \<noteq> utf8 HEIGHT_ROOT"
  "EVENT_COUNT_ROOT \<noteq> utf8 SYMBOLS_ROOT"
  "EVENT_COUNT_ROOT \<noteq> utf8 IDENTITY_ROOT"
  "EVENT_COUNT_ROOT \<noteq> utf8 (key_for_symbol E s')"
  "EVENT_COUNT_ROOT \<noteq> key_for_ext_info E s''"
  "EVENT_COUNT_ROOT \<noteq> key_for_subresource_counter E c True"
  "EVENT_COUNT_ROOT \<noteq> utf8 ACCOUNT_SUBRESOURCE_ID_ROOT"
  "EVENT_COUNT_ROOT \<noteq> key_for_account E d"
  "EVENT_COUNT_ROOT \<noteq> key_for_multisig_transaction t"
  "EVENT_COUNT_ROOT \<noteq> DATA_ATTRIBUTES_KEY"
  "EVENT_COUNT_ROOT \<noteq> DATA_INFO_KEY"
  "EVENT_COUNT_ROOT \<noteq> utf8 TOKEN_IDENTITY_ROOT"
  "EVENT_COUNT_ROOT \<noteq> utf8 ACCOUNT_IDENTITY_ROOT"
  "EVENT_COUNT_ROOT \<noteq> idstore_key sep x"
  "EVENT_COUNT_ROOT \<noteq> IDSTORE_SEED_ROOT"
  "utf8 HEIGHT_ROOT \<noteq> utf8 SYMBOLS_ROOT"
  "utf8 HEIGHT_ROOT \<noteq> utf8 IDENTITY_ROOT"
  "utf8 HEIGHT_ROOT \<noteq> utf8 (key_for_symbol E s')"
  "utf8 HEIGHT_ROOT \<noteq> key_for_ext_info E s''"
  "utf8 HEIGHT_ROOT \<noteq> key_for_subresource_counter E c True"
  "utf8 HEIGHT_ROOT \<noteq> utf8 ACCOUNT_SUBRESOURCE_ID_ROOT"
  "utf8 HEIGHT_ROOT \<noteq> key_for_account E d"
  "utf8 HEIGHT_ROOT \<noteq> key_for_multisig_transaction t"
  "utf8 HEIGHT_ROOT \<noteq> DATA_ATTRIBUTES_KEY"
  "utf8 HEIGHT_ROOT \<noteq> DATA_INFO_KEY"
  "utf8 HEIGHT_ROOT \<noteq> utf8 TOKEN_IDENTITY_ROOT"
  "utf8 HEIGHT_ROOT \<noteq> utf8 ACCOUNT_IDENTITY_ROOT"
  "utf8 HEIGHT_ROOT \<noteq> idstore_key sep x"
  "utf8 HEIGHT_ROOT \<noteq> IDSTORE_SEED_ROOT"
  "utf8 SYMBOLS_ROOT \<noteq> utf8 IDENTITY_ROOT"
  "utf8 SYMBOLS_ROOT \<noteq> utf8 (key_for_symbol E s')"
  "utf8 SYMBOLS_ROOT \<noteq> key_for_ext_info E s''"
  "utf8 SYMBOLS_ROOT \<noteq> key_for_subresource_counter E c True"
  "utf8 SYMBOLS_ROOT \<noteq> utf8 ACCOUNT_SUBRESOURCE_ID_ROOT"
  "utf8 SYMBOLS_ROOT \<noteq> key_for_account E d"
  "utf8 SYMBOLS_ROOT \<noteq> key_for_multisig_transaction t"
  "utf8 SYMBOLS_ROOT \<noteq> DATA_ATTRIBUTES_KEY"
  "utf8 SYMBOLS_ROOT \<noteq> DATA_INFO_KEY"
  "utf8 SYMBOLS_ROOT \<noteq> utf8 TOKEN_IDENTITY_ROOT"
  "utf8 SYMBOLS_ROOT \<noteq> utf8 ACCOUNT_IDENTITY_ROOT"
  "utf8 SYMBOLS_ROOT \<noteq> idstore_key sep x"
  "utf8 SYMBOLS_ROOT \<noteq> IDSTORE_SEED_ROOT"
  "utf8 IDENTITY_ROOT \<noteq> utf8 (key_for_symbol E s')"
  "utf8 IDENTITY_ROOT \<noteq> key_for_ext_info E s''"
  "utf8 IDENTITY_ROOT \<noteq> key_for_subresource_counter E c True"
  "utf8 IDENTITY_ROOT \<noteq> utf8 ACCOUNT_SUBRESOURCE_ID_ROOT"
  "utf8 IDENTITY_ROOT \<noteq> key_for_account E d"
  "utf8 IDENTITY_ROOT \<noteq> key_for_multisig_transaction t"
  "utf8 IDENTITY_ROOT \<noteq> DATA_ATTRIBUTES_KEY"
  "utf8 IDENTITY_ROOT \<noteq> DATA_INFO_KEY"
  "utf8 IDENTITY_ROOT \<noteq> utf8 TOKEN_IDENTITY_ROOT"
  "utf8 IDENTITY_ROOT \<noteq> utf8 ACCOUNT_IDENTITY_ROOT"
  "utf8 IDENTITY_ROOT \<noteq> idstore_key sep x"
  "utf8 IDENTITY_ROOT \<noteq> IDSTORE_SEED_ROOT"
  "utf8 (key_for_symbol E s') \<noteq> key_for_ext_info E s''"
  "utf8 (key_for_symbol E s') \<noteq> key_for_subresource_counter E c True"
  "utf8 (key_for_symbol E s') \<noteq> utf8 ACCOUNT_SUBRESOURCE_ID_ROOT"
  "utf8 (key_for_symbol E s') \<noteq> key_for_account E d"
  "utf8 (key_for_symbol E s') \<noteq> key_for_multisig_transaction t"
  "utf8 (key_for_symbol E s') \<noteq> DATA_ATTRIBUTES_KEY"
  "utf8 (key_for_symbol E s') \<noteq> DATA_INFO_KEY"
  "utf8 (key_for_symbol E s') \<noteq> utf8 TOKEN_IDENTITY_ROOT"
  "utf8 (key_for_symbol E s') \<noteq> utf8 ACCOUNT_IDENTITY_ROOT"
  "utf8 (key_for_symbol E s') \<noteq> idstore_key sep x"
  "utf8 (key_for_symbol E s') \<noteq> IDSTORE_SEED_ROOT"
  "key_for_ext_info E s'' \<noteq> key_for_subresource_counter E c True"
  "key_for_ext_info E s'' \<noteq> utf8 ACCOUNT_SUBRESOURCE_ID_ROOT"
  "key_for_ext_info E s'' \<noteq> key_for_account E d"
  "key_for_ext_info E s'' \<noteq> key_for_multisig_transaction t"
  "key_for_ext_info E s'' \<noteq> DATA_ATTRIBUTES_KEY"
  "key_for_ext_info E s'' \<noteq> DATA_INFO_KEY"
  "key_for_ext_info E s'' \<noteq> utf8 TOKEN_IDENTITY_ROOT"
  "key_for_ext_info E s'' \<noteq> utf8 ACCOUNT_IDENTITY_ROOT"
  "key_for_ext_info E s'' \<noteq> idstore_key sep x"
  "key_for_ext_info E s'' \<noteq> IDSTORE_SEED_ROOT"
  "key_for_subresource_counter E c True \<noteq> utf8 ACCOUNT_SUBRESOURCE_ID_ROOT"
  "key_for_subresource_counter E c True \<noteq> key_for_account E d"
  "key_for_subresource_counter E c True \<noteq> key_for_multisig_transaction t"
  "key_for_subresource_counter E c True \<noteq> DATA_ATTRIBUTES_KEY"
  "key_for_subresource_counter E c True \<noteq> DATA_INFO_KEY"
  "key_for_subresource_counter E c True \<noteq> utf8 TOKEN_IDENTITY_ROOT"
  "key_for_subresource_counter E c True \<noteq> utf8 ACCOUNT_IDENTITY_ROOT"
  "key_for_subresource_counter E c True \<noteq> idstore_key sep x"
  "key_for_subresource_counter E c True \<noteq> IDSTORE_SEED_ROOT"
  "utf8 ACCOUNT_SUBRESOURCE_ID_ROOT \<noteq> key_for_account E d"
  "utf8 ACCOUNT_SUBRESOURCE_ID_ROOT \<noteq> key_for_multisig_transaction t"
  "utf8 ACCOUNT_SUBRESOURCE_ID_ROOT \<noteq> DATA_ATTRIBUTES_KEY"
  "utf8 ACCOUNT_SUBRESOURCE_ID_ROOT \<noteq> DATA_INFO_KEY"
  "utf8 ACCOUNT_SUBRESOURCE_ID_ROOT \<noteq> utf8 TOKEN_IDENTITY_ROOT"
  "utf8 ACCOUNT_SUBRESOURCE_ID_ROOT \<noteq> utf8 ACCOUNT_IDENTITY_ROOT"
  "utf8 ACCOUNT_SUBRESOURCE_ID_ROOT \<noteq> idstore_key sep x"
  "utf8 ACCOUNT_SUBRESOURCE_ID_ROOT \<noteq> IDSTORE_SEED_ROOT"
  "key_for_account E d \<noteq> key_for_multisig_transaction t"
  "key_for_account E d \<noteq> DATA_ATTRIBUTES_KEY"
  "key_for_account E d \<noteq> DATA_INFO_KEY"
  "key_for_account E d \<noteq> utf8 TOKEN_IDENTITY_ROOT"
  "key_for_account E d \<noteq> utf8 ACCOUNT_IDENTITY_ROOT"
  "key_for_account E d \<noteq> idstore_key sep x"
  "key_for_account E d \<noteq> IDSTORE_SEED_ROOT"
  "key_for_multisig_transaction t \<noteq> DATA_ATTRIBUTES_KEY"
  "key_for_multisig_transaction t \<noteq> DATA_INFO_KEY"
  "key_for_multisig_transaction t \<noteq> utf8 TOKEN_IDENTITY_ROOT"
  "key_for_multisig_transaction t \<noteq> utf8 ACCOUNT_IDENTITY_ROOT"
  "key_for_multisig_transaction t \<noteq> idstore_key sep x"
  "key_for_multisig_transaction t \<noteq> IDSTORE_SEED_ROOT"
  "DATA_ATTRIBUTES_KEY \<noteq> DATA_INFO_KEY"
  "DATA_ATTRIBUTES_KEY \<noteq> utf8 TOKEN_IDENTITY_ROOT"
  "DATA_ATTRIBUTES_KEY \<noteq> utf8 ACCOUNT_IDENTITY_ROOT"
  "DATA_ATTRIBUTES_KEY \<noteq> idstore_key sep x"
  "DATA_ATTRIBUTES_KEY \<noteq> IDSTORE_SEED_ROOT"
  "DATA_INFO_KEY \<noteq> utf8 TOKEN_IDENTITY_ROOT"
  "DATA_INFO_KEY \<noteq> utf8 ACCOUNT_IDENTITY_ROOT"
  "DATA_INFO_KEY \<noteq> idstore_key sep x"
  "DATA_INFO_KEY \<noteq> IDSTORE_SEED_ROOT"
  "utf8 TOKEN_IDENTITY_ROOT \<noteq> utf8 ACCOUNT_IDENTITY_ROOT"
  "utf8 TOKEN_IDENTITY_ROOT \<noteq> idstore_key sep x"
  "utf8 TOKEN_IDENTITY_ROOT \<noteq> IDSTORE_SEED_ROOT"
  "utf8 ACCOUNT_IDENTITY_ROOT \<noteq> idstore_key sep x"
  "utf8 ACCOUNT_IDENTITY_ROOT \<noteq> IDSTORE_SEED_ROOT"
  "idstore_key sep x \<noteq> IDSTORE_SEED_ROOT"
  by (simp_all add: key_defs utf8_Cons)

lemmas keys_neq_sym [simp] = keys_neq [symmetric]

lemma roots_neq [simp]:
  "HEIGHT_ROOT \<noteq> SYMBOLS_ROOT"
  "HEIGHT_ROOT \<noteq> IDENTITY_ROOT"
  "HEIGHT_ROOT \<noteq> key_for_symbol E s"
  "HEIGHT_ROOT \<noteq> ACCOUNT_SUBRESOURCE_ID_ROOT"
  "HEIGHT_ROOT \<noteq> TOKEN_IDENTITY_ROOT"
  "HEIGHT_ROOT \<noteq> ACCOUNT_IDENTITY_ROOT"
  "SYMBOLS_ROOT \<noteq> IDENTITY_ROOT"
  "SYMBOLS_ROOT \<noteq> key_for_symbol E s"
  "SYMBOLS_ROOT \<noteq> ACCOUNT_SUBRESOURCE_ID_ROOT"
  "SYMBOLS_ROOT \<noteq> TOKEN_IDENTITY_ROOT"
  "SYMBOLS_ROOT \<noteq> ACCOUNT_IDENTITY_ROOT"
  "IDENTITY_ROOT \<noteq> key_for_symbol E s"
  "IDENTITY_ROOT \<noteq> ACCOUNT_SUBRESOURCE_ID_ROOT"
  "IDENTITY_ROOT \<noteq> TOKEN_IDENTITY_ROOT"
  "IDENTITY_ROOT \<noteq> ACCOUNT_IDENTITY_ROOT"
  "key_for_symbol E s \<noteq> ACCOUNT_SUBRESOURCE_ID_ROOT"
  "key_for_symbol E s \<noteq> TOKEN_IDENTITY_ROOT"
  "key_for_symbol E s \<noteq> ACCOUNT_IDENTITY_ROOT"
  "ACCOUNT_SUBRESOURCE_ID_ROOT \<noteq> TOKEN_IDENTITY_ROOT"
  "ACCOUNT_SUBRESOURCE_ID_ROOT \<noteq> ACCOUNT_IDENTITY_ROOT"
  "TOKEN_IDENTITY_ROOT \<noteq> ACCOUNT_IDENTITY_ROOT"
  by (simp_all add: key_defs)

lemmas roots_neq_sym [simp] = roots_neq [symmetric]

lemma key_for_subresource_counter_False [simp]:
  "key_for_subresource_counter E i False = utf8 ACCOUNT_SUBRESOURCE_ID_ROOT"
  by (simp add: key_for_subresource_counter_def)

lemma separator_value_inject:
  "separator_value sep @ x = separator_value sep' @ y \<longleftrightarrow> sep = sep' \<and> x = y"
  by (cases sep; cases sep') (simp_all add: utf8_Cons)

lemma idstore_key_inject [simp]: "idstore_key sep x = idstore_key sep' y \<longleftrightarrow> sep = sep' \<and> x = y"
  by (simp add: idstore_key_def separator_value_inject)

text \<open>No address contains the separator of balance keys.\<close>

lemma slash_split:
  assumes "CHR ''/'' \<notin> set a" "CHR ''/'' \<notin> set b"
  shows "a @ CHR ''/'' # s = b @ CHR ''/'' # t \<longleftrightarrow> a = b \<and> s = t"
  using assms
proof (induction a arbitrary: b)
  case Nil
  then show ?case by (cases b) auto
next
  case (Cons x a)
  then show ?case by (cases b) auto
qed

lemma key_for_account_balance_inject:
  assumes "addr_laws E"
  shows "key_for_account_balance E a s = key_for_account_balance E b t \<longleftrightarrow> a = b \<and> s = t"
proof -
  have "key_for_account_balance E a s = key_for_account_balance E b t \<longleftrightarrow>
    to_string E a @ CHR ''/'' # to_string E s = to_string E b @ CHR ''/'' # to_string E t"
    by (simp add: key_for_account_balance_def del: utf8_append)
  then show ?thesis
    by (simp add: slash_split to_string_no_slash to_string_inject assms)
qed

lemma address_key_inject:
  assumes "addr_laws E"
  shows "key_for_account E a = key_for_account E b \<longleftrightarrow> a = b"
    and "key_for_symbol E a = key_for_symbol E b \<longleftrightarrow> a = b"
    and "key_for_ext_info E a = key_for_ext_info E b \<longleftrightarrow> a = b"
    and "key_for_subresource_counter E a True = key_for_subresource_counter E b True \<longleftrightarrow> a = b"
  by (simp_all add: key_for_account_def key_for_symbol_def key_for_ext_info_def
      key_for_subresource_counter_def to_string_inject assms del: utf8_append)

section \<open>Event and multisig identifiers\<close>

lemma length_exp_id [simp]: "length (exp_id i) = 32"
  by (simp add: exp_id_def EVENT_ID_KEY_SIZE_IN_BYTES_def Let_def)

lemma nat_be_zeros [simp]: "nat_be (replicate n 0 @ bs) = nat_be bs"
  by (induction n) (simp_all add: nat_be_Cons)

lemma nat_be_exp_id: "length i \<le> 32 \<Longrightarrow> nat_be (exp_id i) = nat_be i"
  by (simp add: exp_id_def EVENT_ID_KEY_SIZE_IN_BYTES_def)

lemma exp_id_eq_iff:
  assumes "length i \<le> 32" "length j \<le> 32"
  shows "exp_id i = exp_id j \<longleftrightarrow> nat_be i = nat_be j"
  using assms by (metis length_exp_id nat_be_exp_id nat_be_inject)

lemma exp_id_less_iff:
  assumes "length i \<le> 32" "length j \<le> 32"
  shows "exp_id i < exp_id j \<longleftrightarrow> nat_be i < nat_be j"
  using assms by (simp add: be_less_iff nat_be_exp_id)

lemma key_for_event_eq_iff:
  assumes "length i \<le> 32" "length j \<le> 32"
  shows "key_for_event i = key_for_event j \<longleftrightarrow> nat_be i = nat_be j"
  using assms by (simp add: key_for_event_def exp_id_eq_iff)

lemma append_less_same [simp]: "p @ x < p @ y \<longleftrightarrow> x < y" for x y :: "'a::order list"
  by (induction p) simp_all

lemma key_for_event_less_iff:
  assumes "length i \<le> 32" "length j \<le> 32"
  shows "key_for_event i < key_for_event j \<longleftrightarrow> nat_be i < nat_be j"
  using assms by (simp add: key_for_event_def exp_id_less_iff)

lemma key_for_multisig_eq_iff:
  assumes "length i \<le> 32" "length j \<le> 32"
  shows "key_for_multisig_transaction i = key_for_multisig_transaction j \<longleftrightarrow> nat_be i = nat_be j"
  using assms by (simp add: key_for_multisig_transaction_def exp_id_eq_iff)

section \<open>Order of keys in batches\<close>

lemma of_char_u8_less: "(of_char c :: u8) < of_char d \<longleftrightarrow> (of_char c :: nat) < of_char d"
  by (simp add: word_less_nat_alt)

text \<open>The batches the ledger writes list their keys in increasing order.\<close>

lemma batch_orders [simp]:
  "key_for_event i < EVENT_COUNT_ROOT"
  "DATA_ATTRIBUTES_KEY < DATA_INFO_KEY"
  "utf8 ACCOUNT_SUBRESOURCE_ID_ROOT < utf8 ACCOUNT_IDENTITY_ROOT"
  "utf8 ACCOUNT_SUBRESOURCE_ID_ROOT < key_for_subresource_counter E a True"
  "utf8 ACCOUNT_IDENTITY_ROOT < key_for_subresource_counter E a True"
  "key_for_ext_info E a < key_for_subresource_counter E b True"
  "key_for_ext_info E a < utf8 (key_for_symbol E b)"
  "key_for_ext_info E a < utf8 TOKEN_IDENTITY_ROOT"
  "key_for_subresource_counter E a True < utf8 (key_for_symbol E b)"
  "key_for_subresource_counter E a c < utf8 TOKEN_IDENTITY_ROOT"
  "utf8 (key_for_symbol E b) < utf8 TOKEN_IDENTITY_ROOT"
  "key_for_account_balance E a s < utf8 (key_for_symbol E b)"
  "idstore_key SepRecallPhrase x < idstore_key SepAddress y"
  by (simp_all add: key_defs utf8_Cons of_char_u8_less)

end
