(* ===== verification/Mem_Store.thy ===== *)
theory Mem_Store
  imports Store Keys
begin

text \<open>
  A store in memory that satisfies the laws of \<open>merk\<close> and of the codecs: association lists for the
  committed and the current contents, with values kept as the records they encode. It shows that the
  laws can hold together, and it is what the concrete instances of the ledger properties run on.
\<close>

section \<open>Values\<close>

datatype stored =
    SBytes bytes
  | SAccount account
  | STokenInfo token_info
  | SExtInfo token_extended_info
  | SSymbols "(symbol, string) btree_map"
  | SEvent event_log
  | SMultisig multisig_transaction_storage
  | SDataAttributes "(attribute_related_index \<times> data_value) list"
  | SDataInfo "(attribute_related_index \<times> data_info) list"
  | SCredential credential_storage
  | SBlock9400 block_9400_tx
  | SResponse response_message
  | SMetadata kv_metadata

type_synonym mem = "(bytes \<times> stored) list \<times> (bytes \<times> stored) list"

fun stored_bytes :: "stored \<Rightarrow> bytes" where
  "stored_bytes (SBytes b) = b"
| "stored_bytes _ = []"

definition decoded :: "'a option \<Rightarrow> string + 'a" where
  "decoded x = (case x of Some y \<Rightarrow> Inr y | None \<Rightarrow> Inl ''unexpected type'')"

section \<open>Numbers\<close>

fun nat_bytes :: "nat \<Rightarrow> bytes" where
  "nat_bytes n = (if n < 256 then [of_nat n] else nat_bytes (n div 256) @ [of_nat (n mod 256)])"

declare nat_bytes.simps [simp del]

lemma nat_be_nat_bytes: "nat_be (nat_bytes n) = n"
proof (induction n rule: nat_bytes.induct)
  case (1 n)
  have u: "unat (of_nat (m :: nat) :: u8) = m mod 256" for m
    by (simp add: unsigned_of_nat take_bit_eq_mod)
  show ?case
    using 1 by (subst nat_bytes.simps) (auto simp: u nat_be_Cons)
qed

lemma length_nat_bytes: "n < 256 ^ k \<Longrightarrow> 0 < k \<Longrightarrow> length (nat_bytes n) \<le> k"
proof (induction n arbitrary: k rule: nat_bytes.induct)
  case (1 n)
  show ?case
  proof (cases "n < 256")
    case True
    then show ?thesis
      using 1(3) by (subst nat_bytes.simps) simp
  next
    case False
    obtain j where k: "k = Suc j" "0 < j"
      using False 1(2,3) by (cases k; cases "k - 1") auto
    have "n div 256 < 256 ^ j"
      using 1(2) k by (simp add: less_mult_imp_div_less mult.commute)
    with False 1(1) [OF False _ k(2)] k show ?thesis
      by (subst nat_bytes.simps) simp
  qed
qed

section \<open>Words\<close>

fun words_bytes :: "string list \<Rightarrow> bytes" where
  "words_bytes [] = []"
| "words_bytes ([] # ws) = 0 # words_bytes ws"
| "words_bytes ((c # w) # ws) = 1 # of_char c # words_bytes (w # ws)"

lemma words_bytes_inject: "words_bytes ws = words_bytes vs \<Longrightarrow> ws = vs"
proof (induction ws arbitrary: vs rule: words_bytes.induct)
  case 1
  then show ?case by (cases vs rule: words_bytes.cases) simp_all
next
  case (2 ws)
  then show ?case by (cases vs rule: words_bytes.cases) simp_all
next
  case (3 c w ws)
  have "c = d" if "(of_char c :: u8) = of_char d" for d
    using that utf8_inject [of "[c]" "[d]"] by (simp add: utf8_Cons)
  with 3 show ?case by (cases vs rule: words_bytes.cases) auto
qed

section \<open>The store\<close>

fun mem_step :: "(bytes \<times> stored) list \<Rightarrow> bytes \<times> stored merk_op \<Rightarrow> (bytes \<times> stored) list" where
  "mem_step m (k, Put v) = bt_insert k v m"
| "mem_step m (k, Delete) = bt_remove k m"

definition mem_apply :: "mem \<Rightarrow> (bytes \<times> stored merk_op) list \<Rightarrow> (string + unit) \<times> mem" where
  "mem_apply s ops =
    (if keys_sorted ops \<and> (\<forall>e\<in>set ops. snd e = Delete \<longrightarrow> map_of (snd s) (fst e) \<noteq> None)
     then (Inr (), (fst s, foldl mem_step (snd s) ops))
     else (Inl ''invalid batch'', s))"

definition bt_of :: "(bytes \<times> stored) list \<Rightarrow> (bytes \<times> stored) list" where
  "bt_of c = foldr (\<lambda>e m. bt_insert (fst e) (snd e) m) c []"

definition mem_iter :: "mem \<Rightarrow> iter_mode \<Rightarrow> iter_range \<Rightarrow> (string + bytes \<times> stored) list" where
  "mem_iter s mode r =
    (let es = filter (\<lambda>e. in_iter_range r (fst e)) (bt_of (fst s)) in
     map Inr (case mode of IterStart \<Rightarrow> es | IterEnd \<Rightarrow> rev es))"

definition mem_ext :: "(mem, stored) ext" where
  "mem_ext = \<lparr>base32_encode = base32_encode nibble_ext, base32_decode = base32_decode nibble_ext,
     crc16 = crc16 nibble_ext,
     bu_from_bytes_be = nat_be, bu_to_bytes_be = nat_bytes,
     merk_get = (\<lambda>s k. Inr (map_of (snd s) k)),
     merk_apply = mem_apply,
     merk_commit = (\<lambda>s. (Inr (), (snd s, snd s))),
     merk_iter = mem_iter,
     merk_root_hash = (\<lambda>s. []),
     val_of_bytes = SBytes, val_bytes = stored_bytes,
     account_codec = \<lparr>enc = Inr \<circ> SAccount, dec = (\<lambda>v. decoded (case v of SAccount x \<Rightarrow> Some x | _ \<Rightarrow> None))\<rparr>,
     token_info_codec = \<lparr>enc = Inr \<circ> STokenInfo, dec = (\<lambda>v. decoded (case v of STokenInfo x \<Rightarrow> Some x | _ \<Rightarrow> None))\<rparr>,
     ext_info_codec = \<lparr>enc = Inr \<circ> SExtInfo, dec = (\<lambda>v. decoded (case v of SExtInfo x \<Rightarrow> Some x | _ \<Rightarrow> None))\<rparr>,
     symbols_codec = \<lparr>enc = Inr \<circ> SSymbols, dec = (\<lambda>v. decoded (case v of SSymbols x \<Rightarrow> Some x | _ \<Rightarrow> None))\<rparr>,
     event_codec = \<lparr>enc = Inr \<circ> SEvent, dec = (\<lambda>v. decoded (case v of SEvent x \<Rightarrow> Some x | _ \<Rightarrow> None))\<rparr>,
     multisig_codec = \<lparr>enc = Inr \<circ> SMultisig, dec = (\<lambda>v. decoded (case v of SMultisig x \<Rightarrow> Some x | _ \<Rightarrow> None))\<rparr>,
     data_attributes_codec = \<lparr>enc = Inr \<circ> SDataAttributes, dec = (\<lambda>v. decoded (case v of SDataAttributes x \<Rightarrow> Some x | _ \<Rightarrow> None))\<rparr>,
     data_info_codec = \<lparr>enc = Inr \<circ> SDataInfo, dec = (\<lambda>v. decoded (case v of SDataInfo x \<Rightarrow> Some x | _ \<Rightarrow> None))\<rparr>,
     credential_codec = \<lparr>enc = Inr \<circ> SCredential, dec = (\<lambda>v. decoded (case v of SCredential x \<Rightarrow> Some x | _ \<Rightarrow> None))\<rparr>,
     block_9400_codec = \<lparr>enc = Inr \<circ> SBlock9400, dec = (\<lambda>v. decoded (case v of SBlock9400 x \<Rightarrow> Some x | _ \<Rightarrow> None))\<rparr>,
     response_codec = \<lparr>enc = Inr \<circ> SResponse, dec = (\<lambda>v. decoded (case v of SResponse x \<Rightarrow> Some x | _ \<Rightarrow> None))\<rparr>,
     metadata_codec = \<lparr>enc = Inr \<circ> SMetadata, dec = (\<lambda>v. decoded (case v of SMetadata x \<Rightarrow> Some x | _ \<Rightarrow> None))\<rparr>,
     event_id_codec = \<lparr>enc = Inr \<circ> SBytes, dec = (\<lambda>v. decoded (case v of SBytes x \<Rightarrow> Some x | _ \<Rightarrow> None))\<rparr>,
     recall_phrase_cbor = (\<lambda>ws. Inr (0x80 # words_bytes ws)),
     empty_return_cbor = Inr [0xA0],
     create_return_cbor = (\<lambda>a. Inr (to_vec a)),
     submit_return_cbor = (\<lambda>t. Inr t),
     base64_decode = (\<lambda>s. Inr (utf8 s)),
     system_now = 0\<rparr>"

abbreviation mem_view :: "mem \<Rightarrow> bytes \<Rightarrow> stored option" where
  "mem_view s \<equiv> map_of (snd s)"

abbreviation mem_committed :: "mem \<Rightarrow> bytes \<Rightarrow> stored option" where
  "mem_committed s \<equiv> map_of (fst s)"

lemma map_of_mem_steps: "map_of (foldl mem_step m ops) = apply_ops (map_of m) ops"
proof (induction ops arbitrary: m)
  case (Cons e ops)
  have "map_of (mem_step m e) = apply_op (map_of m) e"
    by (cases e; cases "snd e")
      (auto simp: map_of_bt_insert bt_remove_def map_of_filter_keys fun_eq_iff)
  with Cons show ?case by simp
qed simp

lemma bt_of_facts: "bt_wf (bt_of c) \<and> map_of (bt_of c) = map_of c"
  unfolding bt_of_def by (induction c) (auto simp: map_of_bt_insert fun_eq_iff bt_wf_insert)

lemma map_of_filter_key: "map_of (filter (\<lambda>e. P (fst e)) m) k = (if P k then map_of m k else None)"
  by (induction m) auto

lemma mem_ext_simps [simp]:
  "base32_encode mem_ext = nibble_encode" "base32_decode mem_ext = nibble_decode"
  "crc16 mem_ext = (\<lambda>d. of_nat (length d))"
  "bu_from_bytes_be mem_ext = nat_be" "bu_to_bytes_be mem_ext = nat_bytes"
  "merk_get mem_ext = (\<lambda>s k. Inr (map_of (snd s) k))" "merk_apply mem_ext = mem_apply"
  "merk_commit mem_ext = (\<lambda>s. (Inr (), (snd s, snd s)))" "merk_iter mem_ext = mem_iter"
  "merk_root_hash mem_ext = (\<lambda>s. [])" "val_of_bytes mem_ext = SBytes" "val_bytes mem_ext = stored_bytes"
  "enc (account_codec mem_ext) x1 = Inr (SAccount x1)" "dec (account_codec mem_ext) (SAccount x1) = Inr x1"
  "enc (token_info_codec mem_ext) x2 = Inr (STokenInfo x2)" "dec (token_info_codec mem_ext) (STokenInfo x2) = Inr x2"
  "enc (ext_info_codec mem_ext) x3 = Inr (SExtInfo x3)" "dec (ext_info_codec mem_ext) (SExtInfo x3) = Inr x3"
  "enc (symbols_codec mem_ext) x4 = Inr (SSymbols x4)" "dec (symbols_codec mem_ext) (SSymbols x4) = Inr x4"
  "enc (event_codec mem_ext) x5 = Inr (SEvent x5)" "dec (event_codec mem_ext) (SEvent x5) = Inr x5"
  "enc (multisig_codec mem_ext) x6 = Inr (SMultisig x6)" "dec (multisig_codec mem_ext) (SMultisig x6) = Inr x6"
  "enc (data_attributes_codec mem_ext) x7 = Inr (SDataAttributes x7)"
  "dec (data_attributes_codec mem_ext) (SDataAttributes x7) = Inr x7"
  "enc (data_info_codec mem_ext) x8 = Inr (SDataInfo x8)" "dec (data_info_codec mem_ext) (SDataInfo x8) = Inr x8"
  "enc (credential_codec mem_ext) x9 = Inr (SCredential x9)" "dec (credential_codec mem_ext) (SCredential x9) = Inr x9"
  "enc (block_9400_codec mem_ext) x10 = Inr (SBlock9400 x10)" "dec (block_9400_codec mem_ext) (SBlock9400 x10) = Inr x10"
  "enc (response_codec mem_ext) x11 = Inr (SResponse x11)" "dec (response_codec mem_ext) (SResponse x11) = Inr x11"
  "enc (metadata_codec mem_ext) x12 = Inr (SMetadata x12)" "dec (metadata_codec mem_ext) (SMetadata x12) = Inr x12"
  "enc (event_id_codec mem_ext) x13 = Inr (SBytes x13)" "dec (event_id_codec mem_ext) (SBytes x13) = Inr x13"
  "recall_phrase_cbor mem_ext = (\<lambda>ws. Inr (0x80 # words_bytes ws))"
  "empty_return_cbor mem_ext = Inr [0xA0]" "create_return_cbor mem_ext = (\<lambda>a. Inr (to_vec a))"
  "submit_return_cbor mem_ext = (\<lambda>t. Inr t)" "system_now mem_ext = 0"
  by (simp_all add: mem_ext_def nibble_ext_def decoded_def)

lemma mem_num_laws: "num_laws mem_ext"
  using nibble_laws_gen [of mem_ext]
  by (simp add: num_laws_def nat_be_nat_bytes length_nat_bytes)

lemma mem_laws: "merk_laws mem_ext mem_view mem_committed"
proof -
  have iter: "Inr (k, v) \<in> set (mem_iter m o' r) \<Longrightarrow> in_iter_range r k \<and> mem_committed m k = Some v" for m o' r k v
    using bt_of_facts [of "fst m"] keys_sorted_distinct [of "bt_of (fst m)"]
    by (auto simp: mem_iter_def Let_def split: iter_mode.splits) (metis map_of_is_SomeI)+
  have app: "mem_apply m ops = (Inr (), m') \<Longrightarrow>
      keys_sorted ops \<and> mem_view m' = apply_ops (mem_view m) ops \<and> mem_committed m' = mem_committed m" for m ops m'
    by (auto simp: mem_apply_def map_of_mem_steps split: if_splits)
  show ?thesis
    unfolding merk_laws_def using iter app mem_num_laws by simp
qed

lemma mem_reliable: "merk_reliable mem_ext mem_view mem_committed"
proof -
  have iter: "\<exists>es. mem_iter m IterStart r = map Inr es \<and> mem_iter m IterEnd r = map Inr (rev es) \<and>
      keys_sorted es \<and> (\<forall>k. map_of es k = (if in_iter_range r k then mem_committed m k else None))" for m r
    using bt_of_facts [of "fst m"]
    by (intro exI [of _ "filter (\<lambda>e. in_iter_range r (fst e)) (bt_of (fst m))"])
      (auto simp: mem_iter_def bt_wf_filter map_of_filter_key)
  have app: "keys_sorted ops \<Longrightarrow> (\<forall>k. (k, Delete) \<in> set ops \<longrightarrow> mem_view m k \<noteq> None) \<Longrightarrow>
      fst (mem_apply m ops) = Inr ()" for m ops
    by (auto simp: mem_apply_def)
  show ?thesis
    unfolding merk_reliable_def using iter app by simp
qed

lemma mem_codecs_ok:
  "codec_ok (account_codec mem_ext)" "codec_ok (token_info_codec mem_ext)" "codec_ok (ext_info_codec mem_ext)"
  "codec_ok (symbols_codec mem_ext)" "codec_ok (event_codec mem_ext)" "codec_ok (multisig_codec mem_ext)"
  "codec_ok (data_attributes_codec mem_ext)" "codec_ok (data_info_codec mem_ext)"
  "codec_ok (credential_codec mem_ext)" "codec_ok (block_9400_codec mem_ext)" "codec_ok (response_codec mem_ext)"
  "codec_ok (metadata_codec mem_ext)" "codec_ok (event_id_codec mem_ext)"
  by (auto simp: codec_ok_def)

lemma mem_codecs_total:
  "codec_total (account_codec mem_ext)" "codec_total (token_info_codec mem_ext)" "codec_total (ext_info_codec mem_ext)"
  "codec_total (symbols_codec mem_ext)" "codec_total (event_codec mem_ext)" "codec_total (multisig_codec mem_ext)"
  "codec_total (data_attributes_codec mem_ext)" "codec_total (data_info_codec mem_ext)"
  "codec_total (credential_codec mem_ext)" "codec_total (block_9400_codec mem_ext)" "codec_total (response_codec mem_ext)"
  "codec_total (metadata_codec mem_ext)" "codec_total (event_id_codec mem_ext)"
  by (simp_all add: codec_total_def)

end
