(* ===== verification/Migration.thy ===== *)
theory Migration
  imports Types
begin

text \<open>
  The migration library, \<open>src/src/many-migration/src/lib.rs\<close>: migrations with their metadata, their
  activation by block height, and sets of migrations loaded from a registry and a configuration.
  The type \<open>'m\<close> is the storage a regular migration changes, \<open>'v\<close> the data a hotfix replaces.
\<close>

section \<open>Metadata and migration types\<close>

text \<open>The JSON values of the free-form metadata.\<close>

datatype json =
    JNull
  | JBool bool
  | JNumber int
  | JString string
  | JArray "json list"
  | JObject "(string \<times> json) list"

type_synonym extra = "string \<rightharpoonup> json"

record metadata =
  md_block_height :: u64
  md_upper_block_height :: "u64 option"
  md_disabled :: bool
  md_issue :: "string option"
  md_extra :: extra

definition metadata_enabled :: "u64 \<Rightarrow> metadata" where
  "metadata_enabled h = \<lparr>md_block_height = h, md_upper_block_height = None, md_disabled = False,
     md_issue = None, md_extra = Map.empty\<rparr>"

definition metadata_disabled :: "u64 \<Rightarrow> metadata" where
  "metadata_disabled h = \<lparr>md_block_height = h, md_upper_block_height = None, md_disabled = True,
     md_issue = None, md_extra = Map.empty\<rparr>"

type_synonym 'm fn_ptr = "extra \<Rightarrow> ('m, unit) act"

datatype ('m, 'v) migration_type =
    Regular "'m fn_ptr" "'m fn_ptr"
  | Hotfix "'v \<Rightarrow> 'v option"
  | Trigger bool

record ('m, 'v) inner_migration =
  im_type :: "('m, 'v) migration_type"
  im_name :: string
  im_description :: string

definition new_hotfix :: "('v \<Rightarrow> 'v option) \<Rightarrow> string \<Rightarrow> string \<Rightarrow> ('m, 'v) inner_migration" where
  "new_hotfix f n d = \<lparr>im_type = Hotfix f, im_name = n, im_description = d\<rparr>"

definition new_initialize_update ::
  "'m fn_ptr \<Rightarrow> 'm fn_ptr \<Rightarrow> string \<Rightarrow> string \<Rightarrow> ('m, 'v) inner_migration" where
  "new_initialize_update i u n d = \<lparr>im_type = Regular i u, im_name = n, im_description = d\<rparr>"

definition new_initialize :: "'m fn_ptr \<Rightarrow> string \<Rightarrow> string \<Rightarrow> ('m, 'v) inner_migration" where
  "new_initialize i n d = \<lparr>im_type = Regular i (\<lambda>_. ret ()), im_name = n, im_description = d\<rparr>"

definition new_update :: "'m fn_ptr \<Rightarrow> string \<Rightarrow> string \<Rightarrow> ('m, 'v) inner_migration" where
  "new_update u n d = \<lparr>im_type = Regular (\<lambda>_. ret ()) u, im_name = n, im_description = d\<rparr>"

definition new_trigger :: "bool \<Rightarrow> string \<Rightarrow> string \<Rightarrow> ('m, 'v) inner_migration" where
  "new_trigger b n d = \<lparr>im_type = Trigger b, im_name = n, im_description = d\<rparr>"

definition is_trigger :: "('m, 'v) inner_migration \<Rightarrow> bool" where
  "is_trigger i = (case im_type i of Trigger _ \<Rightarrow> True | _ \<Rightarrow> False)"

definition inner_initialize :: "('m, 'v) inner_migration \<Rightarrow> 'm fn_ptr" where
  "inner_initialize i x = (case im_type i of Regular f _ \<Rightarrow> f x | Hotfix _ \<Rightarrow> ret () | Trigger _ \<Rightarrow> ret ())"

definition inner_update :: "('m, 'v) inner_migration \<Rightarrow> 'm fn_ptr" where
  "inner_update i x = (case im_type i of Regular _ f \<Rightarrow> f x | Hotfix _ \<Rightarrow> ret () | Trigger _ \<Rightarrow> ret ())"

definition inner_hotfix :: "('m, 'v) inner_migration \<Rightarrow> 'v \<Rightarrow> 'v option" where
  "inner_hotfix i b = (case im_type i of Hotfix f \<Rightarrow> f b | Regular _ _ \<Rightarrow> None | Trigger _ \<Rightarrow> None)"

section \<open>Migrations\<close>

datatype activated = ActInitialize | ActUpdate | ActNone

record ('m, 'v) migration =
  mig_inner :: "('m, 'v) inner_migration"
  mig_metadata :: metadata
  mig_enabled :: bool
  mig_active :: bool

definition migration_new :: "('m, 'v) inner_migration \<Rightarrow> metadata \<Rightarrow> ('m, 'v) migration" where
  "migration_new i md = \<lparr>mig_inner = i, mig_metadata = md, mig_enabled = \<not> md_disabled md, mig_active = False\<rparr>"

definition U64_MAX :: u64 where
  "U64_MAX = - 1"

text \<open>The half-open window of a trigger.\<close>

definition in_window :: "metadata \<Rightarrow> u64 \<Rightarrow> bool" where
  "in_window md h \<longleftrightarrow> md_block_height md \<le> h \<and>
     h < (case md_upper_block_height md of Some u \<Rightarrow> u | None \<Rightarrow> U64_MAX)"

definition activate_at_height :: "('m, 'v) migration \<Rightarrow> u64 \<Rightarrow> activated \<times> ('m, 'v) migration" where
  "activate_at_height m h =
    (if is_trigger (mig_inner m) then (ActNone, m\<lparr>mig_active := in_window (mig_metadata m) h\<rparr>)
     else if h = md_block_height (mig_metadata m) \<and> \<not> mig_active m then (ActInitialize, m\<lparr>mig_active := True\<rparr>)
     else if h > md_block_height (mig_metadata m) then (ActUpdate, m)
     else (ActNone, m))"

definition set_active_at_height :: "('m, 'v) migration \<Rightarrow> u64 \<Rightarrow> ('m, 'v) migration" where
  "set_active_at_height m h =
    (if is_trigger (mig_inner m) then m\<lparr>mig_active := in_window (mig_metadata m) h\<rparr>
     else if h \<ge> md_block_height (mig_metadata m) then m\<lparr>mig_active := True\<rparr>
     else m)"

definition maybe_initialize_update_at_height ::
  "('m, 'v) migration \<Rightarrow> u64 \<Rightarrow> 'm \<Rightarrow> unit result \<times> ('m, 'v) migration \<times> 'm" where
  "maybe_initialize_update_at_height m h st =
    (if mig_enabled m then
       (let (a, m') = activate_at_height m h in
        let (r, st') =
          (case a of
             ActInitialize \<Rightarrow> inner_initialize (mig_inner m') (md_extra (mig_metadata m')) st
           | ActUpdate \<Rightarrow> inner_update (mig_inner m') (md_extra (mig_metadata m')) st
           | ActNone \<Rightarrow> (Ok (), st)) in
        (r, m', st'))
     else (Ok (), m, st))"

definition migration_initialize :: "('m, 'v) migration \<Rightarrow> u64 \<Rightarrow> ('m, unit) act" where
  "migration_initialize m h =
    (if mig_enabled m \<and> h = md_block_height (mig_metadata m)
     then inner_initialize (mig_inner m) (md_extra (mig_metadata m)) else ret ())"

definition migration_update :: "('m, 'v) migration \<Rightarrow> u64 \<Rightarrow> ('m, unit) act" where
  "migration_update m h =
    (if mig_enabled m \<and> h > md_block_height (mig_metadata m)
     then inner_update (mig_inner m) (md_extra (mig_metadata m)) else ret ())"

definition migration_hotfix :: "('m, 'v) migration \<Rightarrow> 'v \<Rightarrow> u64 \<Rightarrow> 'v option" where
  "migration_hotfix m b h =
    (if mig_enabled m \<and> md_block_height (mig_metadata m) = h then inner_hotfix (mig_inner m) b else None)"

definition is_hotfix :: "('m, 'v) migration \<Rightarrow> bool" where
  "is_hotfix m = (case im_type (mig_inner m) of Hotfix _ \<Rightarrow> True | _ \<Rightarrow> False)"

definition migration_is_active :: "('m, 'v) migration \<Rightarrow> bool" where
  "migration_is_active m =
    (if mig_active m then True
     else case im_type (mig_inner m) of
       Trigger active_by_default \<Rightarrow> \<not> mig_enabled m \<and> active_by_default
     | _ \<Rightarrow> False)"

section \<open>Configurations and sets\<close>

record single_migration_config =
  smc_name :: string
  smc_metadata :: metadata

record migration_config =
  mc_strict :: "bool option"
  mc_migrations :: "single_migration_config list"

definition is_strict :: "migration_config \<Rightarrow> bool" where
  "is_strict c = (case mc_strict c of Some b \<Rightarrow> b | None \<Rightarrow> False)"

type_synonym ('m, 'v) migration_set = "(string, ('m, 'v) migration) btree_map"

definition ms_insert :: "('m, 'v) migration \<Rightarrow> ('m, 'v) migration_set \<Rightarrow> ('m, 'v) migration_set" where
  "ms_insert m s = bt_insert (im_name (mig_inner m)) m s"

definition registry_map ::
  "('m, 'v) inner_migration list \<Rightarrow> (string, ('m, 'v) inner_migration) btree_map" where
  "registry_map reg = foldl (\<lambda>m i. bt_insert (im_name i) i m) [] reg"

fun load_configs ::
  "(string, ('m, 'v) inner_migration) btree_map \<Rightarrow> single_migration_config list \<Rightarrow>
   ('m, 'v) migration_set \<Rightarrow> string + ('m, 'v) migration_set" where
  "load_configs reg [] s = Inr s"
| "load_configs reg (c # cs) s =
     (case map_of reg (smc_name c) of
        None \<Rightarrow> Inl (''Unsupported migration '' @ [CHR 0x27] @ smc_name c @ [CHR 0x27])
      | Some i \<Rightarrow> load_configs reg cs (bt_insert (smc_name c) (migration_new i (smc_metadata c)) s))"

definition missing_migrations ::
  "(string, ('m, 'v) inner_migration) btree_map \<Rightarrow> ('m, 'v) migration_set \<Rightarrow> string list" where
  "missing_migrations reg inner = filter (\<lambda>n. map_of inner n = None) (map fst reg)"

definition debug_str :: "string \<Rightarrow> string" where
  "debug_str s = [CHR 0x22] @ s @ [CHR 0x22]"

fun debug_strs :: "string list \<Rightarrow> string" where
  "debug_strs [] = []"
| "debug_strs [s] = debug_str s"
| "debug_strs (s # t # ss) = debug_str s @ '', '' @ debug_strs (t # ss)"

definition missing_message :: "string list \<Rightarrow> string" where
  "missing_message ns =
    (case ns of
       [n] \<Rightarrow> ''Migration Config is missing migration '' @ debug_str n
     | _ \<Rightarrow> ''Migration Config is missing migrations ['' @ debug_strs ns @ '']'')"

definition ms_load ::
  "('m, 'v) inner_migration list \<Rightarrow> migration_config \<Rightarrow> u64 \<Rightarrow> string + ('m, 'v) migration_set" where
  "ms_load registry config h =
    (let reg = registry_map registry in
     case load_configs reg (mc_migrations config) [] of
       Inl e \<Rightarrow> Inl e
     | Inr inner \<Rightarrow>
         if is_strict config \<and> missing_migrations reg inner \<noteq> []
         then Inl (missing_message (missing_migrations reg inner))
         else Inr (map (\<lambda>e. (fst e, if mig_enabled (snd e) then set_active_at_height (snd e) h else snd e)) inner))"

fun update_at_height :: "u64 \<Rightarrow> ('m, 'v) migration_set \<Rightarrow> 'm \<Rightarrow> unit result \<times> ('m, 'v) migration_set \<times> 'm" where
  "update_at_height h [] st = (Ok (), [], st)"
| "update_at_height h (e # s) st =
     (case maybe_initialize_update_at_height (snd e) h st of
        (Ok _, m', st') \<Rightarrow>
          (case update_at_height h s st' of (r, s', st'') \<Rightarrow> (r, (fst e, m') # s', st''))
      | (r, m', st') \<Rightarrow> (r, (fst e, m') # s, st'))"

fun ms_hotfix :: "('m, 'v) migration_set \<Rightarrow> string \<Rightarrow> 'v \<Rightarrow> u64 \<Rightarrow> 'v option" where
  "ms_hotfix [] name b h = None"
| "ms_hotfix (e # s) name b h =
     (if is_hotfix (snd e) \<and> im_name (mig_inner (snd e)) = name
      then (case migration_hotfix (snd e) b h of Some r \<Rightarrow> Some r | None \<Rightarrow> ms_hotfix s name b h)
      else ms_hotfix s name b h)"

definition ms_is_enabled :: "('m, 'v) migration_set \<Rightarrow> string \<Rightarrow> bool" where
  "ms_is_enabled s name = (case map_of s name of Some m \<Rightarrow> mig_enabled m | None \<Rightarrow> False)"

definition ms_is_active :: "('m, 'v) migration_set \<Rightarrow> string \<Rightarrow> bool" where
  "ms_is_active s name = (case map_of s name of Some m \<Rightarrow> migration_is_active m | None \<Rightarrow> False)"

section \<open>What activation depends on\<close>

text \<open>
  The effect of a migration at a height, without the \<open>active\<close> flag: nothing before the block height,
  initialisation at it, an update after it.
\<close>

definition effect_at :: "('m, 'v) migration \<Rightarrow> u64 \<Rightarrow> ('m, unit) act" where
  "effect_at m h =
    (if \<not> mig_enabled m \<or> h < md_block_height (mig_metadata m) then ret ()
     else if h = md_block_height (mig_metadata m) then inner_initialize (mig_inner m) (md_extra (mig_metadata m))
     else inner_update (mig_inner m) (md_extra (mig_metadata m)))"

text \<open>The flag of a migration at a height, as a function of the metadata only.\<close>

definition active_at :: "('m, 'v) migration \<Rightarrow> u64 \<Rightarrow> bool" where
  "active_at m h \<longleftrightarrow> mig_enabled m \<and>
     (if is_trigger (mig_inner m) then in_window (mig_metadata m) h else md_block_height (mig_metadata m) \<le> h)"

definition at_height :: "u64 \<Rightarrow> ('m, 'v) migration \<Rightarrow> ('m, 'v) migration" where
  "at_height h m = m\<lparr>mig_active := active_at m h\<rparr>"

abbreviation set_at :: "u64 \<Rightarrow> ('m, 'v) migration_set \<Rightarrow> ('m, 'v) migration_set" where
  "set_at h s \<equiv> map (\<lambda>e. (fst e, at_height h (snd e))) s"

fun effects_at :: "u64 \<Rightarrow> ('m, 'v) migration_set \<Rightarrow> ('m, unit) act" where
  "effects_at h [] = ret ()"
| "effects_at h (e # s) = bnd (effect_at (snd e) h) (\<lambda>_. effects_at h s)"

lemma at_height_at_height [simp]: "at_height h (at_height h' m) = at_height h m"
  by (simp add: at_height_def active_at_def)

lemma effect_at_at_height [simp]: "effect_at (at_height h m) h' = effect_at m h'"
  by (simp add: at_height_def effect_at_def)

lemma le_of_less_Suc: "b < h + 1 \<Longrightarrow> b \<le> h" for h b :: u64
  using inc_le [of h b] by (meson leD not_le_imp_less)

lemma migration_step:
  assumes "h < h + 1"
  shows "maybe_initialize_update_at_height (at_height h m) (h + 1) st =
    (fst (effect_at m (h + 1) st), at_height (h + 1) m, snd (effect_at m (h + 1) st))"
proof (cases "mig_enabled m")
  case True
  show ?thesis
  proof (cases "is_trigger (mig_inner m)")
    case trigger: True
    then obtain b where "im_type (mig_inner m) = Trigger b"
      by (auto simp: is_trigger_def split: migration_type.splits)
    with True trigger show ?thesis
      by (simp add: maybe_initialize_update_at_height_def activate_at_height_def at_height_def active_at_def
          effect_at_def inner_initialize_def inner_update_def ret_def)
  next
    case False
    consider "h + 1 < md_block_height (mig_metadata m)" | "h + 1 = md_block_height (mig_metadata m)"
      | "md_block_height (mig_metadata m) < h + 1"
      by (rule linorder_cases)
    then show ?thesis
    proof cases
      case 1
      then have "\<not> md_block_height (mig_metadata m) \<le> h" "\<not> md_block_height (mig_metadata m) \<le> h + 1"
        "\<not> md_block_height (mig_metadata m) < h + 1" "h + 1 \<noteq> md_block_height (mig_metadata m)"
        using assms by (auto dest: less_trans)
      with 1 show ?thesis
        using True False
        by (simp add: maybe_initialize_update_at_height_def activate_at_height_def at_height_def active_at_def
            effect_at_def ret_def)
    next
      case 2
      then have "\<not> md_block_height (mig_metadata m) \<le> h"
        using assms by simp
      with 2 show ?thesis
        using True False
        by (simp add: maybe_initialize_update_at_height_def activate_at_height_def at_height_def active_at_def
            effect_at_def case_prod_beta)
    next
      case 3
      then have "md_block_height (mig_metadata m) \<le> h"
        by (rule le_of_less_Suc)
      moreover have "h + 1 \<noteq> md_block_height (mig_metadata m)" "\<not> h + 1 < md_block_height (mig_metadata m)"
        "md_block_height (mig_metadata m) \<le> h + 1"
        using 3 by auto
      ultimately show ?thesis
        using 3 True False
        by (simp add: maybe_initialize_update_at_height_def activate_at_height_def at_height_def active_at_def
            effect_at_def case_prod_beta)
    qed
  qed
qed (simp add: maybe_initialize_update_at_height_def at_height_def active_at_def effect_at_def ret_def)

section \<open>Sets of migrations\<close>

lemma update_at_height_effects:
  assumes "h < h + 1"
  shows "fst (update_at_height (h + 1) (set_at h s) st) = fst (effects_at (h + 1) s st) \<and>
    snd (snd (update_at_height (h + 1) (set_at h s) st)) = snd (effects_at (h + 1) s st) \<and>
    (fst (effects_at (h + 1) s st) = Ok () \<longrightarrow>
      fst (snd (update_at_height (h + 1) (set_at h s) st)) = set_at (h + 1) s)"
proof (induction s arbitrary: st)
  case (Cons e s)
  obtain r st' where eff: "effect_at (snd e) (h + 1) st = (r, st')"
    by fastforce
  obtain r2 s2 st2 where up: "update_at_height (h + 1) (set_at h s) st' = (r2, s2, st2)"
    by (rule prod_cases3)
  have "maybe_initialize_update_at_height (at_height h (snd e)) (h + 1) st = (r, at_height (h + 1) (snd e), st')"
    using migration_step [OF assms, of "snd e" st] eff by simp
  then show ?case
    using eff up Cons [of st'] by (cases r) (simp_all add: bnd_def)
qed (simp add: ret_def)

lemma load_configs_new:
  assumes "load_configs reg cs s = Inr s'" "\<And>e. e \<in> set s \<Longrightarrow> \<not> mig_active (snd e)"
  shows "\<forall>e\<in>set s'. \<not> mig_active (snd e)"
  using assms
proof (induction cs arbitrary: s)
  case (Cons c cs)
  then obtain i where "map_of reg (smc_name c) = Some i"
    "load_configs reg cs (bt_insert (smc_name c) (migration_new i (smc_metadata c)) s) = Inr s'"
    by (auto split: option.splits)
  moreover have "\<not> mig_active (snd e)" if "e \<in> set (bt_insert (smc_name c) (migration_new i (smc_metadata c)) s)" for e
    using that Cons.prems(2) [of e] by (auto simp: bt_insert_def migration_new_def)
  ultimately show ?case
    using Cons.IH by blast
qed auto

lemma set_active_new:
  "\<not> mig_active m \<Longrightarrow> (if mig_enabled m then set_active_at_height m h else m) = at_height h m"
  by (auto simp: set_active_at_height_def at_height_def active_at_def)

lemma ms_load_eq:
  "ms_load registry config h = Inr s \<longleftrightarrow>
     (\<exists>s0. load_configs (registry_map registry) (mc_migrations config) [] = Inr s0 \<and>
        \<not> (is_strict config \<and> missing_migrations (registry_map registry) s0 \<noteq> []) \<and> s = set_at h s0)"
proof -
  have "map (\<lambda>e. (fst e, if mig_enabled (snd e) then set_active_at_height (snd e) h else snd e)) s0 = set_at h s0"
    if "load_configs (registry_map registry) (mc_migrations config) [] = Inr s0" for s0
    using load_configs_new [OF that] by (auto simp: set_active_new)
  then show ?thesis
    by (auto simp: ms_load_def Let_def split: sum.splits)
qed

text \<open>Committing the blocks after height \<open>h\<close>, one by one.\<close>

fun run_heights :: "nat \<Rightarrow> u64 \<Rightarrow> ('m, 'v) migration_set \<Rightarrow> 'm \<Rightarrow> unit result \<times> ('m, 'v) migration_set \<times> 'm" where
  "run_heights 0 h s st = (Ok (), s, st)"
| "run_heights (Suc n) h s st =
     (case update_at_height (h + 1) s st of
        (Ok _, s', st') \<Rightarrow> run_heights n (h + 1) s' st'
      | r \<Rightarrow> r)"

fun effects_run :: "nat \<Rightarrow> u64 \<Rightarrow> ('m, 'v) migration_set \<Rightarrow> ('m, unit) act" where
  "effects_run 0 h s = ret ()"
| "effects_run (Suc n) h s = bnd (effects_at (h + 1) s) (\<lambda>_. effects_run n (h + 1) s)"

lemma effects_at_set_at [simp]: "effects_at h (set_at h' s) = effects_at h s"
  by (induction s) auto

lemma effects_run_set_at [simp]: "effects_run n h (set_at h' s) = effects_run n h s"
  by (induction n arbitrary: h) auto

lemma no_wrap:
  fixes h :: u64
  assumes "unat h + Suc n < 2 ^ 64"
  shows "h < h + 1" "unat (h + 1) = unat h + 1"
proof -
  show "unat (h + 1) = unat h + 1"
    using assms by (simp add: unat_word_ariths)
  then show "h < h + 1"
    by (simp add: word_less_nat_alt)
qed

lemma run_heights_effects:
  assumes "unat h + n < 2 ^ 64"
  shows "fst (run_heights n h (set_at h s) st) = fst (effects_run n h s st) \<and>
    snd (snd (run_heights n h (set_at h s) st)) = snd (effects_run n h s st) \<and>
    (fst (effects_run n h s st) = Ok () \<longrightarrow>
      fst (snd (run_heights n h (set_at h s) st)) = set_at (h + of_nat n) s)"
  using assms
proof (induction n arbitrary: h st)
  case (Suc n)
  have hh: "h < h + 1" and u: "unat (h + 1) + n < 2 ^ 64"
    using no_wrap [of h n] Suc.prems by simp_all
  obtain r s' st' where up: "update_at_height (h + 1) (set_at h s) st = (r, s', st')"
    by (rule prod_cases3)
  have r: "effects_at (h + 1) s st = (r, st')"
    using update_at_height_effects [OF hh, of s st] up by (simp add: prod_eq_iff)
  have s': "r = Ok () \<Longrightarrow> s' = set_at (h + 1) s"
    using update_at_height_effects [OF hh, of s st] up r by simp
  show ?case
    using up r s' Suc.IH [OF u, of st'] by (cases r) (simp_all add: bnd_def add.assoc)
qed (simp add: ret_def)

section \<open>An example set\<close>

text \<open>A migration over a counter, scheduled for height 5 on a node started at height 3.\<close>

definition counter_migration :: "(nat, unit) inner_migration" where
  "counter_migration = new_initialize_update (\<lambda>_ n. (Ok (), n + 1)) (\<lambda>_ n. (Ok (), n + 10)) ''A'' ''counter''"

definition counter_config :: migration_config where
  "counter_config = \<lparr>mc_strict = Some True, mc_migrations = [\<lparr>smc_name = ''A'', smc_metadata = metadata_enabled 5\<rparr>]\<rparr>"

definition counter_set :: "bool \<Rightarrow> (nat, unit) migration_set" where
  "counter_set b = [(''A'', \<lparr>mig_inner = counter_migration, mig_metadata = metadata_enabled 5,
     mig_enabled = True, mig_active = b\<rparr>)]"

lemma counter_load: "ms_load [counter_migration] counter_config 3 = Inr (counter_set False)"
  by (simp add: ms_load_def registry_map_def bt_insert_def counter_config_def counter_migration_def
      new_initialize_update_def migration_new_def metadata_enabled_def is_strict_def missing_migrations_def
      set_active_at_height_def is_trigger_def counter_set_def)

lemma counter_run: "run_heights 4 3 (counter_set False) 0 = (Ok (), counter_set True, 21)"
proof -
  have four: "4 = Suc (Suc (Suc (Suc 0)))"
    by simp
  show ?thesis
    unfolding four run_heights.simps
    by (simp add: counter_set_def maybe_initialize_update_at_height_def activate_at_height_def
      is_trigger_def counter_migration_def new_initialize_update_def metadata_enabled_def
      inner_initialize_def inner_update_def)
qed

section \<open>Properties\<close>

text \<open>C19: Whatever height a node is started at, committing the following blocks runs every enabled
  migration as if there were no activation flag: its initialisation exactly at its block height and
  its update at each later height, in name order, stopping at the first error.\<close>

theorem migrations_follow_schedule:
  assumes "ms_load registry config h = Inr s" "unat h + n < 2 ^ 64"
  shows "fst (run_heights n h s st) = fst (effects_run n h s st) \<and>
    snd (snd (run_heights n h s st)) = snd (effects_run n h s st)"
proof -
  obtain s0 where "s = set_at h s0"
    using assms(1) by (auto simp: ms_load_eq)
  then show ?thesis
    using run_heights_effects [OF assms(2), of s0 st] by (simp only: effects_run_set_at)
qed

theorem migrations_follow_schedule_witness:
  "ms_load [counter_migration] counter_config 3 = Inr (counter_set False) \<and>
   snd (effects_run 4 3 (counter_set False) 0) = 21"
  using migrations_follow_schedule [OF counter_load, of 4 0] counter_load counter_run by simp

text \<open>Restarting is transparent: reloading the migrations at the height the chain has reached
  gives the very set of migrations, flags included, that an uninterrupted run has there.\<close>

theorem migrations_restart_transparent:
  assumes "ms_load registry config h = Inr s" "unat h + n < 2 ^ 64"
    and "run_heights n h s st = (Ok (), s', st')"
  shows "ms_load registry config (h + of_nat n) = Inr s'"
proof -
  obtain s0 where s0: "load_configs (registry_map registry) (mc_migrations config) [] = Inr s0"
    "\<not> (is_strict config \<and> missing_migrations (registry_map registry) s0 \<noteq> [])" "s = set_at h s0"
    using assms(1) by (auto simp: ms_load_eq)
  have "s' = set_at (h + of_nat n) s0"
    using run_heights_effects [OF assms(2), of s0 st] assms(3) s0(3) by simp
  with s0(1,2) show ?thesis
    unfolding ms_load_eq by blast
qed

theorem migrations_restart_transparent_witness:
  "run_heights 4 3 (counter_set False) 0 = (Ok (), counter_set True, 21) \<and>
   ms_load [counter_migration] counter_config 7 = Inr (counter_set True)"
  using migrations_restart_transparent [OF counter_load _ counter_run] counter_run by simp

text \<open>A hotfix only ever applies at the block height of an enabled hotfix migration of that
  name.\<close>

theorem hotfix_only_at_height:
  assumes "ms_hotfix s name b h = Some r"
  shows "\<exists>e\<in>set s. mig_enabled (snd e) \<and> md_block_height (mig_metadata (snd e)) = h \<and>
    im_name (mig_inner (snd e)) = name \<and> (\<exists>f. im_type (mig_inner (snd e)) = Hotfix f \<and> f b = Some r)"
  using assms
  by (induction s)
    (auto simp: migration_hotfix_def inner_hotfix_def is_hotfix_def
      split: if_splits option.splits migration_type.splits)

theorem hotfix_only_at_height_witness:
  "ms_hotfix [(''B'', migration_new (new_hotfix Some ''B'' ''identity'') (metadata_enabled 7))] ''B'' True 7 = Some True \<and>
   (\<exists>e\<in>set [(''B'', migration_new (new_hotfix Some ''B'' ''identity'') (metadata_enabled 7)) :: string \<times> (unit, bool) migration].
      md_block_height (mig_metadata (snd e)) = 7)"
  using hotfix_only_at_height
    [of "[(''B'', migration_new (new_hotfix Some ''B'' ''identity'') (metadata_enabled 7)) :: string \<times> (unit, bool) migration]"
      "''B''" True 7 True]
  by (simp add: is_hotfix_def migration_new_def new_hotfix_def metadata_enabled_def migration_hotfix_def
      inner_hotfix_def)

end
