(* ===== verification/Storage.thy ===== *)
theory Storage
  imports Mem_Store Migration
begin

text \<open>
  \<open>LedgerStorage\<close>, \<open>src/src/many-ledger/src/storage.rs\<close>, with the event log of
  \<open>storage/event.rs\<close>: the state of the ledger around its persistent store, the block height, the
  identities and subresource counters, hotfixes, and the log every command writes to.
\<close>

section \<open>State\<close>

record ('m, 'v) ledger_storage =
  persistent_store :: 'm
  blockchain :: bool
  latest_tid :: event_id
  current_time :: "timestamp option"
  current_hash :: "bytes option"
  migrations :: "('m, 'v) migration_set"

type_synonym ('m, 'v, 'a) led = "('m, 'v) ledger_storage \<Rightarrow> 'a result \<times> ('m, 'v) ledger_storage"

text \<open>What no command but \<open>commit\<close>, \<open>begin_block\<close> and the constructors changes.\<close>

definition ctx :: "('m, 'v) ledger_storage \<Rightarrow> bool \<times> timestamp option \<times> bytes option \<times> ('m, 'v) migration_set" where
  "ctx s = (blockchain s, current_time s, current_hash s, migrations s)"

abbreviation sv :: "('m \<Rightarrow> bytes \<Rightarrow> 'v option) \<Rightarrow> ('m, 'v) ledger_storage \<Rightarrow> bytes \<Rightarrow> 'v option" where
  "sv V s \<equiv> V (persistent_store s)"

section \<open>Store access\<close>

definition with_store :: "('m, 'a) act \<Rightarrow> ('m, 'v, 'a) led" where
  "with_store a s = (case a (persistent_store s) of (r, m) \<Rightarrow> (r, s\<lparr>persistent_store := m\<rparr>))"

definition store_get :: "('m, 'v) ext \<Rightarrow> (string \<Rightarrow> many_error) \<Rightarrow> bytes \<Rightarrow> ('m, 'v) ledger_storage \<Rightarrow> 'v option result" where
  "store_get E f k s = db_get E f k (persistent_store s)"

definition store_apply :: "('m, 'v) ext \<Rightarrow> (string \<Rightarrow> many_error) \<Rightarrow> (bytes \<times> 'v merk_op) list \<Rightarrow> ('m, 'v, unit) led" where
  "store_apply E f ops = with_store (db_apply E f ops)"

definition commit_storage :: "('m, 'v) ext \<Rightarrow> ('m, 'v, unit) led" where
  "commit_storage E = with_store (db_commit E storage_commit_failed)"

definition maybe_commit :: "('m, 'v) ext \<Rightarrow> ('m, 'v, unit) led" where
  "maybe_commit E s = (if \<not> blockchain s then commit_storage E s else (Ok (), s))"

definition set_time :: "timestamp \<Rightarrow> ('m, 'v) ledger_storage \<Rightarrow> ('m, 'v) ledger_storage" where
  "set_time t s = s\<lparr>current_time := Some t\<rparr>"

definition now :: "('m, 'v) ext \<Rightarrow> ('m, 'v) ledger_storage \<Rightarrow> timestamp" where
  "now E s = (case current_time s of Some t \<Rightarrow> t | None \<Rightarrow> system_now E)"

text \<open>\<open>copy_from_slice\<close> into an array of 8 or 4 bytes panics on another length.\<close>

definition read_u64 :: "bytes \<Rightarrow> u64 result" where
  "read_u64 b = (if length b = 8 then Ok (u64_from_be_bytes b)
     else Panic ''source slice length does not match destination slice length'')"

definition read_u32 :: "bytes \<Rightarrow> u32 result" where
  "read_u32 b = (if length b = 4 then Ok (u32_from_be_bytes b)
     else Panic ''source slice length does not match destination slice length'')"

definition put_bytes :: "('m, 'v) ext \<Rightarrow> bytes \<Rightarrow> 'v merk_op" where
  "put_bytes E b = Put (val_of_bytes E b)"

definition ledger_new :: "'m \<Rightarrow> bool \<Rightarrow> ('m, 'v) ledger_storage" where
  "ledger_new m b = \<lparr>persistent_store = m, blockchain = b, latest_tid = [0], current_time = None,
     current_hash = None, migrations = []\<rparr>"

definition ledger_build :: "('m, 'v) ext \<Rightarrow> ('m, 'v, unit) led" where
  "ledger_build E = with_store (db_commit E storage_commit_failed)"

section \<open>Symbols\<close>

definition get_symbols_and_tickers :: "('m, 'v) ext \<Rightarrow> ('m, 'v) ledger_storage \<Rightarrow> (symbol, string) btree_map result" where
  "get_symbols_and_tickers E s =
    res_bind (store_get E storage_get_failed (utf8 SYMBOLS_ROOT) s) (\<lambda>x.
    res_bind (ok_or (storage_key_not_found SYMBOLS_ROOT) x) (\<lambda>v.
    from_sum deserialization_error (dec (symbols_codec E) v)))"

definition TOKEN_MIGRATION :: string where "TOKEN_MIGRATION = ''Token Migration''"

definition order_mode :: "sort_order \<Rightarrow> iter_mode" where
  "order_mode o' = (case o' of Descending \<Rightarrow> IterEnd | _ \<Rightarrow> IterStart)"

definition all_symbols :: "('m, 'v) ext \<Rightarrow> 'm \<Rightarrow> sort_order \<Rightarrow> (string + bytes \<times> 'v) list" where
  "all_symbols E m o' = merk_iter E m (order_mode o') (PrefixRange (utf8 SYMBOLS_ROOT_DASH))"

text \<open>
  The key of a symbol entry without the root is read as UTF-8 and then as an address. Slicing a key
  of the prefix range cannot be out of bounds.
\<close>

definition symbol_of_key :: "('m, 'v) ext \<Rightarrow> bytes \<Rightarrow> symbol result" where
  "symbol_of_key E k =
    res_bind (from_sum deserialization_error (from_utf8 (drop (length SYMBOLS_ROOT_DASH) k))) (from_str E)"

definition get_symbols_iter :: "('m, 'v) ext \<Rightarrow> ('m, 'v) ledger_storage \<Rightarrow> symbol list result" where
  "get_symbols_iter E s =
    res_fold (\<lambda>item symbols.
        res_bind (from_sum unknown item) (\<lambda>(k, _).
        res_bind (symbol_of_key E k) (\<lambda>a. Ok (bs_insert a symbols))))
      (all_symbols E (persistent_store s) Indeterminate) []"

definition get_symbols :: "('m, 'v) ext \<Rightarrow> ('m, 'v) ledger_storage \<Rightarrow> symbol list result" where
  "get_symbols E s =
    (if ms_is_active (migrations s) TOKEN_MIGRATION then get_symbols_iter E s
     else res_bind (get_symbols_and_tickers E s) (\<lambda>m. Ok (map fst m)))"

section \<open>Height, hash and identities\<close>

definition get_height :: "('m, 'v) ext \<Rightarrow> ('m, 'v) ledger_storage \<Rightarrow> u64 result" where
  "get_height E s =
    res_bind (store_get E storage_get_failed (utf8 HEIGHT_ROOT) s) (\<lambda>x.
    case x of None \<Rightarrow> Ok 0 | Some v \<Rightarrow> read_u64 (val_bytes E v))"

definition inc_height :: "('m, 'v) ext \<Rightarrow> ('m, 'v, u64) led" where
  "inc_height E =
    bnd (query (get_height E)) (\<lambda>h.
    bnd (store_apply E storage_apply_failed [(utf8 HEIGHT_ROOT, put_bytes E (u64_to_be_bytes (h + 1)))]) (\<lambda>_.
    ret h))"

definition ledger_hash :: "('m, 'v) ext \<Rightarrow> ('m, 'v) ledger_storage \<Rightarrow> bytes" where
  "ledger_hash E s = (case current_hash s of None \<Rightarrow> merk_root_hash E (persistent_store s) | Some x \<Rightarrow> x)"

definition get_identity :: "('m, 'v) ext \<Rightarrow> string \<Rightarrow> ('m, 'v) ledger_storage \<Rightarrow> address result" where
  "get_identity E identity_root s =
    res_bind (store_get E storage_get_failed (utf8 identity_root) s) (\<lambda>x.
    res_bind (ok_or (storage_key_not_found identity_root) x) (\<lambda>v.
    from_bytes (val_bytes E v)))"

section \<open>Subresources\<close>

abbreviation token_migration_active :: "('m, 'v) ledger_storage \<Rightarrow> bool" where
  "token_migration_active s \<equiv> ms_is_active (migrations s) TOKEN_MIGRATION"

definition get_subresource_counter :: "('m, 'v) ext \<Rightarrow> address \<Rightarrow> ('m, 'v) ledger_storage \<Rightarrow> u32 result" where
  "get_subresource_counter E i s =
    res_bind (store_get E storage_get_failed (key_for_subresource_counter E i (token_migration_active s)) s) (\<lambda>x.
    case x of None \<Rightarrow> Ok 0 | Some v \<Rightarrow> read_u32 (val_bytes E v))"

text \<open>The identity under a root, or the identity of the server when there is none.\<close>

definition identity_or_root :: "('m, 'v) ext \<Rightarrow> string \<Rightarrow> ('m, 'v) ledger_storage \<Rightarrow> address result" where
  "identity_or_root E identity_root s =
    res_bind (store_get E storage_get_failed (utf8 identity_root) s) (\<lambda>x.
    case x of None \<Rightarrow> get_identity E IDENTITY_ROOT s | Some v \<Rightarrow> from_bytes (val_bytes E v))"

text \<open>The \<open>while\<close> loop of \<open>get_next_subresource\<close>: the first subresource that is not a symbol.\<close>

function next_free :: "('m, 'v) ext \<Rightarrow> address \<Rightarrow> symbol list \<Rightarrow> u32 \<Rightarrow> address \<Rightarrow> (u32 \<times> address) result" where
  "next_free E i symbols current_id next_subresource =
    (if next_subresource \<in> set symbols then
       if current_id + 1 > MAX_SUBRESOURCE_ID then Err (subresource_exhausted (to_string E i))
       else (case with_subresource_id i (current_id + 1) of
               Ok n \<Rightarrow> next_free E i symbols (current_id + 1) n
             | Err e \<Rightarrow> Err e
             | Panic p \<Rightarrow> Panic p)
     else Ok (current_id, next_subresource))"
  by pat_completeness auto

text \<open>The identifier grows up to the bound, so the loop ends.\<close>

termination
proof (relation "measure (\<lambda>(E, i, symbols, c, n). if c = -1 then 2 ^ 32 else 2 ^ 31 - unat c)", goal_cases)
  case (2 E i symbols c n x)
  have bound: "unat (c + 1) < 2 ^ 31"
    using 2(2) by (simp add: MAX_SUBRESOURCE_ID_def not_less word_le_nat_alt)
  show ?case
  proof (cases "c = -1")
    case False
    then have "unat (c + 1) = Suc (unat c)"
      using unatSuc [of c] by (simp add: add.commute eq_neg_iff_add_eq_0)
    moreover have "c + 1 \<noteq> -1"
      using bound by (auto simp: word_unat_eq_iff unsigned_minus_1_eq_mask mask_eq_exp_minus_1)
    ultimately show ?thesis
      using False bound by simp
  qed (use bound in simp)
qed simp

declare next_free.simps [simp del]

definition get_next_subresource :: "('m, 'v) ext \<Rightarrow> string \<Rightarrow> ('m, 'v, address \<times> bytes list) led" where
  "get_next_subresource E identity_root =
    bnd (query (identity_or_root E identity_root)) (\<lambda>subresource_identity.
    bnd (query (get_subresource_counter E subresource_identity)) (\<lambda>current_id.
    bnd (fail_if (current_id > MAX_SUBRESOURCE_ID) (subresource_exhausted (to_string E subresource_identity))) (\<lambda>_.
    bnd (query (get_symbols E)) (\<lambda>symbols.
    bnd (lift_result (with_subresource_id subresource_identity current_id)) (\<lambda>first.
    bnd (lift_result (next_free E subresource_identity symbols current_id first)) (\<lambda>(current_id, _).
    bnd (query (\<lambda>s. Ok (key_for_subresource_counter E subresource_identity (token_migration_active s)))) (\<lambda>key.
    bnd (store_apply E storage_apply_failed [(key, put_bytes E (u32_to_be_bytes (current_id + 1)))]) (\<lambda>_.
    bnd (query (store_get E storage_get_failed (utf8 identity_root))) (\<lambda>x.
    bnd (query (identity_or_root E identity_root)) (\<lambda>i.
    bnd (lift_result (with_subresource_id i current_id)) (\<lambda>address.
    ret (address, [key, utf8 IDENTITY_ROOT] @ (if x = None then [] else [utf8 identity_root])))))))))))))"

section \<open>Hotfixes\<close>

definition block_hotfix :: "('m, 'v) ext \<Rightarrow> string \<Rightarrow> string + 'v \<Rightarrow> ('v \<Rightarrow> string + 'c) \<Rightarrow> ('m, 'v, 'c option) led" where
  "block_hotfix E name data decode =
    bnd (lift_result (from_sum serialization_error data)) (\<lambda>data_enc.
    bnd (query (get_height E)) (\<lambda>h.
    bnd (query (\<lambda>s. Ok (ms_hotfix (migrations s) name data_enc (h + 1)))) (\<lambda>r.
    case r of
      Some d \<Rightarrow> bnd (lift_result (from_sum deserialization_error (decode d))) (\<lambda>x. ret (Some x))
    | None \<Rightarrow> ret None)))"

section \<open>The event log\<close>

definition HEIGHT_EVENTID_SHIFT :: nat where
  "HEIGHT_EVENTID_SHIFT = 32"

definition new_event_id :: "('m, 'v) ext \<Rightarrow> ('m, 'v, event_id) led" where
  "new_event_id E s =
    (let i = event_id_add E (latest_tid s) 1 in (Ok i, s\<lparr>latest_tid := i\<rparr>))"

definition nb_events :: "('m, 'v) ext \<Rightarrow> ('m, 'v) ledger_storage \<Rightarrow> u64 result" where
  "nb_events E s =
    res_bind (store_get E storage_get_failed EVENT_COUNT_ROOT s) (\<lambda>x.
    case x of None \<Rightarrow> Ok 0 | Some v \<Rightarrow> read_u64 (val_bytes E v))"

definition log_event :: "('m, 'v) ext \<Rightarrow> event_info \<Rightarrow> ('m, 'v, unit) led" where
  "log_event E content =
    bnd (query (nb_events E)) (\<lambda>current_nb_events.
    bnd (new_event_id E) (\<lambda>i.
    bnd (query (\<lambda>s. Ok (now E s))) (\<lambda>t.
    bnd (lift_result (from_sum serialization_error
          (enc (event_codec E) \<lparr>el_id = i, el_time = t, el_content = content\<rparr>))) (\<lambda>v.
    bnd (store_apply E storage_apply_failed
          [(key_for_event i, Put v), (EVENT_COUNT_ROOT, put_bytes E (u64_to_be_bytes (current_nb_events + 1)))]) (\<lambda>_.
    maybe_commit E)))))"

definition all_multisig :: "('m, 'v) ext \<Rightarrow> 'm \<Rightarrow> sort_order \<Rightarrow> (string + bytes \<times> 'v) list" where
  "all_multisig E m o' = merk_iter E m (order_mode o') (PrefixRange MULTISIG_TRANSACTIONS_ROOT)"

text \<open>The unbounded upper end is the root with its last byte increased.\<close>

definition events_scoped_by_id ::
  "('m, 'v) ext \<Rightarrow> 'm \<Rightarrow> event_id cbor_range \<Rightarrow> sort_order \<Rightarrow> (string + bytes \<times> 'v) list" where
  "events_scoped_by_id E m rng o' =
    merk_iter E m (order_mode o') (BoundRange
      (case range_start rng of
         Included x \<Rightarrow> key_for_event x
       | Excluded x \<Rightarrow> key_for_event (event_id_add E x 1)
       | Unbounded \<Rightarrow> EVENTS_ROOT)
      (case range_end rng of
         Included x \<Rightarrow> key_for_event (event_id_add E x 1)
       | Excluded x \<Rightarrow> key_for_event x
       | Unbounded \<Rightarrow> EVENTS_ROOT[length EVENTS_ROOT - 1 := EVENTS_ROOT ! (length EVENTS_ROOT - 1) + 1]))"

definition all_events :: "('m, 'v) ext \<Rightarrow> 'm \<Rightarrow> (string + bytes \<times> 'v) list" where
  "all_events E m = events_scoped_by_id E m range_default Indeterminate"

definition iter_multisig :: "('m, 'v) ext \<Rightarrow> sort_order \<Rightarrow> ('m, 'v) ledger_storage \<Rightarrow> (string + bytes \<times> 'v) list" where
  "iter_multisig E o' s = all_multisig E (persistent_store s) o'"

definition iter_events :: "('m, 'v) ext \<Rightarrow> event_id cbor_range \<Rightarrow> sort_order \<Rightarrow> ('m, 'v) ledger_storage \<Rightarrow> (string + bytes \<times> 'v) list" where
  "iter_events E rng o' s = events_scoped_by_id E (persistent_store s) rng o'"

section \<open>Effects of the store calls\<close>

lemma with_store_Ok [act_simps]:
  "with_store a s = (Ok x, t) \<longleftrightarrow> (\<exists>m. a (persistent_store s) = (Ok x, m) \<and> t = s\<lparr>persistent_store := m\<rparr>)"
  by (auto simp: with_store_def split: prod.splits)

lemma ctx_update [simp]:
  "ctx (s\<lparr>persistent_store := m\<rparr>) = ctx s" "ctx (s\<lparr>latest_tid := i\<rparr>) = ctx s"
  by (simp_all add: ctx_def)

lemma ctx_eqD:
  assumes "ctx t = ctx s"
  shows "blockchain t = blockchain s" "current_time t = current_time s" "current_hash t = current_hash s"
    "migrations t = migrations s" "now E t = now E s"
  using assms by (simp_all add: ctx_def now_def)

lemma store_get_Ok: "merk_laws E V C \<Longrightarrow> store_get E f k s = Ok x \<Longrightarrow> x = sv V s k"
  unfolding store_get_def by (rule db_get_Ok)

lemma store_apply_Ok:
  assumes "merk_laws E V C" "store_apply E f ops s = (Ok u, t)"
  shows "keys_sorted ops" "sv V t = apply_ops (sv V s) ops" "sv C t = sv C s"
    "ctx t = ctx s" "latest_tid t = latest_tid s"
  using assms(2) db_apply_Ok [OF assms(1)] by (auto simp: store_apply_def act_simps)

lemma commit_storage_Ok:
  assumes "merk_laws E V C" "commit_storage E s = (Ok u, t)"
  shows "sv V t = sv V s" "sv C t = sv V s" "ctx t = ctx s" "latest_tid t = latest_tid s"
  using assms(2) db_commit_Ok [OF assms(1)] by (auto simp: commit_storage_def act_simps)

lemma maybe_commit_Ok:
  assumes "merk_laws E V C" "maybe_commit E s = (Ok u, t)"
  shows "sv V t = sv V s" "ctx t = ctx s" "latest_tid t = latest_tid s"
    "sv C t = (if blockchain s then sv C s else sv V s)"
  using assms(2) commit_storage_Ok [OF assms(1)] by (auto simp: maybe_commit_def split: if_splits)

lemma read_u64_Ok [act_simps]: "read_u64 b = Ok x \<longleftrightarrow> length b = 8 \<and> x = u64_from_be_bytes b"
  by (auto simp: read_u64_def)

lemma read_u64_be [simp]: "read_u64 (u64_to_be_bytes w) = Ok w"
  by (simp add: read_u64_def)

lemma read_u32_be [simp]: "read_u32 (u32_to_be_bytes w) = Ok w"
  by (simp add: read_u32_def)

text \<open>The number of logged events and the height, read off the contents of the store.\<close>

definition u64_at :: "('m, 'v) ext \<Rightarrow> bytes \<Rightarrow> (bytes \<Rightarrow> 'v option) \<Rightarrow> u64" where
  "u64_at E k f = (case f k of None \<Rightarrow> 0 | Some v \<Rightarrow> u64_from_be_bytes (val_bytes E v))"

lemma nb_events_Ok: "merk_laws E V C \<Longrightarrow> nb_events E s = Ok n \<Longrightarrow> n = u64_at E EVENT_COUNT_ROOT (sv V s)"
  by (auto simp: nb_events_def act_simps u64_at_def dest!: store_get_Ok split: option.splits)

lemma get_height_Ok: "merk_laws E V C \<Longrightarrow> get_height E s = Ok h \<Longrightarrow> h = u64_at E (utf8 HEIGHT_ROOT) (sv V s)"
  by (auto simp: get_height_def act_simps u64_at_def dest!: store_get_Ok split: option.splits)

lemma u64_at_upd:
  assumes "merk_laws E V C"
  shows "u64_at E k (f(k := Some (val_of_bytes E (u64_to_be_bytes w)))) = w"
    and "k' \<noteq> k \<Longrightarrow> u64_at E k (f(k' := x)) = u64_at E k f"
  by (simp_all add: u64_at_def merk_laws_val [OF assms])

text \<open>A successful \<open>log_event\<close> adds one entry under a new identifier and counts it.\<close>

abbreviation next_id :: "('m, 'v) ext \<Rightarrow> ('m, 'v) ledger_storage \<Rightarrow> event_id" where
  "next_id E s \<equiv> event_id_add E (latest_tid s) 1"

lemma log_event_Ok:
  assumes "merk_laws E V C" "log_event E content s = (Ok u, t)"
  obtains v where
    "enc (event_codec E) \<lparr>el_id = next_id E s, el_time = now E s, el_content = content\<rparr> = Inr v"
    "sv V t = (sv V s)(key_for_event (next_id E s) := Some v,
       EVENT_COUNT_ROOT := Some (val_of_bytes E (u64_to_be_bytes (u64_at E EVENT_COUNT_ROOT (sv V s) + 1))))"
    "latest_tid t = next_id E s" "ctx t = ctx s"
proof -
  obtain n v s1 where n: "nb_events E s = Ok n"
    and v: "enc (event_codec E) \<lparr>el_id = next_id E s, el_time = now E s, el_content = content\<rparr> = Inr v"
    and a: "store_apply E storage_apply_failed [(key_for_event (next_id E s), Put v),
        (EVENT_COUNT_ROOT, put_bytes E (u64_to_be_bytes (n + 1)))] (s\<lparr>latest_tid := next_id E s\<rparr>) = (Ok (), s1)"
    and c: "maybe_commit E s1 = (Ok (), t)"
    using assms(2) by (auto simp: log_event_def new_event_id_def Let_def now_def act_simps)
  show thesis
    using that [OF v] store_apply_Ok [OF assms(1) a] maybe_commit_Ok [OF assms(1) c] nb_events_Ok [OF assms(1) n]
    by (simp add: put_bytes_def fun_upd_twist)
qed

text \<open>In a blockchain, what is on disk changes with the commit of the block only.\<close>

lemma log_event_committed:
  assumes "merk_laws E V C" "log_event E content s = (Ok u, t)"
  shows "sv C t = (if blockchain s then sv C s else sv V t)"
proof -
  obtain ops s1 where a: "store_apply E storage_apply_failed ops (s\<lparr>latest_tid := next_id E s\<rparr>) = (Ok (), s1)"
    and c: "maybe_commit E s1 = (Ok (), t)"
    using assms(2) by (auto simp: log_event_def new_event_id_def Let_def act_simps)
  have "blockchain s1 = blockchain s"
    using ctx_eqD(1) [OF store_apply_Ok(4) [OF assms(1) a]] by simp
  then show ?thesis
    using store_apply_Ok [OF assms(1) a] maybe_commit_Ok [OF assms(1) c] by simp
qed

text \<open>Without I/O errors the store calls succeed.\<close>

lemma store_get_reliable: "merk_reliable E V C \<Longrightarrow> store_get E f k s = Ok (sv V s k)"
  unfolding store_get_def by (rule db_get_reliable)

lemma store_apply_reliable:
  assumes "merk_reliable E V C" "keys_sorted ops" "\<And>k. (k, Delete) \<notin> set ops"
  obtains t where "store_apply E f ops s = (Ok (), t)"
proof -
  obtain m' where "db_apply E f ops (persistent_store s) = (Ok (), m')"
    by (rule db_apply_reliable [OF assms(1,2)]) (use assms(3) in auto)
  then show thesis
    using that by (simp add: store_apply_def with_store_def)
qed

lemma maybe_commit_reliable:
  assumes "merk_reliable E V C"
  obtains t where "maybe_commit E s = (Ok (), t)"
proof -
  obtain m' where "db_commit E storage_commit_failed (persistent_store s) = (Ok (), m')"
    by (rule db_commit_reliable [OF assms])
  then show thesis
    using that by (cases "blockchain s") (simp_all add: maybe_commit_def commit_storage_def with_store_def)
qed

definition u64_slot :: "('m, 'v) ext \<Rightarrow> bytes \<Rightarrow> (bytes \<Rightarrow> 'v option) \<Rightarrow> bool" where
  "u64_slot E k f \<longleftrightarrow> (case f k of None \<Rightarrow> True | Some v \<Rightarrow> length (val_bytes E v) = 8)"

lemma nb_events_reliable:
  "merk_reliable E V C \<Longrightarrow> u64_slot E EVENT_COUNT_ROOT (sv V s) \<Longrightarrow>
   nb_events E s = Ok (u64_at E EVENT_COUNT_ROOT (sv V s))"
  by (cases "sv V s EVENT_COUNT_ROOT") (simp_all add: nb_events_def store_get_reliable u64_slot_def u64_at_def read_u64_def)

lemma get_height_reliable:
  "merk_reliable E V C \<Longrightarrow> u64_slot E (utf8 HEIGHT_ROOT) (sv V s) \<Longrightarrow>
   get_height E s = Ok (u64_at E (utf8 HEIGHT_ROOT) (sv V s))"
  by (cases "sv V s (utf8 HEIGHT_ROOT)") (simp_all add: get_height_def store_get_reliable u64_slot_def u64_at_def read_u64_def)

lemma run_query: "r s = Ok x \<Longrightarrow> bnd (query r) f s = f x s"
  by (simp add: bnd_query)

lemma log_event_reliable:
  assumes "merk_reliable E V C" "codec_total (event_codec E)" "u64_slot E EVENT_COUNT_ROOT (sv V s)"
  obtains t where "log_event E content s = (Ok (), t)"
proof -
  let ?ev = "\<lparr>el_id = next_id E s, el_time = now E s, el_content = content\<rparr>"
  let ?s1 = "s\<lparr>latest_tid := next_id E s\<rparr>"
  obtain v where v: "enc (event_codec E) ?ev = Inr v"
    using assms(2) by (auto simp: codec_total_def)
  obtain s2 where s2: "store_apply E storage_apply_failed [(key_for_event (next_id E s), Put v),
      (EVENT_COUNT_ROOT, put_bytes E (u64_to_be_bytes (u64_at E EVENT_COUNT_ROOT (sv V s) + 1)))] ?s1 = (Ok (), s2)"
    by (rule store_apply_reliable [OF assms(1)]) (auto simp: put_bytes_def)
  obtain t where t: "maybe_commit E s2 = (Ok (), t)"
    by (rule maybe_commit_reliable [OF assms(1)])
  have i: "new_event_id E s = (Ok (next_id E s), ?s1)"
    by (simp add: new_event_id_def Let_def)
  have n: "now E ?s1 = now E s"
    by (simp add: now_def)
  have "log_event E content s = (Ok (), t)"
    unfolding log_event_def
    by (simp add: bnd_def query_def lift_result_def nb_events_reliable [OF assms(1,3)] i n v s2 t)
  then show thesis by (rule that)
qed

section \<open>Event identifiers\<close>

text \<open>Every logged event has an identifier up to the latest one.\<close>

definition events_below :: "('m \<Rightarrow> bytes \<Rightarrow> 'v option) \<Rightarrow> ('m, 'v) ledger_storage \<Rightarrow> bool" where
  "events_below V s \<longleftrightarrow>
    (\<forall>i. length i \<le> 32 \<longrightarrow> sv V s (key_for_event i) \<noteq> None \<longrightarrow> nat_be i \<le> nat_be (latest_tid s))"

lemma event_id_add_facts:
  assumes "num_laws E" "nat_be i + unat n < 256 ^ 32"
  shows "nat_be (event_id_add E i n) = nat_be i + unat n" "length (event_id_add E i n) \<le> 32"
  using assms by (simp_all add: num_laws_def event_id_add_def)


definition empty_ledger :: "(mem, stored) ledger_storage" where
  "empty_ledger = ledger_new ([], []) True"


section \<open>Fresh subresources\<close>

lemma next_free_Ok:
  assumes "next_free E i symbols c n = Ok (c', n')" "with_subresource_id i c = Ok n" "c \<le> MAX_SUBRESOURCE_ID"
  shows "n' \<notin> set symbols \<and> with_subresource_id i c' = Ok n' \<and> c \<le> c' \<and> c' \<le> MAX_SUBRESOURCE_ID \<and>
    (\<forall>d. c \<le> d \<longrightarrow> d < c' \<longrightarrow> (\<exists>x\<in>set symbols. with_subresource_id i d = Ok x))"
  using assms
proof (induction E i symbols c n rule: next_free.induct)
  case (1 E i symbols c n)
  show ?case
  proof (cases "n \<in> set symbols")
    case True
    have le: "c + 1 \<le> MAX_SUBRESOURCE_ID"
      using 1(2) True by (subst (asm) next_free.simps) (auto split: if_splits)
    then obtain m where m: "with_subresource_id i (c + 1) = Ok m"
      and r: "next_free E i symbols (c + 1) m = Ok (c', n')"
      using 1(2) True by (subst (asm) next_free.simps) (auto split: if_splits result.splits)
    have IH: "n' \<notin> set symbols \<and> with_subresource_id i c' = Ok n' \<and> c + 1 \<le> c' \<and> c' \<le> MAX_SUBRESOURCE_ID \<and>
      (\<forall>d. c + 1 \<le> d \<longrightarrow> d < c' \<longrightarrow> (\<exists>x\<in>set symbols. with_subresource_id i d = Ok x))"
      using 1(1) [OF True _ m r m le] le by (simp add: not_less)
    have "c \<noteq> -1"
      using 1(4) by (auto simp: MAX_SUBRESOURCE_ID_def word_le_nat_alt unsigned_minus_1_eq_mask mask_eq_exp_minus_1)
    then have "c < c + 1"
      using unatSuc [of c] by (simp add: word_less_nat_alt add.commute eq_neg_iff_add_eq_0)
    then have "c \<le> c'"
      using IH by (meson less_imp_le order_trans)
    moreover have "\<exists>x\<in>set symbols. with_subresource_id i d = Ok x" if "c \<le> d" "d < c'" for d
      using that inc_le [of c d] IH 1(3) True by (cases "c = d") auto
    ultimately show ?thesis
      using IH by blast
  next
    case False
    then show ?thesis
      using 1(2-4) by (subst (asm) next_free.simps) auto
  qed
qed

lemma identity_or_root_Ok:
  assumes "merk_laws E V C" "identity_or_root E root s = Ok i"
  obtains v where "(case sv V s (utf8 root) of None \<Rightarrow> sv V s (utf8 IDENTITY_ROOT) | Some v \<Rightarrow> Some v) = Some v"
    "from_bytes (val_bytes E v) = Ok i"
proof -
  obtain x where x: "store_get E storage_get_failed (utf8 root) s = Ok x"
    and i: "(case x of None \<Rightarrow> get_identity E IDENTITY_ROOT s | Some v \<Rightarrow> from_bytes (val_bytes E v)) = Ok i"
    using assms(2) by (auto simp: identity_or_root_def act_simps)
  have x': "sv V s (utf8 root) = x"
    by (rule store_get_Ok [OF assms(1) x, symmetric])
  show thesis
  proof (cases x)
    case None
    then obtain y v where y: "store_get E storage_get_failed (utf8 IDENTITY_ROOT) s = Ok y" and "y = Some v"
      "from_bytes (val_bytes E v) = Ok i"
      using i by (auto simp: get_identity_def act_simps)
    then show thesis
      using that [of v] None x' store_get_Ok [OF assms(1) y] by simp
  next
    case (Some v)
    then show thesis
      using that [of v] x' i by simp
  qed
qed

lemma counter_key_neq:
  "key_for_subresource_counter E i b \<notin> {utf8 IDENTITY_ROOT, utf8 ACCOUNT_IDENTITY_ROOT, utf8 TOKEN_IDENTITY_ROOT}"
  by (cases b) simp_all

lemma get_next_subresource_Ok:
  assumes "merk_laws E V C" "root \<in> {ACCOUNT_IDENTITY_ROOT, TOKEN_IDENTITY_ROOT}"
    and "get_next_subresource E root s = (Ok (a, keys), t)"
  obtains i n c symbols where "identity_or_root E root s = Ok i" "get_subresource_counter E i s = Ok n"
    "get_symbols E s = Ok symbols" "a \<notin> set symbols" "with_subresource_id i c = Ok a" "n \<le> c" "c \<le> MAX_SUBRESOURCE_ID"
    "\<forall>d. n \<le> d \<longrightarrow> d < c \<longrightarrow> (\<exists>x\<in>set symbols. with_subresource_id i d = Ok x)"
    "sv V t = (sv V s)(key_for_subresource_counter E i (token_migration_active s) :=
      Some (val_of_bytes E (u32_to_be_bytes (c + 1))))"
    "sv C t = sv C s" "latest_tid t = latest_tid s" "ctx t = ctx s"
proof -
  obtain i n symbols first c a' i' s1 where i: "identity_or_root E root s = Ok i"
    and n: "get_subresource_counter E i s = Ok n" and le: "n \<le> MAX_SUBRESOURCE_ID"
    and sy: "get_symbols E s = Ok symbols" and f: "with_subresource_id i n = Ok first"
    and nf: "next_free E i symbols n first = Ok (c, a')"
    and ap: "store_apply E storage_apply_failed [(key_for_subresource_counter E i (token_migration_active s),
        put_bytes E (u32_to_be_bytes (c + 1)))] s = (Ok (), s1)"
    and i': "identity_or_root E root s1 = Ok i'" and a: "with_subresource_id i' c = Ok a" and t: "t = s1"
    using assms(3) by (auto simp: get_next_subresource_def act_simps not_less)
  note eff = store_apply_Ok [OF assms(1) ap]
  have "utf8 root \<noteq> key_for_subresource_counter E i (token_migration_active s)"
    using assms(2) counter_key_neq [of E i "token_migration_active s"] by auto
  then have "sv V s1 (utf8 root) = sv V s (utf8 root)" "sv V s1 (utf8 IDENTITY_ROOT) = sv V s (utf8 IDENTITY_ROOT)"
    using counter_key_neq [of E i "token_migration_active s"] by (auto simp: eff(2) put_bytes_def)
  moreover obtain v where "(case sv V s (utf8 root) of None \<Rightarrow> sv V s (utf8 IDENTITY_ROOT) | Some v \<Rightarrow> Some v) = Some v"
    "from_bytes (val_bytes E v) = Ok i"
    by (rule identity_or_root_Ok [OF assms(1) i])
  moreover obtain v' where "(case sv V s1 (utf8 root) of None \<Rightarrow> sv V s1 (utf8 IDENTITY_ROOT) | Some v \<Rightarrow> Some v) = Some v'"
    "from_bytes (val_bytes E v') = Ok i'"
    by (rule identity_or_root_Ok [OF assms(1) i'])
  ultimately have "i' = i"
    by (cases "sv V s (utf8 root)") simp_all
  then have "a' = a"
    using a next_free_Ok [OF nf f le] by simp
  moreover have "sv V t = (sv V s)(key_for_subresource_counter E i (token_migration_active s) :=
      Some (val_of_bytes E (u32_to_be_bytes (c + 1))))"
    by (simp add: t eff(2) put_bytes_def)
  ultimately show thesis
    using that [OF i n sy] next_free_Ok [OF nf f le] eff(3,4,5) t by blast
qed

text \<open>C18: A new account or token address is fresh: \<open>get_next_subresource\<close> returns the first
  subresource of the configured identity, from the stored counter on, that is not a known symbol, and
  moves the counter past it; nothing else in the store changes.\<close>

theorem get_next_subresource_fresh:
  assumes "merk_laws E V C" "root \<in> {ACCOUNT_IDENTITY_ROOT, TOKEN_IDENTITY_ROOT}"
    and "get_next_subresource E root s = (Ok (a, keys), t)"
  shows "\<exists>i n c symbols. identity_or_root E root s = Ok i \<and> get_subresource_counter E i s = Ok n \<and>
    get_symbols E s = Ok symbols \<and> a \<notin> set symbols \<and> with_subresource_id i c = Ok a \<and> n \<le> c \<and>
    (\<forall>d. n \<le> d \<longrightarrow> d < c \<longrightarrow> (\<exists>x\<in>set symbols. with_subresource_id i d = Ok x)) \<and>
    sv V t = (sv V s)(key_for_subresource_counter E i (token_migration_active s) :=
      Some (val_of_bytes E (u32_to_be_bytes (c + 1)))) \<and>
    latest_tid t = latest_tid s \<and> ctx t = ctx s"
  by (rule get_next_subresource_Ok [OF assms]) blast

lemma from_bytes_to_vec: "from_bytes (to_vec a) = Ok a"
  by (simp only: from_bytes_def inner_from_to_vec res_bind.simps of_byte_array_to)

definition token_store :: "(bytes \<times> stored) list" where
  "token_store = [(utf8 IDENTITY_ROOT, SBytes (to_vec (PublicKey 1))),
     (utf8 SYMBOLS_ROOT, SSymbols [(Subresource 1 0, ''FBT'')])]"

definition token_ledger :: "(mem, stored) ledger_storage" where
  "token_ledger = ledger_new (token_store, token_store) True"

lemma token_ledger_next:
  "fst (get_next_subresource mem_ext ACCOUNT_IDENTITY_ROOT token_ledger) =
     Ok (Subresource 1 1, [utf8 ACCOUNT_SUBRESOURCE_ID_ROOT, utf8 IDENTITY_ROOT])"
proof -
  have f: "from_bytes (to_vec (PublicKey 1)) = Ok (PublicKey 1)"
    by (rule from_bytes_to_vec)
  have w: "with_subresource_id (PublicKey 1) 0 = Ok (Subresource 1 0)"
    "with_subresource_id (PublicKey 1) 1 = Ok (Subresource 1 1)"
    by (simp_all add: with_subresource_id_simps MAX_SUBRESOURCE_ID_def)
  have n: "next_free mem_ext (PublicKey 1) [Subresource 1 0] 0 (Subresource 1 0) = Ok (1, Subresource 1 1)"
    by (simp add: next_free.simps w MAX_SUBRESOURCE_ID_def)
  show ?thesis
    by (simp add: get_next_subresource_def bnd_def query_def lift_result_def fail_if_def ret_def
        identity_or_root_def get_identity_def get_subresource_counter_def get_symbols_def get_symbols_and_tickers_def
        store_get_def db_get_def store_apply_def with_store_def db_apply_def mem_apply_def put_bytes_def
        token_ledger_def token_store_def ledger_new_def ms_is_active_def f w n map_of_bt_insert MAX_SUBRESOURCE_ID_def
        del: to_vec_simps)
qed

theorem get_next_subresource_fresh_witness:
  "merk_laws mem_ext mem_view mem_committed \<and> ACCOUNT_IDENTITY_ROOT \<in> {ACCOUNT_IDENTITY_ROOT, TOKEN_IDENTITY_ROOT} \<and>
   (\<exists>keys t. get_next_subresource mem_ext ACCOUNT_IDENTITY_ROOT token_ledger = (Ok (Subresource 1 1, keys), t) \<and>
     latest_tid t = latest_tid token_ledger)"
proof -
  obtain keys t where t: "get_next_subresource mem_ext ACCOUNT_IDENTITY_ROOT token_ledger = (Ok (Subresource 1 1, keys), t)"
    using token_ledger_next by (metis prod.collapse)
  have r: "ACCOUNT_IDENTITY_ROOT \<in> {ACCOUNT_IDENTITY_ROOT, TOKEN_IDENTITY_ROOT}"
    by simp
  show ?thesis
    using get_next_subresource_fresh [OF mem_laws r t] mem_laws r t by blast
qed

end
