(* ===== verification/Balances.thy ===== *)
theory Balances
  imports Storage
begin

text \<open>
  Balances: \<open>src/src/many-ledger/src/storage/ledger.rs\<close>, \<open>storage/ledger_commands.rs\<close> and the account
  counters of \<open>storage/data.rs\<close> with their initial values from \<open>migration/data.rs\<close>. The properties are
  the effect of a transfer on every balance, its errors, that it succeeds whenever it may, that it
  conserves every token, and that the account counters stay what a recount of the store gives.
\<close>

section \<open>Reading balances\<close>

text \<open>\<open>TokenAmount::from\<close> and \<open>to_vec\<close> are the big-endian bytes of the number.\<close>

definition amount_of :: "('m, 'v) ext \<Rightarrow> 'v \<Rightarrow> token_amount" where
  "amount_of E v = bu_from_bytes_be E (val_bytes E v)"

definition put_amount :: "('m, 'v) ext \<Rightarrow> token_amount \<Rightarrow> 'v merk_op" where
  "put_amount E n = Put (val_of_bytes E (bu_to_bytes_be E n))"

definition get_balance :: "('m, 'v) ext \<Rightarrow> address \<Rightarrow> symbol \<Rightarrow> ('m, 'v) ledger_storage \<Rightarrow> token_amount result" where
  "get_balance E i symbol s =
    (if is_anonymous i then Ok 0
     else res_bind (store_get E storage_get_failed (key_for_account_balance E i symbol) s) (\<lambda>x.
       Ok (case x of None \<Rightarrow> 0 | Some v \<Rightarrow> amount_of E v)))"

definition get_all_balances :: "('m, 'v) ext \<Rightarrow> address \<Rightarrow> ('m, 'v) ledger_storage \<Rightarrow> ((symbol, token_amount) btree_map \<times> bytes list) result" where
  "get_all_balances E i s =
    (if is_anonymous i then Ok ([], [])
     else
       res_bind (get_symbols E s) (\<lambda>symbols.
       res_bind
         (res_fold (\<lambda>symbol result.
            res_bind (store_get E storage_get_failed (key_for_account_balance E i symbol) s) (\<lambda>x.
            Ok (case x of None \<Rightarrow> result | Some v \<Rightarrow> bt_insert symbol (amount_of E v) result))) symbols [])
         (\<lambda>result.
       res_bind (get_symbols E s) (\<lambda>symbols'.
       Ok (result, map (key_for_account_balance E i) symbols')))))"

definition get_multiple_balances ::
  "('m, 'v) ext \<Rightarrow> address \<Rightarrow> symbol list \<Rightarrow> ('m, 'v) ledger_storage \<Rightarrow> ((symbol, token_amount) btree_map \<times> bytes list) result" where
  "get_multiple_balances E i symbols s =
    res_bind (get_all_balances E i s) (\<lambda>(balances, keys).
    Ok (if symbols = [] then balances else filter (\<lambda>e. fst e \<in> set symbols) balances, keys))"

section \<open>The initial balances\<close>

definition balance_entries ::
  "('m, 'v) ext \<Rightarrow> (symbol, string) btree_map \<Rightarrow> address \<times> (symbol, token_amount) btree_map \<Rightarrow>
   (bytes \<times> 'v merk_op) list \<Rightarrow> (bytes \<times> 'v merk_op) list result" where
  "balance_entries E symbols e batch =
    res_fold (\<lambda>(symbol, tokens) batch.
      if map_of symbols symbol = None
      then Err (unknown (''Unknown symbol '' @ [CHR 0x22] @ to_string E symbol @ [CHR 0x22] @ '' for identity '' @ to_string E (fst e)))
      else Ok (batch @ [(key_for_account_balance E (fst e) symbol, put_amount E tokens)])) (snd e) batch"

definition with_balances ::
  "('m, 'v) ext \<Rightarrow> address \<Rightarrow> (symbol, string) btree_map \<Rightarrow>
   (address, (symbol, token_amount) btree_map) btree_map \<Rightarrow> ('m, 'v, unit) led" where
  "with_balances E identity symbols initial_balances =
    bnd (lift_result (res_fold (balance_entries E symbols) initial_balances [])) (\<lambda>batch.
    bnd (lift_result (from_sum serialization_error (enc (symbols_codec E) symbols))) (\<lambda>v.
    store_apply E storage_apply_failed (sort_key fst
      (batch @ [(utf8 IDENTITY_ROOT, put_bytes E (to_vec identity)), (utf8 SYMBOLS_ROOT, Put v)]))))"

section \<open>Account counters\<close>

definition ACCOUNT_TOTAL_COUNT_INDEX :: attribute_related_index where
  "ACCOUNT_TOTAL_COUNT_INDEX = with_index (with_index (ari_new 0) 2) 0"

definition NON_ZERO_ACCOUNT_TOTAL_COUNT_INDEX :: attribute_related_index where
  "NON_ZERO_ACCOUNT_TOTAL_COUNT_INDEX = with_index (with_index (ari_new 0) 2) 1"

text \<open>A decoding failure panics.\<close>

definition data_info_of :: "('m, 'v) ext \<Rightarrow> ('m, 'v) ledger_storage \<Rightarrow> (attribute_related_index \<times> data_info) list option result" where
  "data_info_of E s =
    res_bind (store_get E storage_get_failed DATA_INFO_KEY s) (\<lambda>x.
    case x of None \<Rightarrow> Ok None | Some v \<Rightarrow> res_bind (unwrap_sum (dec (data_info_codec E) v)) (\<lambda>i. Ok (Some i)))"

definition data_attributes :: "('m, 'v) ext \<Rightarrow> ('m, 'v) ledger_storage \<Rightarrow> (attribute_related_index \<times> data_value) list option result" where
  "data_attributes E s =
    res_bind (store_get E storage_get_failed DATA_ATTRIBUTES_KEY s) (\<lambda>x.
    case x of None \<Rightarrow> Ok None | Some v \<Rightarrow> res_bind (unwrap_sum (dec (data_attributes_codec E) v)) (\<lambda>i. Ok (Some i)))"

text \<open>\<open>entry(index).and_modify(..)\<close> on a counter; the addition and the subtraction wrap.\<close>

definition modify_counter :: "attribute_related_index \<Rightarrow> (u64 \<Rightarrow> u64) \<Rightarrow> (attribute_related_index \<times> data_value) list \<Rightarrow> (attribute_related_index \<times> data_value) list" where
  "modify_counter i f attributes =
    map (\<lambda>(k, v). (k, if k = i then (case v of Counter c \<Rightarrow> Counter (f c) | _ \<Rightarrow> v) else v)) attributes"

definition count_update :: "bool \<Rightarrow> bool \<Rightarrow> bool \<Rightarrow> (attribute_related_index \<times> data_value) list \<Rightarrow> (attribute_related_index \<times> data_value) list" where
  "count_update destination_is_empty destination_is_zero origin_emptied a0 =
    (let a1 = (if destination_is_empty then modify_counter ACCOUNT_TOTAL_COUNT_INDEX (\<lambda>c. c + 1) a0 else a0);
         a2 = (if destination_is_zero \<or> destination_is_empty
               then modify_counter NON_ZERO_ACCOUNT_TOTAL_COUNT_INDEX (\<lambda>c. c + 1) a1 else a1)
     in if origin_emptied then modify_counter NON_ZERO_ACCOUNT_TOTAL_COUNT_INDEX (\<lambda>c. c - 1) a2 else a2)"

definition update_account_count ::
  "('m, 'v) ext \<Rightarrow> address \<Rightarrow> address \<Rightarrow> token_amount \<Rightarrow> symbol \<Rightarrow> ('m, 'v, unit) led" where
  "update_account_count E from to amount symbol =
    bnd (query (data_attributes E)) (\<lambda>r.
    case r of
      None \<Rightarrow> ret ()
    | Some attributes \<Rightarrow>
        bnd (query (store_get E storage_get_failed (key_for_account_balance E to symbol))) (\<lambda>d.
        bnd (query (get_balance E to symbol)) (\<lambda>b.
        bnd (query (get_balance E from symbol)) (\<lambda>origin_balance.
        bnd (lift_result (unwrap_sum (enc (data_attributes_codec E)
              (count_update (d = None) (b = 0) (origin_balance = amount) attributes)))) (\<lambda>v.
        store_apply E storage_apply_failed [(DATA_ATTRIBUTES_KEY, Put v)])))))"

section \<open>Transfers\<close>

definition send ::
  "('m, 'v) ext \<Rightarrow> address \<Rightarrow> address \<Rightarrow> symbol \<Rightarrow> token_amount \<Rightarrow> memo option \<Rightarrow> ('m, 'v, bytes list) led" where
  "send E from to symbol amount memo =
    bnd (fail_if (from = to) destination_is_source) (\<lambda>_.
    bnd (fail_if (amount = 0) amount_is_zero) (\<lambda>_.
    bnd (fail_if (is_anonymous to \<or> is_anonymous from) anonymous_cannot_hold_funds) (\<lambda>_.
    bnd (query (get_balance E from symbol)) (\<lambda>amount_from.
    bnd (fail_if (amount > amount_from) insufficient_funds) (\<lambda>_.
    bnd (query (get_balance E to symbol)) (\<lambda>amount_to.
    bnd (lift_result (sub_amount amount_from amount)) (\<lambda>new_from.
    let new_to = amount_to + amount;
        key_from = key_for_account_balance E from symbol;
        key_to = key_for_account_balance E to symbol;
        batch = (if key_from \<le> key_to
                 then [(key_from, put_amount E new_from), (key_to, put_amount E new_to)]
                 else [(key_to, put_amount E new_to), (key_from, put_amount E new_from)])
    in
    bnd (update_account_count E from to amount symbol) (\<lambda>_.
    bnd (store_apply E storage_apply_failed batch) (\<lambda>_.
    bnd (log_event E (EvSend from to symbol amount memo)) (\<lambda>_.
    bnd (maybe_commit E) (\<lambda>_.
    ret [key_from, key_to])))))))))))"

section \<open>Recounting\<close>

text \<open>\<open>get_data_from_db\<close> of the account-count migration.\<close>

definition get_data_from_db :: "('m, 'v) ext \<Rightarrow> 'm \<Rightarrow> (u64 \<times> u64) result" where
  "get_data_from_db E m =
    res_fold (\<lambda>item (n, z).
        res_bind (from_sum unknown item) (\<lambda>(k, v).
        Ok (n + 1, if amount_of E v \<noteq> 0 then z + 1 else z)))
      (merk_iter E m IterStart (PrefixRange BALANCES_ROOT_BYTES)) (0, 0)"

definition data_value_init :: "u64 \<Rightarrow> u64 \<Rightarrow> (attribute_related_index \<times> data_value) list" where
  "data_value_init n z =
    [(ACCOUNT_TOTAL_COUNT_INDEX, Counter n), (NON_ZERO_ACCOUNT_TOTAL_COUNT_INDEX, Counter z)]"

definition data_info_init :: "(attribute_related_index \<times> data_info) list" where
  "data_info_init =
    [(ACCOUNT_TOTAL_COUNT_INDEX, \<lparr>di_type = DataCounter, di_shortname = ''accountTotalCount''\<rparr>),
     (NON_ZERO_ACCOUNT_TOTAL_COUNT_INDEX, \<lparr>di_type = DataCounter, di_shortname = ''nonZeroAccountTotalCount''\<rparr>)]"

definition data_initialize :: "('m, 'v) ext \<Rightarrow> extra \<Rightarrow> ('m, unit) act" where
  "data_initialize E extra =
    bnd (query (get_data_from_db E)) (\<lambda>(n, z).
    bnd (lift_result (from_sum serialization_error (enc (data_attributes_codec E) (data_value_init n z)))) (\<lambda>a.
    bnd (lift_result (from_sum serialization_error (enc (data_info_codec E) data_info_init))) (\<lambda>i.
    db_apply E storage_apply_failed [(DATA_ATTRIBUTES_KEY, Put a), (DATA_INFO_KEY, Put i)])))"

section \<open>Effects\<close>

text \<open>The amount stored under a key.\<close>

definition amount_at :: "('m, 'v) ext \<Rightarrow> (bytes \<Rightarrow> 'v option) \<Rightarrow> bytes \<Rightarrow> token_amount" where
  "amount_at E f k = (case f k of None \<Rightarrow> 0 | Some v \<Rightarrow> amount_of E v)"

abbreviation balance_at :: "('m, 'v) ext \<Rightarrow> (bytes \<Rightarrow> 'v option) \<Rightarrow> address \<Rightarrow> symbol \<Rightarrow> token_amount" where
  "balance_at E f a symbol \<equiv> amount_at E f (key_for_account_balance E a symbol)"

abbreviation amount_val :: "('m, 'v) ext \<Rightarrow> token_amount \<Rightarrow> 'v" where
  "amount_val E n \<equiv> val_of_bytes E (bu_to_bytes_be E n)"

lemma amount_of_val:
  assumes "merk_laws E V C"
  shows "amount_of E (amount_val E n) = n"
  using merk_laws_num [OF assms] by (simp add: amount_of_def merk_laws_val [OF assms] num_laws_def)

lemma amount_at_upd [simp]: "amount_at E (f(k := Some v)) k' = (if k' = k then amount_of E v else amount_at E f k')"
  by (simp add: amount_at_def)

lemma get_balance_Ok:
  assumes "merk_laws E V C" "get_balance E a symbol s = Ok n"
  shows "n = (if a = Anonymous then 0 else balance_at E (sv V s) a symbol)"
  using assms(2) by (auto simp: get_balance_def is_anonymous_iff act_simps amount_at_def
      dest!: store_get_Ok [OF assms(1)] split: if_splits)

lemma get_balance_reliable:
  assumes "merk_reliable E V C"
  shows "get_balance E a symbol s = Ok (if a = Anonymous then 0 else balance_at E (sv V s) a symbol)"
  by (simp add: get_balance_def is_anonymous_iff store_get_reliable [OF assms] amount_at_def)

text \<open>The counters change the attribute entry only, when there is one.\<close>

definition counted :: "('m, 'v) ext \<Rightarrow> (bytes \<Rightarrow> 'v option) \<Rightarrow> (bytes \<Rightarrow> 'v option) \<Rightarrow> address \<Rightarrow> address \<Rightarrow> token_amount \<Rightarrow> symbol \<Rightarrow> bool" where
  "counted E f g from to amount symbol \<longleftrightarrow>
    (case f DATA_ATTRIBUTES_KEY of
       None \<Rightarrow> g = f
     | Some v \<Rightarrow> \<exists>attributes v'. dec (data_attributes_codec E) v = Inr attributes \<and>
         enc (data_attributes_codec E)
           (count_update (f (key_for_account_balance E to symbol) = None) (balance_at E f to symbol = 0)
             (balance_at E f from symbol = amount) attributes) = Inr v' \<and>
         g = f(DATA_ATTRIBUTES_KEY := Some v'))"

lemma data_attributes_Ok:
  assumes "merk_laws E V C" "data_attributes E s = Ok r"
  shows "case sv V s DATA_ATTRIBUTES_KEY of None \<Rightarrow> r = None
    | Some v \<Rightarrow> (\<exists>a. dec (data_attributes_codec E) v = Inr a \<and> r = Some a)"
  using assms(2) by (auto simp: data_attributes_def act_simps dest!: store_get_Ok [OF assms(1)] split: option.splits)

lemma update_account_count_Ok:
  assumes "merk_laws E V C" "update_account_count E from to amount symbol s = (Ok u, t)"
    and "from \<noteq> Anonymous" "to \<noteq> Anonymous"
  shows "counted E (sv V s) (sv V t) from to amount symbol" "ctx t = ctx s" "latest_tid t = latest_tid s"
proof -
  obtain r where r: "data_attributes E s = Ok r"
    and k: "(case r of
      None \<Rightarrow> ret ()
    | Some attributes \<Rightarrow>
        bnd (query (store_get E storage_get_failed (key_for_account_balance E to symbol))) (\<lambda>d.
        bnd (query (get_balance E to symbol)) (\<lambda>b.
        bnd (query (get_balance E from symbol)) (\<lambda>origin_balance.
        bnd (lift_result (unwrap_sum (enc (data_attributes_codec E)
              (count_update (d = None) (b = 0) (origin_balance = amount) attributes)))) (\<lambda>v.
        store_apply E storage_apply_failed [(DATA_ATTRIBUTES_KEY, Put v)]))))) s = (Ok u, t)"
    using assms(2) by (auto simp: update_account_count_def act_simps)
  have "counted E (sv V s) (sv V t) from to amount symbol \<and> ctx t = ctx s \<and> latest_tid t = latest_tid s"
  proof (cases r)
    case None
    then show ?thesis
      using k data_attributes_Ok [OF assms(1) r] by (auto simp: act_simps counted_def split: option.splits)
  next
    case (Some attributes)
    obtain d b ob v where d: "store_get E storage_get_failed (key_for_account_balance E to symbol) s = Ok d"
      and b: "get_balance E to symbol s = Ok b" and ob: "get_balance E from symbol s = Ok ob"
      and v: "enc (data_attributes_codec E) (count_update (d = None) (b = 0) (ob = amount) attributes) = Inr v"
      and ap: "store_apply E storage_apply_failed [(DATA_ATTRIBUTES_KEY, Put v)] s = (Ok u, t)"
      using k Some by (auto simp: act_simps)
    show ?thesis
      using data_attributes_Ok [OF assms(1) r] Some v store_get_Ok [OF assms(1) d] get_balance_Ok [OF assms(1) b]
        get_balance_Ok [OF assms(1) ob] store_apply_Ok [OF assms(1) ap] assms(3,4)
      by (auto simp: counted_def split: option.splits)
  qed
  then show "counted E (sv V s) (sv V t) from to amount symbol" "ctx t = ctx s" "latest_tid t = latest_tid s"
    by blast+
qed

lemma counted_other: "counted E f g from to amount symbol \<Longrightarrow> k \<noteq> DATA_ATTRIBUTES_KEY \<Longrightarrow> g k = f k"
  by (auto simp: counted_def split: option.splits)

text \<open>Everything a successful transfer does to the store.\<close>

lemma send_Ok:
  assumes "merk_laws E V C" "send E from to symbol amount memo s = (Ok keys, t)"
  obtains g v where
    "from \<noteq> to" "amount \<noteq> 0" "to \<noteq> Anonymous" "from \<noteq> Anonymous" "amount \<le> balance_at E (sv V s) from symbol"
    "counted E (sv V s) g from to amount symbol"
    "enc (event_codec E) \<lparr>el_id = next_id E s, el_time = now E s, el_content = EvSend from to symbol amount memo\<rparr> = Inr v"
    "sv V t = g(key_for_account_balance E from symbol := Some (amount_val E (balance_at E (sv V s) from symbol - amount)),
       key_for_account_balance E to symbol := Some (amount_val E (balance_at E (sv V s) to symbol + amount)),
       key_for_event (next_id E s) := Some v,
       EVENT_COUNT_ROOT := Some (val_of_bytes E (u64_to_be_bytes (u64_at E EVENT_COUNT_ROOT (sv V s) + 1))))"
    "latest_tid t = next_id E s" "ctx t = ctx s"
    "keys = [key_for_account_balance E from symbol, key_for_account_balance E to symbol]"
proof -
  let ?kf = "key_for_account_balance E from symbol" and ?kt = "key_for_account_balance E to symbol"
  let ?batch = "\<lambda>nf nt. if ?kf \<le> ?kt then [(?kf, put_amount E nf), (?kt, put_amount E nt)]
      else [(?kt, put_amount E nt), (?kf, put_amount E nf)]"
  obtain af at s1 s2 s3 where pre: "from \<noteq> to" "amount \<noteq> 0" "to \<noteq> Anonymous" "from \<noteq> Anonymous"
    and af: "get_balance E from symbol s = Ok af" and at: "get_balance E to symbol s = Ok at" and le: "amount \<le> af"
    and uc: "update_account_count E from to amount symbol s = (Ok (), s1)"
    and ap: "store_apply E storage_apply_failed (?batch (af - amount) (at + amount)) s1 = (Ok (), s2)"
    and lg: "log_event E (EvSend from to symbol amount memo) s2 = (Ok (), s3)"
    and mc: "maybe_commit E s3 = (Ok (), t)" and keys: "keys = [?kf, ?kt]"
    using assms(2) by (auto simp: send_def Let_def act_simps is_anonymous_iff not_less)
  have bal: "af = balance_at E (sv V s) from symbol" "at = balance_at E (sv V s) to symbol"
    using get_balance_Ok [OF assms(1) af] get_balance_Ok [OF assms(1) at] pre by simp_all
  note c = update_account_count_Ok [OF assms(1) uc pre(4,3)]
  have ne: "?kf \<noteq> ?kt"
    using pre(1) key_for_account_balance_inject [OF merk_laws_addr [OF assms(1)]] by simp
  have s2: "sv V s2 = (sv V s1)(?kf := Some (amount_val E (af - amount)), ?kt := Some (amount_val E (at + amount)))"
    "ctx s2 = ctx s1" "latest_tid s2 = latest_tid s1"
    using store_apply_Ok(2,4,5) [OF assms(1) ap] ne by (auto simp: put_amount_def fun_upd_twist split: if_splits)
  obtain v where v: "enc (event_codec E) \<lparr>el_id = next_id E s2, el_time = now E s2, el_content = EvSend from to symbol amount memo\<rparr> = Inr v"
    and s3: "sv V s3 = (sv V s2)(key_for_event (next_id E s2) := Some v,
       EVENT_COUNT_ROOT := Some (val_of_bytes E (u64_to_be_bytes (u64_at E EVENT_COUNT_ROOT (sv V s2) + 1))))"
    and l3: "latest_tid s3 = next_id E s2" "ctx s3 = ctx s2"
    by (rule log_event_Ok [OF assms(1) lg])
  have now: "now E s2 = now E s"
    by (rule ctx_eqD) (simp add: s2 c)
  have cnt: "u64_at E EVENT_COUNT_ROOT (sv V s2) = u64_at E EVENT_COUNT_ROOT (sv V s)"
    using counted_other [OF c(1), of EVENT_COUNT_ROOT] by (simp add: u64_at_def s2)
  note m = maybe_commit_Ok [OF assms(1) mc]
  show thesis
    by (rule that [of "sv V s1" v])
      (use pre le bal c v s3 l3 now cnt m s2 keys in \<open>simp_all\<close>)
qed

lemma update_account_count_committed:
  assumes "merk_laws E V C" "update_account_count E from to amount symbol s = (Ok u, t)"
  shows "sv C t = sv C s" "blockchain t = blockchain s"
proof -
  have "sv C t = sv C s \<and> ctx t = ctx s"
    using assms(2) store_apply_Ok(3,4) [OF assms(1)]
    by (auto simp: update_account_count_def act_simps split: option.splits)
  then show "sv C t = sv C s" "blockchain t = blockchain s"
    using ctx_eqD(1) by blast+
qed

lemma send_committed:
  assumes "merk_laws E V C" "send E from to symbol amount memo s = (Ok keys, t)"
  shows "sv C t = (if blockchain s then sv C s else sv V t)"
proof -
  obtain s1 s2 s3 ops where uc: "update_account_count E from to amount symbol s = (Ok (), s1)"
    and ap: "store_apply E storage_apply_failed ops s1 = (Ok (), s2)"
    and lg: "log_event E (EvSend from to symbol amount memo) s2 = (Ok (), s3)"
    and mc: "maybe_commit E s3 = (Ok (), t)"
    using assms(2) by (auto simp: send_def Let_def act_simps)
  have "ctx s3 = ctx s2"
    using log_event_Ok [OF assms(1) lg] by blast
  then have "blockchain s3 = blockchain s" "blockchain s2 = blockchain s"
    using update_account_count_committed(2) [OF assms(1) uc] ctx_eqD(1) [OF store_apply_Ok(4) [OF assms(1) ap]]
      ctx_eqD(1) by auto
  then show ?thesis
    using update_account_count_committed(1) [OF assms(1) uc] store_apply_Ok(3) [OF assms(1) ap]
      log_event_committed [OF assms(1) lg] maybe_commit_Ok [OF assms(1) mc] by simp
qed

section \<open>What a transfer does\<close>

lemma send_balances:
  assumes "merk_laws E V C" "send E from to symbol amount memo s = (Ok keys, t)"
  shows "balance_at E (sv V t) a sy =
    (if sy = symbol \<and> a = from then balance_at E (sv V s) from symbol - amount
     else if sy = symbol \<and> a = to then balance_at E (sv V s) to symbol + amount
     else balance_at E (sv V s) a sy)"
proof -
  obtain g v where pre: "from \<noteq> to" and c: "counted E (sv V s) g from to amount symbol"
    and t: "sv V t = g(key_for_account_balance E from symbol := Some (amount_val E (balance_at E (sv V s) from symbol - amount)),
       key_for_account_balance E to symbol := Some (amount_val E (balance_at E (sv V s) to symbol + amount)),
       key_for_event (next_id E s) := Some v,
       EVENT_COUNT_ROOT := Some (val_of_bytes E (u64_to_be_bytes (u64_at E EVENT_COUNT_ROOT (sv V s) + 1))))"
    by (rule send_Ok [OF assms]) metis
  have "amount_at E g (key_for_account_balance E a sy) = balance_at E (sv V s) a sy"
    using counted_other [OF c, of "key_for_account_balance E a sy"] by (simp add: amount_at_def)
  then show ?thesis
    using pre key_for_account_balance_inject [OF merk_laws_addr [OF assms(1)]]
    by (auto simp: t amount_of_val [OF assms(1)])
qed

lemma send_sum:
  assumes "merk_laws E V C" "send E from to symbol amount memo s = (Ok keys, t)"
    and "finite A" "from \<in> A" "to \<in> A"
  shows "(\<Sum>a\<in>A. balance_at E (sv V t) a sy) = (\<Sum>a\<in>A. balance_at E (sv V s) a sy)"
proof (cases "sy = symbol")
  case True
  have pre: "from \<noteq> to" "amount \<le> balance_at E (sv V s) from symbol"
    by (rule send_Ok [OF assms(1,2)], simp)+
  let ?R = "A - {from} - {to}"
  have split: "(\<Sum>a\<in>A. f a) = f from + (f to + (\<Sum>a\<in>?R. f a))" for f :: "address \<Rightarrow> nat"
    using assms(3-5) pre(1) by (simp add: sum.remove)
  have "(\<Sum>a\<in>?R. balance_at E (sv V t) a sy) = (\<Sum>a\<in>?R. balance_at E (sv V s) a sy)"
    by (rule sum.cong) (auto simp: send_balances [OF assms(1,2)])
  then show ?thesis
    unfolding split using pre True by (simp add: send_balances [OF assms(1,2)])
qed (simp add: send_balances [OF assms(1,2)])

text \<open>C2: A successful transfer moves exactly the amount: it had to be positive and covered by the
  balance of the sender, both parties are different and not anonymous, the two balances change by the
  amount, and no balance of any other address or token changes.\<close>

theorem send_moves_funds:
  assumes "merk_laws E V C" "send E from to symbol amount memo s = (Ok keys, t)"
  shows "from \<noteq> to \<and> 0 < amount \<and> from \<noteq> Anonymous \<and> to \<noteq> Anonymous \<and>
    amount \<le> balance_at E (sv V s) from symbol \<and>
    balance_at E (sv V t) from symbol = balance_at E (sv V s) from symbol - amount \<and>
    balance_at E (sv V t) to symbol = balance_at E (sv V s) to symbol + amount \<and>
    (\<forall>a sy. (a, sy) \<noteq> (from, symbol) \<longrightarrow> (a, sy) \<noteq> (to, symbol) \<longrightarrow>
       balance_at E (sv V t) a sy = balance_at E (sv V s) a sy)"
proof -
  have pre: "from \<noteq> to" "amount \<noteq> 0" "to \<noteq> Anonymous" "from \<noteq> Anonymous" "amount \<le> balance_at E (sv V s) from symbol"
    by (rule send_Ok [OF assms], simp)+
  show ?thesis
    using pre by (simp add: send_balances [OF assms])
qed

text \<open>A transfer conserves every token: the sum of the balances of a token over any finite set of
  addresses with both parties in it is the same before and after.\<close>

theorem send_conserves:
  assumes "merk_laws E V C" "send E from to symbol amount memo s = (Ok keys, t)"
    and "finite A" "from \<in> A" "to \<in> A"
  shows "(\<Sum>a\<in>A. balance_at E (sv V t) a sy) = (\<Sum>a\<in>A. balance_at E (sv V s) a sy)"
  by (rule send_sum [OF assms])

section \<open>Outcomes of a transfer\<close>

lemma update_account_count_reliable:
  assumes "merk_reliable E V C" "codec_total (data_attributes_codec E)"
    and "\<And>v. sv V s DATA_ATTRIBUTES_KEY = Some v \<Longrightarrow> \<exists>a. dec (data_attributes_codec E) v = Inr a"
  obtains t where "update_account_count E from to amount symbol s = (Ok (), t)"
proof (cases "sv V s DATA_ATTRIBUTES_KEY")
  case None
  then show thesis
    using that by (simp add: update_account_count_def bnd_def query_def data_attributes_def store_get_reliable [OF assms(1)] ret_def)
next
  case (Some v)
  then obtain a where a: "dec (data_attributes_codec E) v = Inr a"
    using assms(3) by blast
  let ?d = "sv V s (key_for_account_balance E to symbol)"
  let ?b = "if to = Anonymous then 0 else balance_at E (sv V s) to symbol"
  let ?o = "if from = Anonymous then 0 else balance_at E (sv V s) from symbol"
  obtain v' where v': "enc (data_attributes_codec E) (count_update (?d = None) (?b = 0) (?o = amount) a) = Inr v'"
    using assms(2) by (auto simp: codec_total_def)
  obtain t where t: "store_apply E storage_apply_failed [(DATA_ATTRIBUTES_KEY, Put v')] s = (Ok (), t)"
    by (rule store_apply_reliable [OF assms(1)]) auto
  have "update_account_count E from to amount symbol s = (Ok (), t)"
    unfolding update_account_count_def
    using Some a v' t
    by (simp add: bnd_def query_def lift_result_def data_attributes_def store_get_reliable [OF assms(1)]
        get_balance_reliable [OF assms(1)])
  then show thesis by (rule that)
qed

text \<open>What a transfer answers on a store without I/O errors.\<close>

definition send_error :: "token_amount \<Rightarrow> address \<Rightarrow> address \<Rightarrow> token_amount \<Rightarrow> many_error option" where
  "send_error balance from to amount =
    (if from = to then Some destination_is_source
     else if amount = 0 then Some amount_is_zero
     else if to = Anonymous \<or> from = Anonymous then Some anonymous_cannot_hold_funds
     else if amount > balance then Some insufficient_funds
     else None)"

lemma send_succeeds:
  assumes "merk_laws E V C" "merk_reliable E V C" "codec_total (event_codec E)" "codec_total (data_attributes_codec E)"
    and "\<And>v. sv V s DATA_ATTRIBUTES_KEY = Some v \<Longrightarrow> \<exists>a. dec (data_attributes_codec E) v = Inr a"
    and "u64_slot E EVENT_COUNT_ROOT (sv V s)"
    and "send_error (balance_at E (sv V s) from symbol) from to amount = None"
  obtains t where "send E from to symbol amount memo s =
    (Ok [key_for_account_balance E from symbol, key_for_account_balance E to symbol], t)"
proof -
  let ?kf = "key_for_account_balance E from symbol" and ?kt = "key_for_account_balance E to symbol"
  let ?nf = "balance_at E (sv V s) from symbol - amount" and ?nt = "balance_at E (sv V s) to symbol + amount"
  let ?batch = "if ?kf \<le> ?kt then [(?kf, put_amount E ?nf), (?kt, put_amount E ?nt)]
      else [(?kt, put_amount E ?nt), (?kf, put_amount E ?nf)]"
  have pre: "from \<noteq> to" "amount \<noteq> 0" "to \<noteq> Anonymous" "from \<noteq> Anonymous" "amount \<le> balance_at E (sv V s) from symbol"
    using assms(7) by (auto simp: send_error_def split: if_splits)
  obtain s1 where s1: "update_account_count E from to amount symbol s = (Ok (), s1)"
    by (rule update_account_count_reliable [OF assms(2,4,5)])
  have ne: "?kf \<noteq> ?kt"
    using pre(1) key_for_account_balance_inject [OF merk_laws_addr [OF assms(1)]] by simp
  then have sorted: "keys_sorted ?batch"
    by auto
  obtain s2 where s2: "store_apply E storage_apply_failed ?batch s1 = (Ok (), s2)"
    by (rule store_apply_reliable [OF assms(2) sorted]) (auto simp: put_amount_def)
  note c = counted_other [OF update_account_count_Ok(1) [OF assms(1) s1 pre(4,3)], of EVENT_COUNT_ROOT]
  have "sv V s2 EVENT_COUNT_ROOT = sv V s1 EVENT_COUNT_ROOT"
    using store_apply_Ok(2) [OF assms(1) s2] by (auto simp: put_amount_def split: if_splits)
  with c assms(6) have "u64_slot E EVENT_COUNT_ROOT (sv V s2)"
    by (simp add: u64_slot_def)
  then obtain s3 where s3: "log_event E (EvSend from to symbol amount memo) s2 = (Ok (), s3)"
    by (rule log_event_reliable [OF assms(2,3)])
  obtain t where t: "maybe_commit E s3 = (Ok (), t)"
    by (rule maybe_commit_reliable [OF assms(2)])
  have "send E from to symbol amount memo s = (Ok [?kf, ?kt], t)"
    unfolding send_def using pre s1 s2 s3 t
    by (simp add: bnd_def query_def lift_result_def fail_if_def ret_def Let_def is_anonymous_iff
        get_balance_reliable [OF assms(2)] sub_amount_def)
  then show thesis by (rule that)
qed

text \<open>C21: On a store without I/O errors a transfer is decided by its arguments and the balance of the
  sender alone: it fails with the first of the four errors that applies and changes nothing, and
  otherwise it succeeds and reports the two balance keys.\<close>

theorem send_outcome:
  assumes "merk_laws E V C" "merk_reliable E V C" "codec_total (event_codec E)" "codec_total (data_attributes_codec E)"
    and "\<And>v. sv V s DATA_ATTRIBUTES_KEY = Some v \<Longrightarrow> \<exists>a. dec (data_attributes_codec E) v = Inr a"
    and "u64_slot E EVENT_COUNT_ROOT (sv V s)"
  shows "case send_error (balance_at E (sv V s) from symbol) from to amount of
      Some e \<Rightarrow> send E from to symbol amount memo s = (Err e, s)
    | None \<Rightarrow> \<exists>t. send E from to symbol amount memo s =
        (Ok [key_for_account_balance E from symbol, key_for_account_balance E to symbol], t)"
proof (cases "send_error (balance_at E (sv V s) from symbol) from to amount")
  case None
  obtain t where "send E from to symbol amount memo s =
      (Ok [key_for_account_balance E from symbol, key_for_account_balance E to symbol], t)"
    by (rule send_succeeds [OF assms None])
  then show ?thesis
    using None by simp
next
  case (Some e)
  then show ?thesis
    by (auto simp: send_error_def send_def bnd_def query_def fail_if_def fail_def is_anonymous_iff
        get_balance_reliable [OF assms(2)] split: if_splits)
qed

section \<open>The account counters\<close>

definition balance_keys :: "(bytes \<Rightarrow> 'v option) \<Rightarrow> bytes set" where
  "balance_keys f = {k. in_iter_range (PrefixRange BALANCES_ROOT_BYTES) k \<and> f k \<noteq> None}"

definition nonzero_keys :: "('m, 'v) ext \<Rightarrow> (bytes \<Rightarrow> 'v option) \<Rightarrow> bytes set" where
  "nonzero_keys E f = {k \<in> balance_keys f. amount_at E f k \<noteq> 0}"

text \<open>The stored counters are the numbers of balance entries and of non-zero ones, modulo their width.\<close>

definition counters_agree :: "('m, 'v) ext \<Rightarrow> (bytes \<Rightarrow> 'v option) \<Rightarrow> bool" where
  "counters_agree E f \<longleftrightarrow> finite (balance_keys f) \<and>
    (\<exists>v a. f DATA_ATTRIBUTES_KEY = Some v \<and> dec (data_attributes_codec E) v = Inr a \<and>
      map_of a ACCOUNT_TOTAL_COUNT_INDEX = Some (Counter (of_nat (card (balance_keys f)))) \<and>
      map_of a NON_ZERO_ACCOUNT_TOTAL_COUNT_INDEX = Some (Counter (of_nat (card (nonzero_keys E f)))))"

lemma indices_neq [simp]:
  "ACCOUNT_TOTAL_COUNT_INDEX \<noteq> NON_ZERO_ACCOUNT_TOTAL_COUNT_INDEX"
  "NON_ZERO_ACCOUNT_TOTAL_COUNT_INDEX \<noteq> ACCOUNT_TOTAL_COUNT_INDEX"
  by (simp_all add: ACCOUNT_TOTAL_COUNT_INDEX_def NON_ZERO_ACCOUNT_TOTAL_COUNT_INDEX_def with_index_def ari_new_def)

lemma map_of_modify_counter:
  "map_of (modify_counter i f a) j =
    (if j = i then map_option (\<lambda>v. case v of Counter c \<Rightarrow> Counter (f c) | _ \<Rightarrow> v) (map_of a j) else map_of a j)"
  by (induction a) (auto simp: modify_counter_def split: data_value.splits)

lemma balance_range [simp]:
  "in_iter_range (PrefixRange BALANCES_ROOT_BYTES) (key_for_account_balance E a symbol)"
  "\<not> in_iter_range (PrefixRange BALANCES_ROOT_BYTES) (key_for_event i)"
  "\<not> in_iter_range (PrefixRange BALANCES_ROOT_BYTES) EVENT_COUNT_ROOT"
  "\<not> in_iter_range (PrefixRange BALANCES_ROOT_BYTES) DATA_ATTRIBUTES_KEY"
  "\<not> in_iter_range (PrefixRange BALANCES_ROOT_BYTES) DATA_INFO_KEY"
  by (simp_all add: in_iter_range.simps key_defs utf8_Cons)

lemma card_insert_word:
  assumes "finite X"
  shows "(of_nat (card (insert x X)) :: u64) = (if x \<in> X then of_nat (card X) else of_nat (card X) + 1)"
  using assms by (simp add: card_insert_if)

lemma card_remove_word:
  assumes "finite X" "x \<in> X"
  shows "(of_nat (card (X - {x})) :: u64) = of_nat (card X) - 1"
proof -
  have "(of_nat (card X) :: u64) = 1 + of_nat (card (X - {x}))"
    by (simp only: card_Suc_Diff1 [OF assms, symmetric] of_nat_Suc)
  then show ?thesis by (simp only: add_diff_cancel_left')
qed

text \<open>The balance entries and the non-zero ones after a transfer, and how many they are.\<close>

lemma transfer_keys:
  assumes kf_def: "kf = key_for_account_balance E from symbol" and kt_def: "kt = key_for_account_balance E to symbol"
    and "merk_laws E V C" "kf \<noteq> kt" "amount \<noteq> 0" "amount \<le> amount_at E f kf"
    and h: "h = f(DATA_ATTRIBUTES_KEY := Some d, kf := Some (amount_val E (amount_at E f kf - amount)),
       kt := Some (amount_val E (amount_at E f kt + amount)), key_for_event i := Some w, EVENT_COUNT_ROOT := Some n)"
  shows "balance_keys h = insert kt (balance_keys f)"
    and "nonzero_keys E h = insert kt (nonzero_keys E f) - (if amount_at E f kf = amount then {kf} else {})"
    and "kf \<in> nonzero_keys E f" "kt \<in> nonzero_keys E f \<longleftrightarrow> amount_at E f kt \<noteq> 0" "kt \<in> balance_keys f \<longleftrightarrow> f kt \<noteq> None"
proof -
  show kf: "kf \<in> nonzero_keys E f"
    using assms(4-6) by (auto simp: kf_def nonzero_keys_def balance_keys_def amount_at_def split: option.splits)
  show "kt \<in> nonzero_keys E f \<longleftrightarrow> amount_at E f kt \<noteq> 0" "kt \<in> balance_keys f \<longleftrightarrow> f kt \<noteq> None"
    by (auto simp: kt_def nonzero_keys_def balance_keys_def amount_at_def split: option.splits)
  show B: "balance_keys h = insert kt (balance_keys f)"
    using kf assms(4) by (auto simp: h kf_def kt_def balance_keys_def nonzero_keys_def)
  show "nonzero_keys E h = insert kt (nonzero_keys E f) - (if amount_at E f kf = amount then {kf} else {})"
    using kf assms(4-6) unfolding nonzero_keys_def B
    by (auto simp: h kf_def kt_def balance_keys_def amount_of_val [OF assms(3)])
qed


lemma recount_fold:
  "res_fold (\<lambda>item (n, z). res_bind (from_sum unknown item) (\<lambda>(k, v). Ok (n + 1, if P v then z + 1 else z))) (map Inr es) (n, z) =
     Ok (n + of_nat (length es), z + of_nat (length (filter (\<lambda>e. P (snd e)) es)) :: u64)"
  by (induction es arbitrary: n z) (auto simp: algebra_simps)

lemma card_entries:
  assumes "keys_sorted es"
  shows "length (filter P es) = card {k. \<exists>v. map_of es k = Some v \<and> P (k, v)}"
proof -
  have d: "distinct (map fst es)"
    using assms by (rule keys_sorted_distinct)
  have "distinct (map fst (filter P es))"
    using d by (simp add: distinct_map_filter)
  then have "length (filter P es) = card (set (map fst (filter P es)))"
    by (metis distinct_card length_map)
  also have "set (map fst (filter P es)) = {k. \<exists>v. map_of es k = Some v \<and> P (k, v)}"
    using d by (auto simp: image_iff)
  finally show ?thesis .
qed

text \<open>The migration that introduces the counters starts them at a recount of the committed store.\<close>

theorem data_initialize_counts:
  assumes "merk_laws E V C" "merk_reliable E V C" "codec_ok (data_attributes_codec E)"
    and "V m = C m" "finite (balance_keys (V m))" "data_initialize E x m = (Ok u, m')"
  shows "counters_agree E (V m')"
proof -
  obtain es where it: "merk_iter E m IterStart (PrefixRange BALANCES_ROOT_BYTES) = map Inr es"
    and so: "keys_sorted es"
    and es: "\<And>k. map_of es k = (if in_iter_range (PrefixRange BALANCES_ROOT_BYTES) k then C m k else None)"
    using assms(2) unfolding merk_reliable_def by meson
  have r: "get_data_from_db E m = Ok (of_nat (card (balance_keys (V m))), of_nat (card (nonzero_keys E (V m))))"
  proof -
    have "{k. \<exists>v. map_of es k = Some v} = balance_keys (V m)"
      by (auto simp: es balance_keys_def assms(4) split: if_splits)
    then have "length es = card (balance_keys (V m))"
      using card_entries [OF so, of "\<lambda>_. True"] by simp
    moreover have "{k. \<exists>v. map_of es k = Some v \<and> amount_of E v \<noteq> 0} = nonzero_keys E (V m)"
      by (auto simp: es nonzero_keys_def balance_keys_def amount_at_def assms(4) split: if_splits)
    then have "length (filter (\<lambda>e. amount_of E (snd e) \<noteq> 0) es) = card (nonzero_keys E (V m))"
      using card_entries [OF so, of "\<lambda>e. amount_of E (snd e) \<noteq> 0"] by simp
    ultimately show ?thesis
      unfolding get_data_from_db_def it recount_fold by simp
  qed
  obtain a i where a: "enc (data_attributes_codec E)
      (data_value_init (of_nat (card (balance_keys (V m)))) (of_nat (card (nonzero_keys E (V m))))) = Inr a"
    and ap: "db_apply E storage_apply_failed [(DATA_ATTRIBUTES_KEY, Put a), (DATA_INFO_KEY, Put i)] m = (Ok u, m')"
    using assms(6) r by (auto simp: data_initialize_def act_simps)
  have m': "V m' = (V m)(DATA_ATTRIBUTES_KEY := Some a, DATA_INFO_KEY := Some i)"
    using db_apply_Ok [OF assms(1) ap] by simp
  then have B: "balance_keys (V m') = balance_keys (V m)"
    by (auto simp: balance_keys_def)
  then have Z: "nonzero_keys E (V m') = nonzero_keys E (V m)"
    by (auto simp: nonzero_keys_def m' balance_keys_def)
  show ?thesis
    unfolding counters_agree_def B Z using assms(5) codec_okD [OF assms(3) a]
    by (auto simp: m' data_value_init_def)
qed

section \<open>A concrete ledger\<close>

definition bank_store :: "(bytes \<times> stored) list" where
  "bank_store =
    [(key_for_account_balance mem_ext (PublicKey 1) (Subresource 1 0), SBytes (nat_bytes 100)),
     (DATA_ATTRIBUTES_KEY, SDataAttributes (data_value_init 1 1))]"

definition bank :: "(mem, stored) ledger_storage" where
  "bank = ledger_new (bank_store, bank_store) False"

lemma mem_key_inject [simp]:
  "key_for_account_balance mem_ext a s = key_for_account_balance mem_ext b t \<longleftrightarrow> a = b \<and> s = t"
  by (rule key_for_account_balance_inject [OF merk_laws_addr [OF mem_laws]])

lemma bank_view: "sv mem_view bank = map_of bank_store"
  by (simp add: bank_def ledger_new_def)

lemma bank_balance:
  "balance_at mem_ext (sv mem_view bank) a sy = (if a = PublicKey 1 \<and> sy = Subresource 1 0 then 100 else 0)"
  unfolding bank_view by (auto simp: bank_store_def amount_at_def amount_of_def nat_be_nat_bytes)

lemma bank_slots:
  "\<And>v. sv mem_view bank DATA_ATTRIBUTES_KEY = Some v \<Longrightarrow> \<exists>a. dec (data_attributes_codec mem_ext) v = Inr a"
  "u64_slot mem_ext EVENT_COUNT_ROOT (sv mem_view bank)"
  unfolding bank_view by (auto simp: bank_store_def u64_slot_def)

lemma bank_send:
  obtains t where "send mem_ext (PublicKey 1) (PublicKey 2) (Subresource 1 0) 30 None bank =
    (Ok [key_for_account_balance mem_ext (PublicKey 1) (Subresource 1 0), key_for_account_balance mem_ext (PublicKey 2) (Subresource 1 0)], t)"
proof -
  have e: "send_error (balance_at mem_ext (sv mem_view bank) (PublicKey 1) (Subresource 1 0)) (PublicKey 1) (PublicKey 2) 30 = None"
    by (simp add: bank_balance send_error_def)
  show thesis
    by (rule send_succeeds [OF mem_laws mem_reliable mem_codecs_total(5,7) bank_slots e]) (assumption, rule that)
qed

lemma bank_counters: "counters_agree mem_ext (sv mem_view bank)"
proof -
  have k: "balance_keys (map_of bank_store) = {key_for_account_balance mem_ext (PublicKey 1) (Subresource 1 0)}"
    by (auto simp: balance_keys_def bank_store_def split: if_splits)
  have z: "nonzero_keys mem_ext (map_of bank_store) = {key_for_account_balance mem_ext (PublicKey 1) (Subresource 1 0)}"
    unfolding nonzero_keys_def k using bank_balance [of "PublicKey 1" "Subresource 1 0"] unfolding bank_view by auto
  show ?thesis
    unfolding counters_agree_def bank_view k z by (simp add: bank_store_def data_value_init_def)
qed

theorem send_moves_funds_witness:
  "merk_laws mem_ext mem_view mem_committed \<and>
   (\<exists>t. send mem_ext (PublicKey 1) (PublicKey 2) (Subresource 1 0) 30 None bank = (Ok
      [key_for_account_balance mem_ext (PublicKey 1) (Subresource 1 0), key_for_account_balance mem_ext (PublicKey 2) (Subresource 1 0)], t) \<and>
      balance_at mem_ext (sv mem_view t) (PublicKey 1) (Subresource 1 0) = 70 \<and>
      balance_at mem_ext (sv mem_view t) (PublicKey 2) (Subresource 1 0) = 30)"
proof -
  obtain t where t: "send mem_ext (PublicKey 1) (PublicKey 2) (Subresource 1 0) 30 None bank =
    (Ok [key_for_account_balance mem_ext (PublicKey 1) (Subresource 1 0), key_for_account_balance mem_ext (PublicKey 2) (Subresource 1 0)], t)"
    by (rule bank_send)
  show ?thesis
    using send_moves_funds [OF mem_laws t] t mem_laws by (auto simp: bank_balance)
qed

theorem send_conserves_witness:
  "\<exists>t. fst (send mem_ext (PublicKey 1) (PublicKey 2) (Subresource 1 0) 30 None bank) = Ok
      [key_for_account_balance mem_ext (PublicKey 1) (Subresource 1 0), key_for_account_balance mem_ext (PublicKey 2) (Subresource 1 0)] \<and>
    t = snd (send mem_ext (PublicKey 1) (PublicKey 2) (Subresource 1 0) 30 None bank) \<and>
    (\<Sum>a\<in>{PublicKey 1, PublicKey 2}. balance_at mem_ext (sv mem_view t) a (Subresource 1 0)) = 100"
proof -
  obtain t where t: "send mem_ext (PublicKey 1) (PublicKey 2) (Subresource 1 0) 30 None bank =
    (Ok [key_for_account_balance mem_ext (PublicKey 1) (Subresource 1 0), key_for_account_balance mem_ext (PublicKey 2) (Subresource 1 0)], t)"
    by (rule bank_send)
  have "(\<Sum>a\<in>{PublicKey 1, PublicKey 2}. balance_at mem_ext (sv mem_view t) a (Subresource 1 0)) =
      (\<Sum>a\<in>{PublicKey 1, PublicKey 2}. balance_at mem_ext (sv mem_view bank) a (Subresource 1 0))"
    by (rule send_conserves [OF mem_laws t]) simp_all
  then show ?thesis
    using t by (simp add: bank_balance)
qed

theorem send_outcome_witness:
  "merk_reliable mem_ext mem_view mem_committed \<and>
   send mem_ext (PublicKey 1) (PublicKey 2) (Subresource 1 0) 101 None bank = (Err insufficient_funds, bank)"
  using send_outcome [OF mem_laws mem_reliable mem_codecs_total(5,7) bank_slots, of "PublicKey 1" "PublicKey 2" "Subresource 1 0" 101 None]
    mem_reliable by (simp add: bank_balance send_error_def)


theorem data_initialize_counts_witness:
  "merk_laws mem_ext mem_view mem_committed \<and> merk_reliable mem_ext mem_view mem_committed \<and>
   counters_agree mem_ext (mem_view (snd (data_initialize mem_ext Map.empty (bank_store, bank_store))))"
proof -
  have f: "finite (balance_keys (mem_view (bank_store, bank_store)))"
    using bank_counters by (simp add: counters_agree_def bank_view)
  have "fst (data_initialize mem_ext Map.empty (bank_store, bank_store)) = Ok ()"
  proof -
    have "get_data_from_db mem_ext (bank_store, bank_store) \<noteq> Err e" "get_data_from_db mem_ext (bank_store, bank_store) \<noteq> Panic p" for e p
      unfolding get_data_from_db_def by (simp_all add: mem_iter_def recount_fold)
    then obtain r where r: "get_data_from_db mem_ext (bank_store, bank_store) = Ok r"
      by (cases "get_data_from_db mem_ext (bank_store, bank_store)") auto
    then show ?thesis
      by (simp add: data_initialize_def bnd_def query_def lift_result_def db_apply_def mem_apply_def split: prod.splits)
  qed
  then obtain m' where m: "data_initialize mem_ext Map.empty (bank_store, bank_store) = (Ok (), m')"
    by (metis prod.collapse)
  have eq: "mem_view (bank_store, bank_store) = mem_committed (bank_store, bank_store)"
    by simp
  show ?thesis
    using data_initialize_counts [OF mem_laws mem_reliable mem_codecs_ok(7) eq f m] mem_laws mem_reliable m by simp
qed

end
