(* ===== verification/Tokens.thy ===== *)
theory Tokens
  imports Balances
begin

text \<open>
  Tokens: \<open>src/src/many-ledger/src/storage/ledger_tokens.rs\<close> and \<open>storage/ledger_mintburn.rs\<close>. A token
  has an information record under its symbol, an extended record, and its ticker in the table of
  symbols. The lemmas give the effect of every operation on the store.
\<close>

section \<open>Initial tokens\<close>

record symbol_meta =
  sm_name :: string
  sm_decimals :: u64
  sm_owner :: "address option"
  sm_maximum :: "token_amount option"

definition verify_tokens_sender :: "address \<Rightarrow> address \<Rightarrow> unit result" where
  "verify_tokens_sender sender token_identity = (if sender \<noteq> token_identity then Err invalid_sender else Ok ())"

definition total_supply ::
  "(address, (symbol, token_amount) btree_map) btree_map \<Rightarrow> (symbol, token_amount) btree_map" where
  "total_supply initial_balance =
    foldl (\<lambda>t v. foldl (\<lambda>t (symbol, tokens).
        bt_insert symbol ((case map_of t symbol of Some n \<Rightarrow> n | None \<Rightarrow> 0) + tokens) t) t v) [] (map snd initial_balance)"

definition token_info_new :: "symbol \<Rightarrow> string \<Rightarrow> symbol_meta \<Rightarrow> token_amount \<Rightarrow> token_info" where
  "token_info_new symbol ticker meta supply =
    \<lparr>ti_symbol = symbol,
     ti_summary = \<lparr>tis_name = sm_name meta, tis_ticker = ticker, tis_decimals = sm_decimals meta\<rparr>,
     ti_supply = \<lparr>sup_total = supply, sup_circulating = supply, sup_maximum = sm_maximum meta\<rparr>,
     ti_owner = sm_owner meta\<rparr>"

text \<open>\<open>map[&k]\<close> panics on a missing key.\<close>

definition map_index :: "('k, 'a) btree_map \<Rightarrow> 'k \<Rightarrow> 'a result" where
  "map_index m k = (case map_of m k of Some v \<Rightarrow> Ok v | None \<Rightarrow> Panic ''no entry found for key'')"

definition with_tokens ::
  "('m, 'v) ext \<Rightarrow> (symbol, string) btree_map \<Rightarrow> (symbol, symbol_meta) btree_map option \<Rightarrow> address option \<Rightarrow>
   u32 option \<Rightarrow> (address, (symbol, token_amount) btree_map) btree_map \<Rightarrow> ('m, 'v, unit) led" where
  "with_tokens E symbols symbols_meta token_identity token_next_subresource initial_balances s =
    (if \<not> token_migration_active s then (Ok (), s)
     else
      (bnd (lift_result (ok_or (unknown ''Symbols metadata needs to be provided'') symbols_meta)) (\<lambda>meta.
       let supply = total_supply initial_balances in
       bnd (lift_result (res_fold (\<lambda>symbol _.
              res_bind (fails_if (map_of meta symbol = None)
                (unknown (''Symbol '' @ to_string E symbol @ '' missing metadata''))) (\<lambda>_.
              fails_if (map_of supply symbol = None)
                (unknown (''Symbol '' @ to_string E symbol @ '' missing total supply'')))) (map fst symbols) ())) (\<lambda>_.
       bnd (lift_result (res_fold (\<lambda>(k, m) batch.
              res_bind (map_index supply k) (\<lambda>n.
              res_bind (map_index symbols k) (\<lambda>ticker.
              res_bind (from_sum serialization_error (enc (ext_info_codec E) [])) (\<lambda>x.
              res_bind (from_sum serialization_error (enc (token_info_codec E) (token_info_new k ticker m n))) (\<lambda>i.
              Ok (batch @ [(key_for_ext_info E k, Put x), (utf8 (key_for_symbol E k), Put i)])))))) meta [])) (\<lambda>batch.
       bnd (store_apply E storage_apply_failed (sort_key fst batch)) (\<lambda>_.
       bnd (query (get_identity E IDENTITY_ROOT)) (\<lambda>server_identity.
       let identity = (case token_identity of Some i \<Rightarrow> i | None \<Rightarrow> server_identity) in
       bnd (query (\<lambda>s. Ok (key_for_subresource_counter E identity (token_migration_active s)))) (\<lambda>key.
       bnd (store_apply E storage_apply_failed
              [(key, put_bytes E (u32_to_be_bytes (case token_next_subresource of Some n \<Rightarrow> n | None \<Rightarrow> 0))),
               (utf8 TOKEN_IDENTITY_ROOT, put_bytes E (to_vec identity))]) (\<lambda>_.
       commit_storage E)))))))) s)"

section \<open>Reading tokens\<close>

definition get_owner :: "('m, 'v) ext \<Rightarrow> symbol \<Rightarrow> ('m, 'v) ledger_storage \<Rightarrow> (address option \<times> bytes) result" where
  "get_owner E symbol s =
    res_bind (store_get E storage_get_failed (utf8 (key_for_symbol E symbol)) s) (\<lambda>x.
    res_bind (ok_or (token_info_not_found (to_string E symbol)) x) (\<lambda>v.
    res_bind (from_sum deserialization_error (dec (token_info_codec E) v)) (\<lambda>info.
    Ok (ti_owner info, utf8 (key_for_symbol E symbol)))))"

definition get_token_info_summary ::
  "('m, 'v) ext \<Rightarrow> ('m, 'v) ledger_storage \<Rightarrow> (symbol, token_info_summary) btree_map result" where
  "get_token_info_summary E s =
    (if token_migration_active s then
       res_fold (\<lambda>item m.
           res_bind (from_sum unknown item) (\<lambda>(k, v).
           res_bind (from_sum deserialization_error (dec (token_info_codec E) v)) (\<lambda>info.
           res_bind (symbol_of_key E k) (\<lambda>symbol.
           Ok (bt_insert symbol (ti_summary info) m)))))
         (all_symbols E (persistent_store s) Indeterminate) []
     else Ok [])"

definition info_token ::
  "('m, 'v) ext \<Rightarrow> token_info_args \<Rightarrow> ('m, 'v) ledger_storage \<Rightarrow> (token_info \<times> token_extended_info) result" where
  "info_token E args s =
    res_bind (store_get E unknown (utf8 (key_for_symbol E (tia_symbol args))) s) (\<lambda>x.
    res_bind (ok_or (token_info_not_found (to_string E (tia_symbol args))) x) (\<lambda>token_info_enc.
    res_bind (store_get E storage_get_failed (key_for_ext_info E (tia_symbol args)) s) (\<lambda>y.
    res_bind (ok_or (ext_info_not_found (to_string E (tia_symbol args))) y) (\<lambda>ext_info_enc.
    res_bind (from_sum deserialization_error (dec (ext_info_codec E) ext_info_enc)) (\<lambda>ext_info.
    res_bind (case tia_extended_info args of Some ixs \<Rightarrow> ext_info_retain ext_info ixs | None \<Rightarrow> Ok ext_info) (\<lambda>ext_info.
    res_bind (from_sum deserialization_error (dec (token_info_codec E) token_info_enc)) (\<lambda>info.
    Ok (info, ext_info))))))))"

definition get_token_supply :: "('m, 'v) ext \<Rightarrow> symbol \<Rightarrow> ('m, 'v) ledger_storage \<Rightarrow> token_info_supply result" where
  "get_token_supply E symbol s =
    res_bind (info_token E \<lparr>tia_symbol = symbol, tia_extended_info = None\<rparr> s) (\<lambda>(info, _). Ok (ti_supply info))"

section \<open>Creating and updating tokens\<close>

definition update_symbols :: "('m, 'v) ext \<Rightarrow> symbol \<Rightarrow> string \<Rightarrow> ('m, 'v, bytes list) led" where
  "update_symbols E symbol ticker =
    bnd (query (get_symbols_and_tickers E)) (\<lambda>symbols.
    bnd (lift_result (from_sum serialization_error (enc (symbols_codec E) (bt_insert symbol ticker symbols)))) (\<lambda>v.
    bnd (store_apply E storage_apply_failed [(utf8 ''/config/symbols'', Put v)]) (\<lambda>_.
    ret [utf8 ''/config/symbols''])))"

definition initial_distribution :: "token_create_args \<Rightarrow> ledger_tokens_address_map" where
  "initial_distribution args = (case tca_initial_distribution args of Some d \<Rightarrow> d | None \<Rightarrow> [])"

definition created_info :: "address \<Rightarrow> token_create_args \<Rightarrow> symbol \<Rightarrow> token_info" where
  "created_info sender args symbol =
    (let supply = sum_list (map snd (initial_distribution args)) in
     \<lparr>ti_symbol = symbol, ti_summary = tca_summary args,
      ti_supply = \<lparr>sup_total = supply, sup_circulating = supply, sup_maximum = tca_maximum_supply args\<rparr>,
      ti_owner = (case tca_owner args of None \<Rightarrow> Some sender | Some (Inl a) \<Rightarrow> Some a | Some (Inr _) \<Rightarrow> None)\<rparr>)"

definition create_token ::
  "('m, 'v) ext \<Rightarrow> address \<Rightarrow> token_create_args \<Rightarrow> ('m, 'v, token_info \<times> bytes list) led" where
  "create_token E sender args =
    bnd (get_next_subresource E TOKEN_IDENTITY_ROOT) (\<lambda>(symbol, next_resource_keys).
    bnd (update_symbols E symbol (tis_ticker (tca_summary args))) (\<lambda>update_symbol_keys.
    let balances = map (\<lambda>(k, v). (key_for_account_balance E k symbol, put_amount E v)) (initial_distribution args);
        info = created_info sender args symbol
    in
    bnd (lift_result (from_sum serialization_error (enc (token_info_codec E) info))) (\<lambda>i.
    bnd (lift_result (from_sum serialization_error (enc (ext_info_codec E)
          (case tca_extended_info args of Some e \<Rightarrow> e | None \<Rightarrow> [])))) (\<lambda>x.
    bnd (log_event E (EvTokenCreate (tca_summary args) symbol (tca_owner args) (tca_initial_distribution args)
          (tca_maximum_supply args) (tca_extended_info args) (tca_memo args))) (\<lambda>_.
    bnd (store_apply E storage_apply_failed (sort_key fst
          (balances @ [(utf8 (key_for_symbol E symbol), Put i), (key_for_ext_info E symbol, Put x)]))) (\<lambda>_.
    bnd (maybe_commit E) (\<lambda>_.
    ret (info, [utf8 SYMBOLS_ROOT] @ next_resource_keys @ update_symbol_keys @ map fst balances @
      [utf8 (key_for_symbol E symbol), key_for_ext_info E symbol]))))))))"

definition update_owner :: "token_maybe_owner option \<Rightarrow> address option \<Rightarrow> address option" where
  "update_owner owner old = (case owner of None \<Rightarrow> old | Some (Inl a) \<Rightarrow> Some a | Some (Inr _) \<Rightarrow> None)"

definition update_summary :: "token_update_args \<Rightarrow> token_info_summary \<Rightarrow> token_info_summary" where
  "update_summary args i =
    \<lparr>tis_name = (case tua_name args of Some n \<Rightarrow> n | None \<Rightarrow> tis_name i),
     tis_ticker = (case tua_ticker args of Some t \<Rightarrow> t | None \<Rightarrow> tis_ticker i),
     tis_decimals = (case tua_decimals args of Some d \<Rightarrow> d | None \<Rightarrow> tis_decimals i)\<rparr>"

definition update_token :: "('m, 'v) ext \<Rightarrow> address \<Rightarrow> token_update_args \<Rightarrow> ('m, 'v, bytes list) led" where
  "update_token E sender args =
    (let symbol = tua_symbol args; symbol_key = utf8 (key_for_symbol E symbol) in
    bnd (query (store_get E unknown symbol_key)) (\<lambda>x.
    case x of
      None \<Rightarrow> fail (unknown (''Symbol '' @ to_string E symbol @ '' not found in persistent storage''))
    | Some v \<Rightarrow>
        bnd (lift_result (unwrap_sum (dec (token_info_codec E) v))) (\<lambda>info.
        bnd (case tua_ticker args of
               None \<Rightarrow> ret []
             | Some ticker \<Rightarrow>
                 bnd (query (get_symbols_and_tickers E)) (\<lambda>m.
                 bnd (fail_if (ticker \<in> snd ` set m) (ticker_exists ticker)) (\<lambda>_.
                 update_symbols E symbol ticker))) (\<lambda>ticker_keys.
        bnd (lift_result (from_sum serialization_error (enc (token_info_codec E)
              (info\<lparr>ti_summary := update_summary args (ti_summary info),
                    ti_owner := update_owner (tua_owner args) (ti_owner info)\<rparr>)))) (\<lambda>i.
        bnd (store_apply E storage_apply_failed [(symbol_key, Put i)]) (\<lambda>_.
        bnd (log_event E (EvTokenUpdate symbol (tua_name args) (tua_ticker args) (tua_decimals args)
              (tua_owner args) (tua_memo args))) (\<lambda>_.
        bnd (maybe_commit E) (\<lambda>_.
        ret ([utf8 SYMBOLS_ROOT, symbol_key] @ ticker_keys)))))))))"

section \<open>Extended information\<close>

definition add_extended_info :: "('m, 'v) ext \<Rightarrow> token_add_extended_info_args \<Rightarrow> ('m, 'v, bytes) led" where
  "add_extended_info E args =
    (let symbol = taei_symbol args; ext_info_key = key_for_ext_info E symbol; new = taei_extended_info args in
    bnd (query (store_get E storage_get_failed ext_info_key)) (\<lambda>x.
    bnd (lift_result (case x of None \<Rightarrow> Ok []
         | Some v \<Rightarrow> from_sum deserialization_error (dec (ext_info_codec E) v))) (\<lambda>i0.
    let i1 = (case ext_info_memo new of Some m \<Rightarrow> ext_info_with_memo i0 m | None \<Rightarrow> i0);
        i2 = (case ext_info_visual_logo new of Some l \<Rightarrow> ext_info_with_visual_logo i1 l | None \<Rightarrow> i1);
        ixs = (case ext_info_memo new of Some m \<Rightarrow> [ari_new (extended_info_key_index KeyMemo)] | None \<Rightarrow> []) @
          (case ext_info_visual_logo new of Some l \<Rightarrow> [ari_new (extended_info_key_index KeyVisualLogo)] | None \<Rightarrow> [])
    in
    bnd (lift_result (from_sum serialization_error (enc (ext_info_codec E) i2))) (\<lambda>v.
    bnd (store_apply E storage_apply_failed [(ext_info_key, Put v)]) (\<lambda>_.
    bnd (log_event E (EvTokenAddExtendedInfo symbol ixs (taei_memo args))) (\<lambda>_.
    bnd (maybe_commit E) (\<lambda>_.
    ret ext_info_key)))))))"

definition remove_extended_info :: "('m, 'v) ext \<Rightarrow> token_remove_extended_info_args \<Rightarrow> ('m, 'v, bytes) led" where
  "remove_extended_info E args =
    (let symbol = trei_symbol args; ext_info_key = key_for_ext_info E symbol in
    bnd (query (store_get E storage_get_failed ext_info_key)) (\<lambda>x.
    bnd (lift_result (ok_or (ext_info_not_found (to_string E symbol)) x)) (\<lambda>v.
    bnd (lift_result (from_sum deserialization_error (dec (ext_info_codec E) v))) (\<lambda>i0.
    bnd (lift_result (res_fold (\<lambda>index i.
          res_bind (ext_info_contains_index i index) (\<lambda>b.
          if b then ext_info_remove i index else Ok i)) (trei_extended_info args) i0)) (\<lambda>i1.
    bnd (lift_result (from_sum serialization_error (enc (ext_info_codec E) i1))) (\<lambda>w.
    bnd (store_apply E storage_apply_failed [(ext_info_key, Put w)]) (\<lambda>_.
    bnd (log_event E (EvTokenRemoveExtendedInfo symbol (trei_extended_info args) (trei_memo args))) (\<lambda>_.
    bnd (maybe_commit E) (\<lambda>_.
    ret ext_info_key)))))))))"

section \<open>Minting and burning\<close>

type_synonym 'v supply_acc = "(bytes \<times> 'v merk_op) list \<times> token_amount \<times> bytes list"

definition mint_entry ::
  "('m, 'v) ext \<Rightarrow> ('m, 'v) ledger_storage \<Rightarrow> symbol \<Rightarrow> token_info_supply \<Rightarrow> address \<times> token_amount \<Rightarrow>
   'v supply_acc \<Rightarrow> 'v supply_acc result" where
  "mint_entry E s symbol current_supply e acc =
    (case (e, acc) of ((address, amount), (batch, circulating, keys)) \<Rightarrow>
     res_bind (fails_if (amount = 0) (unable_to_distribute_zero (to_string E address))) (\<lambda>_.
     let circulating = circulating + amount in
     res_bind (case sup_maximum current_supply of
         Some x \<Rightarrow> fails_if (sup_circulating current_supply + circulating > x)
           (over_maximum_supply (to_string E symbol) (nat_str circulating) (nat_str x))
       | None \<Rightarrow> Ok ()) (\<lambda>_.
     res_bind (get_multiple_balances E address [symbol] s) (\<lambda>(balances, balance_keys).
     let new_balance = (case map_of balances symbol of Some b \<Rightarrow> b + amount | None \<Rightarrow> amount);
         key = key_for_account_balance E address symbol
     in Ok (batch @ [(key, put_amount E new_balance)], circulating, keys @ balance_keys @ [key])))))"

definition mint_token :: "('m, 'v) ext \<Rightarrow> symbol \<Rightarrow> ledger_tokens_address_map \<Rightarrow> ('m, 'v, bytes list) led" where
  "mint_token E symbol distribution =
    bnd (query (get_token_supply E symbol)) (\<lambda>current_supply.
    bnd (query (\<lambda>s. res_fold (mint_entry E s symbol current_supply) distribution ([], 0, []))) (\<lambda>(batch, circulating, keys).
    bnd (query (info_token E \<lparr>tia_symbol = symbol, tia_extended_info = None\<rparr>)) (\<lambda>(info, _).
    let supply = ti_supply info;
        info = info\<lparr>ti_supply := supply\<lparr>sup_circulating := sup_circulating supply + circulating,
          sup_total := sup_total supply + circulating\<rparr>\<rparr>;
        symbol_key = utf8 (key_for_symbol E symbol)
    in
    bnd (lift_result (from_sum serialization_error (enc (token_info_codec E) info))) (\<lambda>i.
    bnd (store_apply E storage_apply_failed (sort_key fst (batch @ [(symbol_key, Put i)]))) (\<lambda>_.
    bnd (maybe_commit E) (\<lambda>_.
    ret (keys @ [symbol_key])))))))"

definition burn_entry ::
  "('m, 'v) ext \<Rightarrow> ('m, 'v) ledger_storage \<Rightarrow> symbol \<Rightarrow> address \<times> token_amount \<Rightarrow> 'v supply_acc \<Rightarrow> 'v supply_acc result" where
  "burn_entry E s symbol e acc =
    (case (e, acc) of ((address, amount), (batch, circulating, keys)) \<Rightarrow>
     res_bind (fails_if (amount = 0) (unable_to_distribute_zero (to_string E address))) (\<lambda>_.
     res_bind (get_multiple_balances E address [symbol] s) (\<lambda>(balances, balance_keys).
     res_bind (case map_of balances symbol of
         Some x \<Rightarrow> if x < amount then Err (missing_funds (to_string E symbol) (nat_str amount) (nat_str x)) else Ok x
       | None \<Rightarrow> Err (missing_funds (to_string E symbol) (nat_str amount) (nat_str 0))) (\<lambda>balance_amount.
     res_bind (sub_amount balance_amount amount) (\<lambda>new_balance.
     let key = key_for_account_balance E address symbol
     in Ok (batch @ [(key, put_amount E new_balance)], circulating + amount, keys @ balance_keys @ [key]))))))"

definition burn_token :: "('m, 'v) ext \<Rightarrow> symbol \<Rightarrow> ledger_tokens_address_map \<Rightarrow> ('m, 'v, bytes list) led" where
  "burn_token E symbol distribution =
    bnd (query (\<lambda>s. res_fold (burn_entry E s symbol) distribution ([], 0, []))) (\<lambda>(batch, circulating, keys).
    bnd (query (info_token E \<lparr>tia_symbol = symbol, tia_extended_info = None\<rparr>)) (\<lambda>(info, _).
    bnd (lift_result (sub_amount (sup_circulating (ti_supply info)) circulating)) (\<lambda>c.
    bnd (lift_result (sub_amount (sup_total (ti_supply info)) circulating)) (\<lambda>t.
    let info = info\<lparr>ti_supply := (ti_supply info)\<lparr>sup_circulating := c, sup_total := t\<rparr>\<rparr>;
        symbol_key = utf8 (key_for_symbol E symbol)
    in
    bnd (lift_result (from_sum serialization_error (enc (token_info_codec E) info))) (\<lambda>i.
    bnd (store_apply E storage_apply_failed (sort_key fst (batch @ [(symbol_key, Put i)]))) (\<lambda>_.
    bnd (maybe_commit E) (\<lambda>_.
    ret (keys @ [symbol_key]))))))))"

section \<open>Batches\<close>

lemma store_apply_sorted:
  assumes "merk_laws E V C" "store_apply E f (sort_key fst ops) s = (Ok u, t)"
  shows "distinct (map fst ops)"
    and "sv V t k = (case map_of ops k of None \<Rightarrow> sv V s k | Some (Put v) \<Rightarrow> Some v | Some Delete \<Rightarrow> None)"
    and "sv C t = sv C s" "ctx t = ctx s" "latest_tid t = latest_tid s"
proof -
  note a = store_apply_Ok [OF assms]
  have d: "distinct (map fst (sort_key fst ops))"
    by (rule keys_sorted_distinct [OF a(1)])
  then show d': "distinct (map fst ops)"
    by (simp add: distinct_map)
  show "sv V t k = (case map_of ops k of None \<Rightarrow> sv V s k | Some (Put v) \<Rightarrow> Some v | Some Delete \<Rightarrow> None)"
    unfolding a(2) apply_ops_at [OF d] map_of_sort_key [OF d'] by (rule refl)
qed (fact store_apply_Ok(3-5) [OF assms])+

text \<open>The store with the balances of one token replaced for a list of addresses.\<close>

definition with_amounts ::
  "('m, 'v) ext \<Rightarrow> symbol \<Rightarrow> (address \<times> token_amount) list \<Rightarrow> (bytes \<Rightarrow> 'v option) \<Rightarrow> bytes \<Rightarrow> 'v option" where
  "with_amounts E symbol xs f k =
    (case map_of (map (\<lambda>(a, n). (key_for_account_balance E a symbol, amount_val E n)) xs) k of
       Some v \<Rightarrow> Some v | None \<Rightarrow> f k)"

lemma map_of_balance_keys:
  assumes "addr_laws E"
  shows "map_of (map (\<lambda>(a, n). (key_for_account_balance E a symbol, g n)) xs) (key_for_account_balance E a sy) =
    (if sy = symbol then map_option g (map_of xs a) else None)"
  by (induction xs) (auto simp: key_for_account_balance_inject [OF assms])

lemma map_of_no_balance_key:
  "(\<And>a. k \<noteq> key_for_account_balance E a symbol) \<Longrightarrow>
   map_of (map (\<lambda>(a, n). (key_for_account_balance E a symbol, g n)) xs) k = None"
  by (induction xs) (auto, blast)

lemma with_amounts_other:
  "(\<And>a. k \<noteq> key_for_account_balance E a symbol) \<Longrightarrow> with_amounts E symbol xs f k = f k"
  by (simp add: with_amounts_def map_of_no_balance_key)

lemma balance_with_amounts:
  assumes "merk_laws E V C"
  shows "balance_at E (with_amounts E symbol xs f) a sy =
    (if sy = symbol then (case map_of xs a of Some n \<Rightarrow> n | None \<Rightarrow> balance_at E f a sy) else balance_at E f a sy)"
  by (simp add: amount_at_def with_amounts_def map_of_balance_keys [OF merk_laws_addr [OF assms]]
      amount_of_val [OF assms] split: option.splits)

abbreviation new_amounts :: "('m, 'v) ext \<Rightarrow> symbol \<Rightarrow> (address \<times> token_amount) list \<Rightarrow> (bytes \<times> 'v merk_op) list" where
  "new_amounts E symbol xs \<equiv> map (\<lambda>(a, n). (key_for_account_balance E a symbol, put_amount E n)) xs"

text \<open>A sorted batch of new balances and other entries.\<close>

lemma apply_balances:
  assumes "merk_laws E V C"
    and "store_apply E f (sort_key fst (new_amounts E symbol xs @ rest)) s = (Ok u, t)"
  shows "sv V t = apply_ops (with_amounts E symbol xs (sv V s)) rest" "distinct (map fst xs)"
    "sv C t = sv C s" "ctx t = ctx s" "latest_tid t = latest_tid s"
proof -
  note a = store_apply_sorted [OF assms]
  have m: "map_of (new_amounts E symbol xs) k =
      map_option Put (map_of (map (\<lambda>(a, n). (key_for_account_balance E a symbol, amount_val E n)) xs) k)" for k
    by (induction xs) (auto simp: put_amount_def)
  have d: "distinct (map fst rest)" "fst ` set (new_amounts E symbol xs) \<inter> fst ` set rest = {}"
    using a(1) by auto
  show "sv V t = apply_ops (with_amounts E symbol xs (sv V s)) rest"
  proof
    fix k
    show "sv V t k = apply_ops (with_amounts E symbol xs (sv V s)) rest k"
    proof (cases "map_of rest k")
      case None
      then show ?thesis
        unfolding a(2) apply_ops_at [OF d(1)] by (auto simp: map_add_def with_amounts_def m split: option.splits)
    next
      case (Some p)
      then have "k \<in> fst ` set rest"
        by (metis domI dom_map_of_conv_image_fst)
      then have "map_of (new_amounts E symbol xs) k = None"
        using d(2) by (auto simp: map_of_eq_None_iff simp del: set_map)
      then show ?thesis
        unfolding a(2) apply_ops_at [OF d(1)] using Some by (simp add: map_add_def)
    qed
  qed
  have "map fst (new_amounts E symbol xs) = map (\<lambda>a. key_for_account_balance E a symbol) (map fst xs)"
    by (induction xs) auto
  then show "distinct (map fst xs)"
    using a(1) by (simp add: distinct_map del: map_map)
qed (fact store_apply_sorted(3-5) [OF assms])+

section \<open>Balances as the token operations read them\<close>

lemma get_all_balances_fold:
  assumes "merk_laws E V C"
    and "res_fold (\<lambda>symbol result.
            res_bind (store_get E storage_get_failed (key_for_account_balance E i symbol) s) (\<lambda>x.
            Ok (case x of None \<Rightarrow> result | Some v \<Rightarrow> bt_insert symbol (amount_of E v) result))) symbols r0 = Ok r"
  shows "map_of r symbol = (if symbol \<in> set symbols \<and> sv V s (key_for_account_balance E i symbol) \<noteq> None
    then Some (balance_at E (sv V s) i symbol) else map_of r0 symbol)"
  using assms(2)
proof (induction symbols arbitrary: r0)
  case (Cons y ys)
  obtain x where x: "store_get E storage_get_failed (key_for_account_balance E i y) s = Ok x"
    and r: "res_fold (\<lambda>symbol result.
            res_bind (store_get E storage_get_failed (key_for_account_balance E i symbol) s) (\<lambda>x.
            Ok (case x of None \<Rightarrow> result | Some v \<Rightarrow> bt_insert symbol (amount_of E v) result))) ys
          (case x of None \<Rightarrow> r0 | Some v \<Rightarrow> bt_insert y (amount_of E v) r0) = Ok r"
    using Cons.prems by (auto simp: act_simps)
  show ?case
    unfolding Cons.IH [OF r] using store_get_Ok [OF assms(1) x]
    by (auto simp: map_of_bt_insert amount_at_def split: option.splits)
qed simp

lemma map_of_filter_set: "map_of (filter (\<lambda>e. fst e \<in> S) m) k = (if k \<in> S then map_of m k else None)"
  by (induction m) auto

lemma get_multiple_balances_Ok:
  assumes "merk_laws E V C" "get_multiple_balances E a [symbol] s = Ok (balances, keys)"
    and "get_symbols E s = Ok symbols" "symbol \<in> set symbols"
  shows "map_of balances symbol =
    (if a = Anonymous \<or> sv V s (key_for_account_balance E a symbol) = None then None
     else Some (balance_at E (sv V s) a symbol))"
proof -
  obtain b where b: "get_all_balances E a s = Ok (b, keys)" and f: "balances = filter (\<lambda>e. fst e \<in> {symbol}) b"
    using assms(2) by (auto simp: get_multiple_balances_def act_simps)
  have "map_of b symbol =
    (if a = Anonymous \<or> sv V s (key_for_account_balance E a symbol) = None then None
     else Some (balance_at E (sv V s) a symbol))"
  proof (cases "a = Anonymous")
    case False
    with b assms(3) show ?thesis
      using assms(4) by (auto simp: get_all_balances_def is_anonymous_iff act_simps
          dest!: get_all_balances_fold [OF assms(1), where symbol = symbol])
  qed (use b in \<open>simp add: get_all_balances_def is_anonymous_iff\<close>)
  then show ?thesis
    unfolding f map_of_filter_set by simp
qed

section \<open>Supply\<close>

lemma counter_neq [simp]:
  "key_for_subresource_counter E i b \<noteq> key_for_account_balance E a sy"
  "key_for_account_balance E a sy \<noteq> key_for_subresource_counter E i b"
  "key_for_subresource_counter E i b \<noteq> utf8 (key_for_symbol E sy)"
  "utf8 (key_for_symbol E sy) \<noteq> key_for_subresource_counter E i b"
  by (cases b; simp)+

text \<open>The information record of a token, and what all addresses together hold of it.\<close>

definition token_at :: "('m, 'v) ext \<Rightarrow> (bytes \<Rightarrow> 'v option) \<Rightarrow> symbol \<Rightarrow> token_info option" where
  "token_at E f symbol =
    (case f (utf8 (key_for_symbol E symbol)) of
       Some v \<Rightarrow> (case dec (token_info_codec E) v of Inr i \<Rightarrow> Some i | Inl _ \<Rightarrow> None)
     | None \<Rightarrow> None)"

definition holders :: "('m, 'v) ext \<Rightarrow> (bytes \<Rightarrow> 'v option) \<Rightarrow> symbol \<Rightarrow> address set" where
  "holders E f symbol = {a. balance_at E f a symbol \<noteq> 0}"

definition total_held :: "('m, 'v) ext \<Rightarrow> (bytes \<Rightarrow> 'v option) \<Rightarrow> symbol \<Rightarrow> token_amount" where
  "total_held E f symbol = (\<Sum>a\<in>holders E f symbol. balance_at E f a symbol)"

lemma info_token_Ok:
  assumes "merk_laws E V C" "info_token E args s = Ok (info, x)"
  shows "token_at E (sv V s) (tia_symbol args) = Some info"
  using assms(2) by (auto simp: info_token_def act_simps token_at_def dest!: store_get_Ok [OF assms(1)])

lemma get_token_supply_Ok:
  assumes "merk_laws E V C" "get_token_supply E symbol s = Ok supply"
  shows "\<exists>info. token_at E (sv V s) symbol = Some info \<and> supply = ti_supply info"
  using assms(2) by (auto simp: get_token_supply_def act_simps dest!: info_token_Ok [OF assms(1)])

lemma total_held_superset:
  assumes "finite S" "holders E f symbol \<subseteq> S"
  shows "total_held E f symbol = (\<Sum>a\<in>S. balance_at E f a symbol)"
  unfolding total_held_def by (rule sum.mono_neutral_left) (use assms in \<open>auto simp: holders_def\<close>)

lemma sum_map_of:
  fixes d :: "('a \<times> nat) list"
  assumes "distinct (map fst d)" "finite S" "fst ` set d \<subseteq> S"
  shows "(\<Sum>a\<in>S. case map_of d a of Some n \<Rightarrow> n | None \<Rightarrow> 0) = sum_list (map snd d)"
  using assms
proof (induction d)
  case (Cons e d)
  obtain a n where e: "e = (a, n)" by (cases e)
  have a: "a \<in> S" and d: "map_of d a = None"
    using Cons.prems e by (auto simp: map_of_eq_None_iff)
  have "(\<Sum>x\<in>S. case map_of (e # d) x of Some n \<Rightarrow> n | None \<Rightarrow> 0) =
      n + (\<Sum>x\<in>S - {a}. case map_of d x of Some n \<Rightarrow> n | None \<Rightarrow> 0)"
    unfolding sum.remove [OF Cons.prems(2) a] using e by simp
  also have "\<dots> = n + (\<Sum>x\<in>S. case map_of d x of Some n \<Rightarrow> n | None \<Rightarrow> 0)"
    unfolding sum.remove [OF Cons.prems(2) a] using d by simp
  finally show ?case
    using Cons e by simp
qed simp

section \<open>Effect of minting and burning\<close>

definition add_supply :: "token_amount \<Rightarrow> token_info \<Rightarrow> token_info" where
  "add_supply n info = info\<lparr>ti_supply := (ti_supply info)\<lparr>sup_circulating := sup_circulating (ti_supply info) + n,
     sup_total := sup_total (ti_supply info) + n\<rparr>\<rparr>"

definition sub_supply :: "token_amount \<Rightarrow> token_info \<Rightarrow> token_info" where
  "sub_supply n info = info\<lparr>ti_supply := (ti_supply info)\<lparr>sup_circulating := sup_circulating (ti_supply info) - n,
     sup_total := sup_total (ti_supply info) - n\<rparr>\<rparr>"

text \<open>The balance a mint adds to: nothing is read for the anonymous address.\<close>

definition mint_base :: "('m, 'v) ext \<Rightarrow> (bytes \<Rightarrow> 'v option) \<Rightarrow> symbol \<Rightarrow> address \<Rightarrow> token_amount" where
  "mint_base E f symbol a = (if a = Anonymous then 0 else balance_at E f a symbol)"

lemma mint_entry_Ok:
  assumes "merk_laws E V C" "get_symbols E s = Ok symbols" "symbol \<in> set symbols"
    and "mint_entry E s symbol supply (a, n) (batch, c, keys) = Ok acc"
  obtains keys' where "0 < n" "\<forall>x. sup_maximum supply = Some x \<longrightarrow> sup_circulating supply + (c + n) \<le> x"
    "acc = (batch @ [(key_for_account_balance E a symbol, put_amount E (mint_base E (sv V s) symbol a + n))], c + n, keys')"
proof -
  obtain b k where n: "0 < n" and g: "get_multiple_balances E a [symbol] s = Ok (b, k)"
    and mx: "\<forall>x. sup_maximum supply = Some x \<longrightarrow> sup_circulating supply + (c + n) \<le> x"
    and acc: "acc = (batch @ [(key_for_account_balance E a symbol,
        put_amount E (case map_of b symbol of Some b \<Rightarrow> b + n | None \<Rightarrow> n))], c + n,
        keys @ k @ [key_for_account_balance E a symbol])"
    using assms(4) by (auto simp: mint_entry_def Let_def act_simps not_less split: option.splits)
  have "(case map_of b symbol of Some b \<Rightarrow> b + n | None \<Rightarrow> n) = mint_base E (sv V s) symbol a + n"
    using get_multiple_balances_Ok [OF assms(1) g assms(2,3)]
    by (auto simp: mint_base_def amount_at_def split: if_splits option.splits)
  then show thesis
    using that [OF n mx] acc by simp
qed

lemma mint_fold:
  assumes "merk_laws E V C" "get_symbols E s = Ok symbols" "symbol \<in> set symbols"
    and "res_fold (mint_entry E s symbol supply) d (batch0, c0, keys0) = Ok (batch, c, keys)"
  shows "batch = batch0 @ new_amounts E symbol (map (\<lambda>(a, n). (a, mint_base E (sv V s) symbol a + n)) d) \<and>
    c = c0 + sum_list (map snd d) \<and> (\<forall>(a, n)\<in>set d. 0 < n) \<and>
    (d \<noteq> [] \<longrightarrow> (\<forall>x. sup_maximum supply = Some x \<longrightarrow> sup_circulating supply + c \<le> x))"
  using assms(4)
proof (induction d arbitrary: batch0 c0 keys0)
  case (Cons e d)
  obtain a n where e: "e = (a, n)" by (cases e)
  obtain acc where acc: "mint_entry E s symbol supply (a, n) (batch0, c0, keys0) = Ok acc"
    and r: "res_fold (mint_entry E s symbol supply) d acc = Ok (batch, c, keys)"
    using Cons.prems e by (auto simp: act_simps)
  obtain keys' where n: "0 < n" and mx: "\<forall>x. sup_maximum supply = Some x \<longrightarrow> sup_circulating supply + (c0 + n) \<le> x"
    and acc': "acc = (batch0 @ [(key_for_account_balance E a symbol, put_amount E (mint_base E (sv V s) symbol a + n))], c0 + n, keys')"
    by (rule mint_entry_Ok [OF assms(1-3) acc])
  show ?case
    using Cons.IH [OF r [unfolded acc']] n mx e by (cases d) auto
qed simp

text \<open>A successful mint.\<close>

lemma mint_token_Ok:
  assumes "merk_laws E V C" "get_symbols E s = Ok symbols" "symbol \<in> set symbols"
    and "mint_token E symbol d s = (Ok keys, t)"
  obtains info v where "token_at E (sv V s) symbol = Some info"
    "enc (token_info_codec E) (add_supply (sum_list (map snd d)) info) = Inr v"
    "sv V t = (with_amounts E symbol (map (\<lambda>(a, n). (a, mint_base E (sv V s) symbol a + n)) d) (sv V s))
       (utf8 (key_for_symbol E symbol) := Some v)"
    "distinct (map fst d)" "\<forall>(a, n)\<in>set d. 0 < n"
    "d \<noteq> [] \<longrightarrow> (\<forall>x. sup_maximum (ti_supply info) = Some x \<longrightarrow> sup_circulating (ti_supply info) + sum_list (map snd d) \<le> x)"
    "ctx t = ctx s" "latest_tid t = latest_tid s" "sv C t = (if blockchain s then sv C s else sv V t)"
proof -
  obtain cs batch c keys' info x v t' where su: "get_token_supply E symbol s = Ok cs"
    and fo: "res_fold (mint_entry E s symbol cs) d ([], 0, []) = Ok (batch, c, keys')"
    and inf: "info_token E \<lparr>tia_symbol = symbol, tia_extended_info = None\<rparr> s = Ok (info, x)"
    and v: "enc (token_info_codec E) (add_supply c info) = Inr v"
    and ap: "store_apply E storage_apply_failed (sort_key fst (batch @ [(utf8 (key_for_symbol E symbol), Put v)])) s = (Ok (), t')"
    and mc: "maybe_commit E t' = (Ok (), t)"
    using assms(4) by (auto simp: mint_token_def Let_def act_simps add_supply_def)
  have i: "token_at E (sv V s) symbol = Some info"
    using info_token_Ok [OF assms(1) inf] by simp
  then have su': "cs = ti_supply info"
    using get_token_supply_Ok [OF assms(1) su] by simp
  note fold = mint_fold [OF assms(1-3) fo, simplified]
  note m = maybe_commit_Ok [OF assms(1) mc]
  have ap': "store_apply E storage_apply_failed (sort_key fst (new_amounts E symbol
      (map (\<lambda>(a, n). (a, mint_base E (sv V s) symbol a + n)) d) @ [(utf8 (key_for_symbol E symbol), Put v)])) s = (Ok (), t')"
    using ap fold by simp
  note a = apply_balances [OF assms(1) ap']
  have "distinct (map fst d)"
    using a(2) by (simp add: split_def o_def)
  moreover have "sum_list (map snd d) = c" "\<forall>(a, n)\<in>set d. 0 < n"
    "d \<noteq> [] \<longrightarrow> (\<forall>x. sup_maximum (ti_supply info) = Some x \<longrightarrow> sup_circulating (ti_supply info) + c \<le> x)"
    using fold unfolding su' by blast+
  ultimately show thesis
    using that [OF i] v a m ctx_eqD(1) [OF a(4)] by simp
qed

lemma burn_entry_Ok:
  assumes "merk_laws E V C" "get_symbols E s = Ok symbols" "symbol \<in> set symbols"
    and "burn_entry E s symbol (a, n) (batch, c, keys) = Ok acc"
  obtains keys' where "0 < n" "a \<noteq> Anonymous" "n \<le> balance_at E (sv V s) a symbol"
    "acc = (batch @ [(key_for_account_balance E a symbol, put_amount E (balance_at E (sv V s) a symbol - n))], c + n, keys')"
proof -
  obtain b k x where n: "0 < n" and g: "get_multiple_balances E a [symbol] s = Ok (b, k)"
    and x: "map_of b symbol = Some x" "n \<le> x"
    and acc: "acc = (batch @ [(key_for_account_balance E a symbol, put_amount E (x - n))], c + n,
        keys @ k @ [key_for_account_balance E a symbol])"
    using assms(4) by (auto simp: burn_entry_def Let_def act_simps not_less split: option.splits if_splits)
  have "x = balance_at E (sv V s) a symbol" "a \<noteq> Anonymous"
    using get_multiple_balances_Ok [OF assms(1) g assms(2,3)] x by (simp_all split: if_splits)
  then show thesis
    using that [OF n] x acc by simp
qed

lemma burn_fold:
  assumes "merk_laws E V C" "get_symbols E s = Ok symbols" "symbol \<in> set symbols"
    and "res_fold (burn_entry E s symbol) d (batch0, c0, keys0) = Ok (batch, c, keys)"
  shows "batch = batch0 @ new_amounts E symbol (map (\<lambda>(a, n). (a, balance_at E (sv V s) a symbol - n)) d) \<and>
    c = c0 + sum_list (map snd d) \<and> (\<forall>(a, n)\<in>set d. 0 < n \<and> a \<noteq> Anonymous \<and> n \<le> balance_at E (sv V s) a symbol)"
  using assms(4)
proof (induction d arbitrary: batch0 c0 keys0)
  case (Cons e d)
  obtain a n where e: "e = (a, n)" by (cases e)
  obtain acc where acc: "burn_entry E s symbol (a, n) (batch0, c0, keys0) = Ok acc"
    and r: "res_fold (burn_entry E s symbol) d acc = Ok (batch, c, keys)"
    using Cons.prems e by (auto simp: act_simps)
  obtain keys' where n: "0 < n" "a \<noteq> Anonymous" "n \<le> balance_at E (sv V s) a symbol"
    and acc': "acc = (batch0 @ [(key_for_account_balance E a symbol, put_amount E (balance_at E (sv V s) a symbol - n))], c0 + n, keys')"
    by (rule burn_entry_Ok [OF assms(1-3) acc])
  show ?case
    using Cons.IH [OF r [unfolded acc']] n e by auto
qed simp

text \<open>A successful burn.\<close>

lemma burn_token_Ok:
  assumes "merk_laws E V C" "get_symbols E s = Ok symbols" "symbol \<in> set symbols"
    and "burn_token E symbol d s = (Ok keys, t)"
  obtains info v where "token_at E (sv V s) symbol = Some info"
    "sum_list (map snd d) \<le> sup_circulating (ti_supply info)" "sum_list (map snd d) \<le> sup_total (ti_supply info)"
    "enc (token_info_codec E) (sub_supply (sum_list (map snd d)) info) = Inr v"
    "sv V t = (with_amounts E symbol (map (\<lambda>(a, n). (a, balance_at E (sv V s) a symbol - n)) d) (sv V s))
       (utf8 (key_for_symbol E symbol) := Some v)"
    "distinct (map fst d)" "\<forall>(a, n)\<in>set d. 0 < n \<and> a \<noteq> Anonymous \<and> n \<le> balance_at E (sv V s) a symbol"
    "ctx t = ctx s" "latest_tid t = latest_tid s" "sv C t = (if blockchain s then sv C s else sv V t)"
proof -
  obtain batch c keys' info x v t'
    where fo: "res_fold (burn_entry E s symbol) d ([], 0, []) = Ok (batch, c, keys')"
    and inf: "info_token E \<lparr>tia_symbol = symbol, tia_extended_info = None\<rparr> s = Ok (info, x)"
    and le: "c \<le> sup_circulating (ti_supply info)" "c \<le> sup_total (ti_supply info)"
    and v: "enc (token_info_codec E) (sub_supply c info) = Inr v"
    and ap: "store_apply E storage_apply_failed (sort_key fst (batch @ [(utf8 (key_for_symbol E symbol), Put v)])) s = (Ok (), t')"
    and mc: "maybe_commit E t' = (Ok (), t)"
    using assms(4) by (auto simp: burn_token_def Let_def act_simps sub_supply_def)
  have i: "token_at E (sv V s) symbol = Some info"
    using info_token_Ok [OF assms(1) inf] by simp
  note fold = burn_fold [OF assms(1-3) fo, simplified]
  note m = maybe_commit_Ok [OF assms(1) mc]
  have ap': "store_apply E storage_apply_failed (sort_key fst (new_amounts E symbol
      (map (\<lambda>(a, n). (a, balance_at E (sv V s) a symbol - n)) d) @ [(utf8 (key_for_symbol E symbol), Put v)])) s = (Ok (), t')"
    using ap fold by simp
  note a = apply_balances [OF assms(1) ap']
  have "distinct (map fst d)"
    using a(2) by (simp add: split_def o_def)
  moreover have "sum_list (map snd d) = c" "\<forall>(a, n)\<in>set d. 0 < n \<and> a \<noteq> Anonymous \<and> n \<le> balance_at E (sv V s) a symbol"
    using fold by blast+
  ultimately show thesis
    using that [OF i] le v a m ctx_eqD(1) [OF a(4)] by simp
qed

section \<open>Effect of creating a token\<close>

lemma update_symbols_Ok:
  assumes "merk_laws E V C" "update_symbols E symbol ticker s = (Ok keys, t)"
  obtains m v where "get_symbols_and_tickers E s = Ok m" "enc (symbols_codec E) (bt_insert symbol ticker m) = Inr v"
    "sv V t = (sv V s)(utf8 SYMBOLS_ROOT := Some v)" "sv C t = sv C s" "ctx t = ctx s" "latest_tid t = latest_tid s"
proof -
  have k: "utf8 ''/config/symbols'' = utf8 SYMBOLS_ROOT"
    by (simp add: SYMBOLS_ROOT_def)
  obtain m v where "get_symbols_and_tickers E s = Ok m" "enc (symbols_codec E) (bt_insert symbol ticker m) = Inr v"
    and ap: "store_apply E storage_apply_failed [(utf8 SYMBOLS_ROOT, Put v)] s = (Ok (), t)"
    using assms(2) unfolding update_symbols_def k by (auto simp: act_simps)
  then show thesis
    using that store_apply_Ok [OF assms(1) ap] by simp
qed

lemma create_token_Ok:
  assumes "merk_laws E V C" "create_token E sender args s = (Ok (info, keys), t)"
  obtains i n c symbols v x u ev m where
    "identity_or_root E TOKEN_IDENTITY_ROOT s = Ok i" "get_subresource_counter E i s = Ok n"
    "get_symbols E s = Ok symbols" "ti_symbol info \<notin> set symbols" "with_subresource_id i c = Ok (ti_symbol info)"
    "n \<le> c" "c \<le> MAX_SUBRESOURCE_ID"
    "info = created_info sender args (ti_symbol info)"
    "enc (token_info_codec E) info = Inr v"
    "sv V t = (with_amounts E (ti_symbol info) (initial_distribution args)
       ((sv V s)(key_for_subresource_counter E i (token_migration_active s) := Some (val_of_bytes E (u32_to_be_bytes (c + 1))),
         utf8 SYMBOLS_ROOT := Some u, key_for_event (next_id E s) := Some ev, EVENT_COUNT_ROOT := Some m)))
       (utf8 (key_for_symbol E (ti_symbol info)) := Some v, key_for_ext_info E (ti_symbol info) := Some x)"
    "distinct (map fst (initial_distribution args))"
    "ctx t = ctx s" "latest_tid t = next_id E s" "sv C t = (if blockchain s then sv C s else sv V t)"
proof -
  let ?ev = "\<lambda>symbol. EvTokenCreate (tca_summary args) symbol (tca_owner args) (tca_initial_distribution args)
          (tca_maximum_supply args) (tca_extended_info args) (tca_memo args)"
  obtain symbol k1 s1 k2 s2 v x s3 s4
    where ns: "get_next_subresource E TOKEN_IDENTITY_ROOT s = (Ok (symbol, k1), s1)"
    and us: "update_symbols E symbol (tis_ticker (tca_summary args)) s1 = (Ok k2, s2)"
    and v: "enc (token_info_codec E) info = Inr v"
    and lg: "log_event E (?ev symbol) s2 = (Ok (), s3)"
    and ap: "store_apply E storage_apply_failed (sort_key fst (new_amounts E symbol (initial_distribution args) @
          [(utf8 (key_for_symbol E symbol), Put v), (key_for_ext_info E symbol, Put x)])) s3 = (Ok (), s4)"
    and mc: "maybe_commit E s4 = (Ok (), t)"
    and inf: "info = created_info sender args symbol"
    using assms(2) by (auto simp: create_token_def Let_def act_simps)
  have sy: "symbol = ti_symbol info"
    using inf by (simp add: created_info_def Let_def)
  have r: "TOKEN_IDENTITY_ROOT \<in> {ACCOUNT_IDENTITY_ROOT, TOKEN_IDENTITY_ROOT}"
    by simp
  obtain i n c symbols where "identity_or_root E TOKEN_IDENTITY_ROOT s = Ok i" "get_subresource_counter E i s = Ok n"
    "get_symbols E s = Ok symbols" "symbol \<notin> set symbols" "with_subresource_id i c = Ok symbol" "n \<le> c" "c \<le> MAX_SUBRESOURCE_ID"
    and s1: "sv V s1 = (sv V s)(key_for_subresource_counter E i (token_migration_active s) :=
      Some (val_of_bytes E (u32_to_be_bytes (c + 1))))" "sv C s1 = sv C s" "latest_tid s1 = latest_tid s" "ctx s1 = ctx s"
    using get_next_subresource_Ok [OF assms(1) r ns] by metis
  note n = this(1-7)
  obtain u where s2: "sv V s2 = (sv V s1)(utf8 SYMBOLS_ROOT := Some u)" "sv C s2 = sv C s1" "ctx s2 = ctx s1"
    "latest_tid s2 = latest_tid s1"
    using update_symbols_Ok [OF assms(1) us] by metis
  obtain ev w where s3: "sv V s3 = (sv V s2)(key_for_event (next_id E s2) := Some ev, EVENT_COUNT_ROOT := Some w)"
    "latest_tid s3 = next_id E s2" "ctx s3 = ctx s2"
    using log_event_Ok [OF assms(1) lg] by metis
  note a = apply_balances [OF assms(1) ap] and m = maybe_commit_Ok [OF assms(1) mc]
  have ctx: "ctx s2 = ctx s" "ctx s4 = ctx s" "ctx t = ctx s"
    by (simp_all only: s1 s2 s3 a m)
  have bc: "blockchain s2 = blockchain s" "blockchain s4 = blockchain s"
    by (rule ctx_eqD(1), rule ctx)+
  have t: "sv V t = (with_amounts E symbol (initial_distribution args)
       ((sv V s)(key_for_subresource_counter E i (token_migration_active s) := Some (val_of_bytes E (u32_to_be_bytes (c + 1))),
         utf8 SYMBOLS_ROOT := Some u, key_for_event (next_id E s) := Some ev, EVENT_COUNT_ROOT := Some w)))
       (utf8 (key_for_symbol E symbol) := Some v, key_for_ext_info E symbol := Some x)"
    by (simp only: m(1) a(1) s1 s2 s3 apply_ops_simps apply_op.simps)
  have l: "latest_tid t = next_id E s"
    by (simp only: m(3) a(5) s1 s2 s3)
  have C: "sv C t = (if blockchain s then sv C s else sv V t)"
    using m(1,4) bc log_event_committed [OF assms(1) lg] a(3) s2(2) s1(2) by simp
  show thesis
    by (rule that [OF n [unfolded sy] inf [unfolded sy] v t [unfolded sy] a(2) ctx(3) l C])
qed

section \<open>The supply invariant\<close>

text \<open>
  The recorded total supply of a token is its circulating supply, and covers what all addresses together
  hold; as long as the anonymous address holds none of the token, the two are equal. Of a symbol that is no
  token nobody holds anything.
\<close>

definition supply_ok :: "('m, 'v) ext \<Rightarrow> (bytes \<Rightarrow> 'v option) \<Rightarrow> symbol \<Rightarrow> bool" where
  "supply_ok E f symbol \<longleftrightarrow> finite (holders E f symbol) \<and>
    (case f (utf8 (key_for_symbol E symbol)) of
       None \<Rightarrow> holders E f symbol = {}
     | Some v \<Rightarrow> \<exists>info. dec (token_info_codec E) v = Inr info \<and>
         sup_total (ti_supply info) = sup_circulating (ti_supply info) \<and> total_held E f symbol \<le> sup_circulating (ti_supply info) \<and>
         (balance_at E f Anonymous symbol = 0 \<longrightarrow> total_held E f symbol = sup_circulating (ti_supply info)))"

lemma supply_ok_cong:
  assumes "\<And>a. balance_at E g a symbol = balance_at E f a symbol"
    and "g (utf8 (key_for_symbol E symbol)) = f (utf8 (key_for_symbol E symbol))"
  shows "supply_ok E g symbol = supply_ok E f symbol"
  unfolding supply_ok_def total_held_def holders_def assms by (rule refl)

lemma supply_ok_token:
  assumes "supply_ok E f symbol" "token_at E f symbol = Some info"
  shows "finite (holders E f symbol)" "sup_total (ti_supply info) = sup_circulating (ti_supply info)"
    "total_held E f symbol \<le> sup_circulating (ti_supply info)"
    "balance_at E f Anonymous symbol = 0 \<Longrightarrow> total_held E f symbol = sup_circulating (ti_supply info)"
  using assms by (auto simp: supply_ok_def token_at_def split: option.splits sum.splits)

text \<open>Minting adds to the balances, except that the balance of the anonymous address is read as zero and replaced.\<close>

lemma mint_balances:
  assumes "merk_laws E V C"
  shows "balance_at E (with_amounts E symbol (map (\<lambda>(a, n). (a, mint_base E f symbol a + n)) d) f) a sy =
    (if sy = symbol then (case map_of d a of Some n \<Rightarrow> mint_base E f symbol a + n | None \<Rightarrow> balance_at E f a sy)
     else balance_at E f a sy)"
proof -
  have "map_of (map (\<lambda>(a, n). (a, mint_base E f symbol a + n)) d) a = map_option (\<lambda>n. mint_base E f symbol a + n) (map_of d a)"
    by (induction d) auto
  then show ?thesis
    by (simp add: balance_with_amounts [OF assms] split: option.splits)
qed

lemma burn_balances:
  assumes "merk_laws E V C"
  shows "balance_at E (with_amounts E symbol (map (\<lambda>(a, n). (a, balance_at E f a symbol - n)) d) f) a sy =
    balance_at E f a sy - (if sy = symbol then (case map_of d a of Some n \<Rightarrow> n | None \<Rightarrow> 0) else 0)"
proof -
  have "map_of (map (\<lambda>(a, n). (a, balance_at E f a symbol - n)) d) a = map_option (\<lambda>n. balance_at E f a symbol - n) (map_of d a)"
    by (induction d) auto
  then show ?thesis
    by (simp add: balance_with_amounts [OF assms(1)] split: option.splits)
qed

text \<open>When every balance of a token grows by the entries of a list, so does the sum, and the holders stay finite.\<close>

lemma total_held_add:
  assumes "\<And>a. balance_at E g a symbol = balance_at E f a symbol + (case map_of d a of Some n \<Rightarrow> n | None \<Rightarrow> 0)"
    and "distinct (map fst d)" "finite (holders E f symbol)"
  shows "finite (holders E g symbol)" "total_held E g symbol = total_held E f symbol + sum_list (map snd d)"
proof -
  let ?S = "holders E f symbol \<union> fst ` set d"
  have S: "finite ?S" "holders E f symbol \<subseteq> ?S" "fst ` set d \<subseteq> ?S"
    using assms(3) by auto
  have g: "holders E g symbol \<subseteq> ?S"
  proof
    fix a assume "a \<in> holders E g symbol"
    then show "a \<in> ?S"
      by (cases "map_of d a") (auto simp: holders_def assms(1) dest: map_of_SomeD intro: rev_image_eqI)
  qed
  then show "finite (holders E g symbol)"
    using S(1) by (rule finite_subset)
  show "total_held E g symbol = total_held E f symbol + sum_list (map snd d)"
    unfolding total_held_superset [OF S(1) g] total_held_superset [OF S(1,2)] assms(1) sum.distrib
      sum_map_of [OF assms(2) S(1,3)] by (rule refl)
qed

lemma total_held_le:
  assumes "\<And>a. balance_at E g a symbol \<le> balance_at E f a symbol + (case map_of d a of Some n \<Rightarrow> n | None \<Rightarrow> 0)"
    and "distinct (map fst d)" "finite (holders E f symbol)"
  shows "finite (holders E g symbol)" "total_held E g symbol \<le> total_held E f symbol + sum_list (map snd d)"
proof -
  let ?S = "holders E f symbol \<union> fst ` set d"
  have S: "finite ?S" "holders E f symbol \<subseteq> ?S" "fst ` set d \<subseteq> ?S"
    using assms(3) by auto
  have g: "holders E g symbol \<subseteq> ?S"
  proof
    fix a assume a: "a \<in> holders E g symbol"
    show "a \<in> ?S"
      using a assms(1) [of a] by (cases "map_of d a") (auto simp: holders_def dest: map_of_SomeD intro: rev_image_eqI)
  qed
  then show "finite (holders E g symbol)"
    using S(1) by (rule finite_subset)
  have "total_held E g symbol \<le> (\<Sum>a\<in>?S. balance_at E f a symbol + (case map_of d a of Some n \<Rightarrow> n | None \<Rightarrow> 0))"
    unfolding total_held_superset [OF S(1) g] by (rule sum_mono) (rule assms(1))
  then show "total_held E g symbol \<le> total_held E f symbol + sum_list (map snd d)"
    unfolding total_held_superset [OF S(1,2)] sum.distrib sum_map_of [OF assms(2) S(1,3)] .
qed

text \<open>The supply of a token after a mint, from the balances after it.\<close>

lemma total_held_mint:
  assumes b: "\<And>a. balance_at E g a symbol = (case map_of d a of Some n \<Rightarrow> mint_base E f symbol a + n | None \<Rightarrow> balance_at E f a symbol)"
    and d: "distinct (map fst d)" "\<forall>(a, n)\<in>set d. 0 < n" and fin: "finite (holders E f symbol)"
  shows "finite (holders E g symbol)" "total_held E g symbol \<le> total_held E f symbol + sum_list (map snd d)"
    and "balance_at E g Anonymous symbol = 0 \<Longrightarrow>
      balance_at E f Anonymous symbol = 0 \<and> total_held E g symbol = total_held E f symbol + sum_list (map snd d)"
proof -
  have le: "balance_at E g a symbol \<le> balance_at E f a symbol + (case map_of d a of Some n \<Rightarrow> n | None \<Rightarrow> 0)" for a
    by (simp add: b mint_base_def split: option.splits)
  show "finite (holders E g symbol)" "total_held E g symbol \<le> total_held E f symbol + sum_list (map snd d)"
    using total_held_le [OF le d(1) fin] by simp_all
  assume z: "balance_at E g Anonymous symbol = 0"
  have n: "map_of d Anonymous = None"
  proof (cases "map_of d Anonymous")
    case (Some n)
    then show ?thesis
      using z b [of Anonymous] d(2) by (fastforce dest: map_of_SomeD)
  qed
  then have eq: "balance_at E g a symbol = balance_at E f a symbol + (case map_of d a of Some n \<Rightarrow> n | None \<Rightarrow> 0)" for a
    by (cases "a = Anonymous") (simp_all add: b mint_base_def split: option.splits)
  show "balance_at E f Anonymous symbol = 0 \<and> total_held E g symbol = total_held E f symbol + sum_list (map snd d)"
    using total_held_add(2) [OF eq d(1) fin] z n b [of Anonymous] by simp
qed

lemma supply_ok_mint:
  assumes "merk_laws E V C" "codec_ok (token_info_codec E)" "get_symbols E s = Ok symbols" "symbol \<in> set symbols"
    and "mint_token E symbol d s = (Ok keys, t)" "\<And>sy. supply_ok E (sv V s) sy"
  shows "supply_ok E (sv V t) sy"
proof -
  let ?f = "with_amounts E symbol (map (\<lambda>(a, n). (a, mint_base E (sv V s) symbol a + n)) d) (sv V s)"
  obtain info v where i: "token_at E (sv V s) symbol = Some info"
    and v: "enc (token_info_codec E) (add_supply (sum_list (map snd d)) info) = Inr v"
    and t: "sv V t = ?f(utf8 (key_for_symbol E symbol) := Some v)" and d: "distinct (map fst d)" "\<forall>(a, n)\<in>set d. 0 < n"
    by (rule mint_token_Ok [OF assms(1,3,4,5)]) (rule that)
  have b: "balance_at E (sv V t) a sy =
      (if sy = symbol then (case map_of d a of Some n \<Rightarrow> mint_base E (sv V s) symbol a + n | None \<Rightarrow> balance_at E (sv V s) a sy)
       else balance_at E (sv V s) a sy)" for a sy
    using mint_balances [OF assms(1), of symbol "sv V s" d a sy] by (simp add: t amount_at_def)
  show ?thesis
  proof (cases "sy = symbol")
    case True
    note old = supply_ok_token [OF assms(6) i]
    have b': "balance_at E (sv V t) a symbol =
        (case map_of d a of Some n \<Rightarrow> mint_base E (sv V s) symbol a + n | None \<Rightarrow> balance_at E (sv V s) a symbol)" for a
      using b [of a symbol] by simp
    note new = total_held_mint [OF b' d old(1)]
    have key: "sv V t (utf8 (key_for_symbol E symbol)) = Some v"
      by (simp add: t)
    show ?thesis
      using new old(2-4) codec_okD [OF assms(2) v] key unfolding True supply_ok_def
      by (auto simp: add_supply_def)
  next
    case False
    have "sv V t (utf8 (key_for_symbol E sy)) = sv V s (utf8 (key_for_symbol E sy))"
      using False by (simp add: t with_amounts_other address_key_inject [OF merk_laws_addr [OF assms(1)]])
    then show ?thesis
      using supply_ok_cong [of E "sv V t" sy "sv V s"] assms(6) b False by simp
  qed
qed

lemma supply_ok_burn:
  assumes "merk_laws E V C" "codec_ok (token_info_codec E)" "get_symbols E s = Ok symbols" "symbol \<in> set symbols"
    and "burn_token E symbol d s = (Ok keys, t)" "\<And>sy. supply_ok E (sv V s) sy"
  shows "supply_ok E (sv V t) sy"
proof -
  let ?f = "with_amounts E symbol (map (\<lambda>(a, n). (a, balance_at E (sv V s) a symbol - n)) d) (sv V s)"
  obtain info v where i: "token_at E (sv V s) symbol = Some info"
    and v: "enc (token_info_codec E) (sub_supply (sum_list (map snd d)) info) = Inr v"
    and t: "sv V t = ?f(utf8 (key_for_symbol E symbol) := Some v)" and d: "distinct (map fst d)"
    and le: "\<forall>(a, n)\<in>set d. 0 < n \<and> a \<noteq> Anonymous \<and> n \<le> balance_at E (sv V s) a symbol"
    by (rule burn_token_Ok [OF assms(1,3,4,5)]) (rule that)
  have b: "balance_at E (sv V t) a sy =
      balance_at E (sv V s) a sy - (if sy = symbol then (case map_of d a of Some n \<Rightarrow> n | None \<Rightarrow> 0) else 0)" for a sy
    using burn_balances [OF assms(1), of symbol "sv V s" d a sy] by (simp add: t amount_at_def)
  show ?thesis
  proof (cases "sy = symbol")
    case True
    note old = supply_ok_token [OF assms(6) i]
    have b': "balance_at E (sv V s) a symbol = balance_at E (sv V t) a symbol + (case map_of d a of Some n \<Rightarrow> n | None \<Rightarrow> 0)" for a
      using b [of a symbol] le by (fastforce split: option.splits dest: map_of_SomeD)
    have "holders E (sv V t) symbol \<subseteq> holders E (sv V s) symbol"
      using b' by (auto simp: holders_def)
    then have "finite (holders E (sv V t) symbol)"
      using old(1) by (rule finite_subset)
    moreover from this have "total_held E (sv V s) symbol = total_held E (sv V t) symbol + sum_list (map snd d)"
      by (rule total_held_add(2) [OF b' d])
    moreover have "balance_at E (sv V s) Anonymous symbol = balance_at E (sv V t) Anonymous symbol"
      using b' [of Anonymous] le by (fastforce split: option.splits dest: map_of_SomeD)
    moreover have "sv V t (utf8 (key_for_symbol E symbol)) = Some v"
      by (simp add: t)
    ultimately show ?thesis
      using old(2-4) codec_okD [OF assms(2) v] unfolding True supply_ok_def
      by (auto simp: sub_supply_def)
  next
    case False
    have "sv V t (utf8 (key_for_symbol E sy)) = sv V s (utf8 (key_for_symbol E sy))"
      using False by (simp add: t with_amounts_other address_key_inject [OF merk_laws_addr [OF assms(1)]])
    then show ?thesis
      using supply_ok_cong [of E "sv V t" sy "sv V s"] assms(6) b False by simp
  qed
qed

lemma create_balances:
  assumes "merk_laws E V C" "create_token E sender args s = (Ok (info, keys), t)"
  shows "balance_at E (sv V t) a sy =
    (if sy = ti_symbol info
     then (case map_of (initial_distribution args) a of Some n \<Rightarrow> n | None \<Rightarrow> balance_at E (sv V s) a sy)
     else balance_at E (sv V s) a sy)"
proof -
  let ?d = "initial_distribution args" and ?sym = "ti_symbol info"
  obtain i c v x u ev m where t: "sv V t = (with_amounts E ?sym ?d
       ((sv V s)(key_for_subresource_counter E i (token_migration_active s) := Some (val_of_bytes E (u32_to_be_bytes (c + 1))),
         utf8 SYMBOLS_ROOT := Some u, key_for_event (next_id E s) := Some ev, EVENT_COUNT_ROOT := Some m)))
       (utf8 (key_for_symbol E ?sym) := Some v, key_for_ext_info E ?sym := Some x)" (is "_ = (with_amounts E _ _ ?F)(_ := _, _ := _)")
    by (rule create_token_Ok [OF assms]) (rule that)
  have F: "balance_at E ?F a sy = balance_at E (sv V s) a sy"
    by (simp add: amount_at_def)
  show ?thesis
    using balance_with_amounts [OF assms(1), of ?sym ?d ?F a sy] unfolding F by (simp add: t amount_at_def)
qed

lemma supply_ok_create:
  assumes "merk_laws E V C" "codec_ok (token_info_codec E)" "create_token E sender args s = (Ok (info, keys), t)"
    and "sv V s (utf8 (key_for_symbol E (ti_symbol info))) = None" "\<And>sy. supply_ok E (sv V s) sy"
  shows "supply_ok E (sv V t) sy"
proof -
  let ?d = "initial_distribution args" and ?sym = "ti_symbol info"
  obtain i c v x u ev m where inf: "info = created_info sender args ?sym" and v: "enc (token_info_codec E) info = Inr v"
    and t: "sv V t = (with_amounts E ?sym ?d
       ((sv V s)(key_for_subresource_counter E i (token_migration_active s) := Some (val_of_bytes E (u32_to_be_bytes (c + 1))),
         utf8 SYMBOLS_ROOT := Some u, key_for_event (next_id E s) := Some ev, EVENT_COUNT_ROOT := Some m)))
       (utf8 (key_for_symbol E ?sym) := Some v, key_for_ext_info E ?sym := Some x)"
    and d: "distinct (map fst ?d)"
    by (rule create_token_Ok [OF assms(1,3)]) (rule that)
  note b = create_balances [OF assms(1,3)]
  show ?thesis
  proof (cases "sy = ?sym")
    case True
    have z: "balance_at E (sv V s) a ?sym = 0" and fin: "finite (holders E (sv V s) ?sym)" for a
      using assms(4) assms(5) [of ?sym] by (auto simp: supply_ok_def holders_def)
    have b': "balance_at E (sv V t) a ?sym = balance_at E (sv V s) a ?sym + (case map_of ?d a of Some n \<Rightarrow> n | None \<Rightarrow> 0)" for a
      using b [of a ?sym] z by (simp split: option.splits)
    have "total_held E (sv V s) ?sym = 0"
      by (simp add: total_held_def z)
    moreover have "sup_circulating (ti_supply info) = sum_list (map snd ?d)" "sup_total (ti_supply info) = sum_list (map snd ?d)"
      by (subst inf, simp add: created_info_def Let_def)+
    ultimately show ?thesis
      using total_held_add [OF b' d fin] codec_okD [OF assms(2) v] True by (simp add: supply_ok_def t)
  next
    case False
    have "sv V t (utf8 (key_for_symbol E sy)) = sv V s (utf8 (key_for_symbol E sy))"
      using False by (simp add: t with_amounts_other address_key_inject [OF merk_laws_addr [OF assms(1)]])
    then show ?thesis
      using supply_ok_cong [of E "sv V t" sy "sv V s"] assms(5) b False by simp
  qed
qed

lemma supply_ok_send:
  assumes "merk_laws E V C" "send E from to symbol amount memo s = (Ok keys, t)" "\<And>sy. supply_ok E (sv V s) sy"
  shows "supply_ok E (sv V t) sy"
proof -
  let ?S = "holders E (sv V s) sy \<union> {from, to}"
  have k: "sv V t (utf8 (key_for_symbol E sy)) = sv V s (utf8 (key_for_symbol E sy))"
    by (rule send_Ok [OF assms(1,2)]) (simp add: counted_other)
  have fin: "finite ?S"
    using assms(3) [of sy] by (simp add: supply_ok_def)
  have sub: "holders E (sv V t) sy \<subseteq> ?S"
    by (auto simp: holders_def send_balances [OF assms(1,2)] split: if_splits)
  have eq: "total_held E (sv V t) sy = total_held E (sv V s) sy"
    unfolding total_held_superset [OF fin sub] total_held_superset [OF fin Un_upper1]
    by (rule send_sum [OF assms(1,2) fin]) simp_all
  have anon: "balance_at E (sv V t) Anonymous sy = balance_at E (sv V s) Anonymous sy"
  proof -
    have "from \<noteq> Anonymous" "to \<noteq> Anonymous"
      by (rule send_Ok [OF assms(1,2)], simp)+
    then show ?thesis
      by (simp add: send_balances [OF assms(1,2)])
  qed
  show ?thesis
  proof (cases "sv V s (utf8 (key_for_symbol E sy))")
    case None
    then have "balance_at E (sv V s) a sy = 0" for a
      using assms(3) [of sy] by (auto simp: supply_ok_def holders_def)
    moreover have "amount \<le> balance_at E (sv V s) from symbol" "amount \<noteq> 0"
      by (rule send_Ok [OF assms(1,2)], simp)+
    ultimately have "balance_at E (sv V t) a sy = 0" for a
      by (auto simp: send_balances [OF assms(1,2)])
    then show ?thesis
      using None k by (simp add: supply_ok_def holders_def)
  next
    case (Some v)
    then show ?thesis
      using assms(3) [of sy] k eq anon finite_subset [OF sub fin] by (simp add: supply_ok_def)
  qed
qed

end
