(* ===== verification/Token_Supply.thy ===== *)
theory Token_Supply
  imports Tokens
begin

text \<open>
  The supply of tokens over the life of a ledger. A step relation collects the operations that move,
  create, mint and burn tokens (\<open>storage/ledger_commands.rs\<close>, \<open>storage/ledger_tokens.rs\<close> and
  \<open>storage/ledger_mintburn.rs\<close>); in every state reached from a sound one the recorded supply of every
  token covers what all addresses together hold, with equality unless the anonymous address holds some of
  it, and no token is created twice.
\<close>

section \<open>The symbols on disk\<close>

lemma ascii_to_string: "addr_laws E \<Longrightarrow> \<forall>c\<in>set (to_string E a). (of_char c :: nat) < 128"
  using to_string_alphabet [of E _ a] by (fastforce simp: lower_alphabet_def)

lemma symbol_of_key_symbol:
  assumes "addr_laws E"
  shows "symbol_of_key E (utf8 (key_for_symbol E sy)) = Ok sy"
proof -
  have "drop (length SYMBOLS_ROOT_DASH) (utf8 (key_for_symbol E sy)) = utf8 (to_string E sy)"
    by (simp add: key_for_symbol_def SYMBOLS_ROOT_DASH_def SYMBOLS_ROOT_def utf8_def)
  moreover have "from_str E (to_string E sy) = Ok sy"
    using inner_from_str_to_string [OF assms, of sy] by (simp add: from_str_def)
  ultimately show ?thesis
    by (simp add: symbol_of_key_def from_utf8_ascii [OF ascii_to_string [OF assms]])
qed

lemma symbol_key_in_range: "in_iter_range (PrefixRange (utf8 SYMBOLS_ROOT_DASH)) (utf8 (key_for_symbol E sy))"
  by (simp add: in_iter_range.simps key_for_symbol_def SYMBOLS_ROOT_DASH_def SYMBOLS_ROOT_def utf8_def)

lemma symbols_fold:
  assumes "res_fold (\<lambda>item symbols. res_bind (from_sum unknown item) (\<lambda>(k, _).
      res_bind (symbol_of_key E k) (\<lambda>a. Ok (bs_insert a symbols)))) (map Inr es) acc = Ok symbols"
  shows "set acc \<subseteq> set symbols \<and> (\<forall>k v sy. (k, v) \<in> set es \<longrightarrow> symbol_of_key E k = Ok sy \<longrightarrow> sy \<in> set symbols)"
  using assms
proof (induction es arbitrary: acc)
  case (Cons e es)
  obtain k v where e: "e = (k, v)" by (cases e)
  obtain a where a: "symbol_of_key E k = Ok a"
    and r: "res_fold (\<lambda>item symbols. res_bind (from_sum unknown item) (\<lambda>(k, _).
      res_bind (symbol_of_key E k) (\<lambda>a. Ok (bs_insert a symbols)))) (map Inr es) (bs_insert a acc) = Ok symbols"
    using Cons.prems e by (auto simp: act_simps)
  show ?case
    using Cons.IH [OF r] a e by auto
qed simp

text \<open>After the token migration \<open>get_symbols\<close> lists every token on disk.\<close>

lemma get_symbols_complete:
  assumes "merk_laws E V C" "merk_reliable E V C" "token_migration_active s" "get_symbols E s = Ok symbols"
    and "sv C s (utf8 (key_for_symbol E sy)) = Some v"
  shows "sy \<in> set symbols"
proof -
  obtain es where es: "all_symbols E (persistent_store s) Indeterminate = map Inr es"
    and at: "\<And>k. map_of es k = (if in_iter_range (PrefixRange (utf8 SYMBOLS_ROOT_DASH)) k then C (persistent_store s) k else None)"
    using assms(2) unfolding merk_reliable_def all_symbols_def order_mode_def by (metis sort_order.simps(7,9))
  have "(utf8 (key_for_symbol E sy), v) \<in> set es"
    using at [of "utf8 (key_for_symbol E sy)"] symbol_key_in_range [of E sy] assms(5) by (simp add: map_of_SomeD)
  moreover have "set [] \<subseteq> set symbols \<and> (\<forall>k v sy. (k, v) \<in> set es \<longrightarrow> symbol_of_key E k = Ok sy \<longrightarrow> sy \<in> set symbols)"
    by (rule symbols_fold) (use assms(3,4) es in \<open>simp add: get_symbols_def get_symbols_iter_def\<close>)
  ultimately show ?thesis
    using symbol_of_key_symbol [OF merk_laws_addr [OF assms(1)]] by blast
qed

section \<open>Symbols that were given out\<close>

text \<open>
  Every token is on disk, where \<open>get_symbols\<close> sees it, or has a subresource number below the counter of
  the token identity.
\<close>

definition symbols_reserved ::
  "('m, 'v) ext \<Rightarrow> ('m \<Rightarrow> bytes \<Rightarrow> 'v option) \<Rightarrow> ('m \<Rightarrow> bytes \<Rightarrow> 'v option) \<Rightarrow> ('m, 'v) ledger_storage \<Rightarrow> bool" where
  "symbols_reserved E V C s \<longleftrightarrow>
    (\<forall>sy. sv V s (utf8 (key_for_symbol E sy)) \<noteq> None \<longrightarrow>
      sv C s (utf8 (key_for_symbol E sy)) \<noteq> None \<or>
      (\<exists>i n c. identity_or_root E TOKEN_IDENTITY_ROOT s = Ok i \<and> get_subresource_counter E i s = Ok n \<and>
        with_subresource_id i c = Ok sy \<and> c < n))"

lemma identity_or_root_cong:
  assumes "merk_reliable E V C" "sv V t (utf8 root) = sv V s (utf8 root)" "sv V t (utf8 IDENTITY_ROOT) = sv V s (utf8 IDENTITY_ROOT)"
  shows "identity_or_root E root t = identity_or_root E root s"
  unfolding identity_or_root_def get_identity_def store_get_reliable [OF assms(1)] assms(2,3) by (rule refl)

lemma get_subresource_counter_cong:
  assumes "merk_reliable E V C" "migrations t = migrations s"
    and "sv V t (key_for_subresource_counter E i (token_migration_active s)) = sv V s (key_for_subresource_counter E i (token_migration_active s))"
  shows "get_subresource_counter E i t = get_subresource_counter E i s"
  unfolding get_subresource_counter_def store_get_reliable [OF assms(1)] assms(2,3) by (rule refl)

lemma with_subresource_id_Ok:
  assumes "with_subresource_id i c = Ok a"
  shows "c \<le> MAX_SUBRESOURCE_ID" "subresource_id a = Some c"
proof -
  have "c \<le> MAX_SUBRESOURCE_ID \<and> subresource_id a = Some (ucast (ucast c :: 31 word))"
    using assms by (cases i) (auto simp: with_subresource_id_def subid_try_into_def of_byte_array_subresource not_less split: if_splits)
  then show "c \<le> MAX_SUBRESOURCE_ID" "subresource_id a = Some c"
    by (simp_all add: ucast_31(2) take_bit_31_id)
qed

lemma subresource_less_inc:
  assumes "c \<le> MAX_SUBRESOURCE_ID"
  shows "c < c + 1"
proof -
  have "c \<noteq> - 1"
    using assms by (auto simp: MAX_SUBRESOURCE_ID_def word_le_nat_alt unsigned_minus_1_eq_mask mask_eq_exp_minus_1)
  then show ?thesis
    using unatSuc [of c] by (simp add: word_less_nat_alt add.commute eq_neg_iff_add_eq_0)
qed

text \<open>A created token is new.\<close>

lemma created_symbol_new:
  assumes "merk_laws E V C" "merk_reliable E V C" "token_migration_active s" "symbols_reserved E V C s"
    and "create_token E sender args s = (Ok (info, keys), t)"
  shows "sv V s (utf8 (key_for_symbol E (ti_symbol info))) = None"
proof (rule ccontr)
  assume a: "sv V s (utf8 (key_for_symbol E (ti_symbol info))) \<noteq> None"
  obtain i n c symbols where i: "identity_or_root E TOKEN_IDENTITY_ROOT s = Ok i" "get_subresource_counter E i s = Ok n"
    and sy: "get_symbols E s = Ok symbols" "ti_symbol info \<notin> set symbols"
    and c: "with_subresource_id i c = Ok (ti_symbol info)" "n \<le> c"
    by (rule create_token_Ok [OF assms(1,5)]) (rule that)
  have "sv C s (utf8 (key_for_symbol E (ti_symbol info))) = None"
    using get_symbols_complete [OF assms(1,2,3) sy(1)] sy(2) by (cases "sv C s (utf8 (key_for_symbol E (ti_symbol info)))") auto
  then obtain d where d: "with_subresource_id i d = Ok (ti_symbol info)" "d < n"
    using assms(4) a i unfolding symbols_reserved_def by fastforce
  then have "d = c"
    using with_subresource_id_Ok(2) [OF c(1)] with_subresource_id_Ok(2) [OF d(1)] by simp
  then show False
    using d(2) c(2) by simp
qed

text \<open>Operations that write no identity, no counter and no new symbol keep the symbols reserved.\<close>

lemma symbols_reserved_keep:
  assumes "merk_reliable E V C" "symbols_reserved E V C s" "ctx t = ctx s"
    and "sv C t = (if blockchain s then sv C s else sv V t)"
    and "\<And>root. root \<in> {IDENTITY_ROOT, TOKEN_IDENTITY_ROOT} \<Longrightarrow> sv V t (utf8 root) = sv V s (utf8 root)"
    and "\<And>i b. sv V t (key_for_subresource_counter E i b) = sv V s (key_for_subresource_counter E i b)"
    and "\<And>sy. sv V t (utf8 (key_for_symbol E sy)) = None \<longleftrightarrow> sv V s (utf8 (key_for_symbol E sy)) = None"
  shows "symbols_reserved E V C t"
proof -
  have "identity_or_root E TOKEN_IDENTITY_ROOT t = identity_or_root E TOKEN_IDENTITY_ROOT s"
    by (rule identity_or_root_cong [OF assms(1)]) (simp_all add: assms(5))
  moreover have "get_subresource_counter E i t = get_subresource_counter E i s" for i
    by (rule get_subresource_counter_cong [OF assms(1) ctx_eqD(4) [OF assms(3)] assms(6)])
  ultimately show ?thesis
    using assms(2,4,7) unfolding symbols_reserved_def by auto
qed

text \<open>The four operations keep the symbols reserved.\<close>

lemma with_amounts_keys [simp]:
  "with_amounts E symbol xs f (utf8 IDENTITY_ROOT) = f (utf8 IDENTITY_ROOT)"
  "with_amounts E symbol xs f (utf8 TOKEN_IDENTITY_ROOT) = f (utf8 TOKEN_IDENTITY_ROOT)"
  "with_amounts E symbol xs f (key_for_subresource_counter E i b) = f (key_for_subresource_counter E i b)"
  "with_amounts E symbol xs f (utf8 (key_for_symbol E sy)) = f (utf8 (key_for_symbol E sy))"
  by (simp_all add: with_amounts_other)

lemma counter_key_other [simp]:
  "key_for_subresource_counter E i b \<noteq> key_for_event e" "key_for_subresource_counter E i b \<noteq> EVENT_COUNT_ROOT"
  "key_for_subresource_counter E i b \<noteq> DATA_ATTRIBUTES_KEY" "key_for_subresource_counter E i b \<noteq> key_for_ext_info E sy"
  "key_for_subresource_counter E i b \<noteq> utf8 SYMBOLS_ROOT"
  by (cases b; simp)+

lemma send_reserved:
  assumes "merk_laws E V C" "merk_reliable E V C" "send E from to symbol amount memo s = (Ok keys, t)" "symbols_reserved E V C s"
  shows "symbols_reserved E V C t"
proof -
  obtain g v where g: "counted E (sv V s) g from to amount symbol" "ctx t = ctx s"
    and t: "sv V t = g(key_for_account_balance E from symbol := Some (amount_val E (balance_at E (sv V s) from symbol - amount)),
       key_for_account_balance E to symbol := Some (amount_val E (balance_at E (sv V s) to symbol + amount)),
       key_for_event (next_id E s) := Some v,
       EVENT_COUNT_ROOT := Some (val_of_bytes E (u64_to_be_bytes (u64_at E EVENT_COUNT_ROOT (sv V s) + 1))))"
    by (rule send_Ok [OF assms(1,3)]) (rule that)
  show ?thesis
    by (rule symbols_reserved_keep [OF assms(2,4) g(2) send_committed [OF assms(1,3)]])
      (auto simp: t counted_other [OF g(1)])
qed

lemma mint_reserved:
  assumes "merk_laws E V C" "merk_reliable E V C" "get_symbols E s = Ok symbols" "symbol \<in> set symbols"
    and "mint_token E symbol d s = (Ok keys, t)" "symbols_reserved E V C s"
  shows "symbols_reserved E V C t"
proof -
  obtain info v where i: "token_at E (sv V s) symbol = Some info" "ctx t = ctx s" "sv C t = (if blockchain s then sv C s else sv V t)"
    and t: "sv V t = (with_amounts E symbol (map (\<lambda>(a, n). (a, mint_base E (sv V s) symbol a + n)) d) (sv V s))
       (utf8 (key_for_symbol E symbol) := Some v)"
    by (rule mint_token_Ok [OF assms(1,3-5)]) (rule that)
  have "sv V s (utf8 (key_for_symbol E symbol)) \<noteq> None"
    using i(1) by (auto simp: token_at_def split: option.splits)
  then show ?thesis
    by (intro symbols_reserved_keep [OF assms(2,6) i(2,3)])
      (auto simp: t address_key_inject [OF merk_laws_addr [OF assms(1)]])
qed

lemma burn_reserved:
  assumes "merk_laws E V C" "merk_reliable E V C" "get_symbols E s = Ok symbols" "symbol \<in> set symbols"
    and "burn_token E symbol d s = (Ok keys, t)" "symbols_reserved E V C s"
  shows "symbols_reserved E V C t"
proof -
  obtain info v where i: "token_at E (sv V s) symbol = Some info" "ctx t = ctx s" "sv C t = (if blockchain s then sv C s else sv V t)"
    and t: "sv V t = (with_amounts E symbol (map (\<lambda>(a, n). (a, balance_at E (sv V s) a symbol - n)) d) (sv V s))
       (utf8 (key_for_symbol E symbol) := Some v)"
    by (rule burn_token_Ok [OF assms(1,3-5)]) (rule that)
  have "sv V s (utf8 (key_for_symbol E symbol)) \<noteq> None"
    using i(1) by (auto simp: token_at_def split: option.splits)
  then show ?thesis
    by (intro symbols_reserved_keep [OF assms(2,6) i(2,3)])
      (auto simp: t address_key_inject [OF merk_laws_addr [OF assms(1)]])
qed

lemma create_reserved:
  assumes "merk_laws E V C" "merk_reliable E V C" "create_token E sender args s = (Ok (info, keys), t)" "symbols_reserved E V C s"
  shows "symbols_reserved E V C t"
proof -
  obtain i n c v x u ev m where i: "identity_or_root E TOKEN_IDENTITY_ROOT s = Ok i" "get_subresource_counter E i s = Ok n"
    and c: "with_subresource_id i c = Ok (ti_symbol info)" "n \<le> c" "c \<le> MAX_SUBRESOURCE_ID"
    and t: "sv V t = (with_amounts E (ti_symbol info) (initial_distribution args)
       ((sv V s)(key_for_subresource_counter E i (token_migration_active s) := Some (val_of_bytes E (u32_to_be_bytes (c + 1))),
         utf8 SYMBOLS_ROOT := Some u, key_for_event (next_id E s) := Some ev, EVENT_COUNT_ROOT := Some m)))
       (utf8 (key_for_symbol E (ti_symbol info)) := Some v, key_for_ext_info E (ti_symbol info) := Some x)"
    and ct: "ctx t = ctx s" "sv C t = (if blockchain s then sv C s else sv V t)"
    by (rule create_token_Ok [OF assms(1,3)]) (rule that)
  note mig = ctx_eqD(4) [OF ct(1)]
  have id: "identity_or_root E TOKEN_IDENTITY_ROOT t = Ok i"
    using i(1) identity_or_root_cong [OF assms(2), of t TOKEN_IDENTITY_ROOT s] counter_key_neq [of E i "token_migration_active s"]
    by (auto simp: t)
  have cnt: "get_subresource_counter E i t = Ok (c + 1)"
    by (simp add: get_subresource_counter_def store_get_reliable [OF assms(2)] mig t merk_laws_val [OF assms(1)])
  have lt: "c < c + 1"
    using c(3) by (rule subresource_less_inc)
  show ?thesis
    unfolding symbols_reserved_def
  proof (intro allI impI)
    fix sy assume "sv V t (utf8 (key_for_symbol E sy)) \<noteq> None"
    then consider "sy = ti_symbol info" | "sy \<noteq> ti_symbol info" "sv V s (utf8 (key_for_symbol E sy)) \<noteq> None"
      by (auto simp: t address_key_inject [OF merk_laws_addr [OF assms(1)]] split: if_splits)
    then show "sv C t (utf8 (key_for_symbol E sy)) \<noteq> None \<or> (\<exists>i n c. identity_or_root E TOKEN_IDENTITY_ROOT t = Ok i \<and>
        get_subresource_counter E i t = Ok n \<and> with_subresource_id i c = Ok sy \<and> c < n)"
    proof cases
      case 1
      then show ?thesis
        using id cnt c(1) lt by blast
    next
      case 2
      have "sv V t (utf8 (key_for_symbol E sy)) \<noteq> None"
        by fact
      then consider "sv C t (utf8 (key_for_symbol E sy)) \<noteq> None" | c' where "with_subresource_id i c' = Ok sy" "c' < n"
        using assms(4) 2(2) i ct(2) unfolding symbols_reserved_def by fastforce
      then show ?thesis
        using id cnt lt c(2) by cases (blast, meson less_le_trans order.strict_trans)
    qed
  qed
qed

section \<open>The life of a ledger\<close>

text \<open>
  The operations on tokens that succeed, as the endpoints call them: minting and burning only for a
  known symbol (\<open>check_symbol_exists\<close>), and creating tokens only after the token migration.
\<close>

inductive token_step :: "('m, 'v) ext \<Rightarrow> ('m, 'v) ledger_storage \<Rightarrow> ('m, 'v) ledger_storage \<Rightarrow> bool" for E where
  send: "send E a b symbol amount memo s = (Ok keys, t) \<Longrightarrow> token_step E s t"
| create: "token_migration_active s \<Longrightarrow> create_token E sender args s = (Ok (info, keys), t) \<Longrightarrow> token_step E s t"
| mint: "get_symbols E s = Ok symbols \<Longrightarrow> symbol \<in> set symbols \<Longrightarrow>
    mint_token E symbol d s = (Ok keys, t) \<Longrightarrow> token_step E s t"
| burn: "get_symbols E s = Ok symbols \<Longrightarrow> symbol \<in> set symbols \<Longrightarrow>
    burn_token E symbol d s = (Ok keys, t) \<Longrightarrow> token_step E s t"

text \<open>A ledger over a store that works, whose supplies are right and whose symbols are reserved.\<close>

definition supply_inv ::
  "('m, 'v) ext \<Rightarrow> ('m \<Rightarrow> bytes \<Rightarrow> 'v option) \<Rightarrow> ('m \<Rightarrow> bytes \<Rightarrow> 'v option) \<Rightarrow> ('m, 'v) ledger_storage \<Rightarrow> bool" where
  "supply_inv E V C s \<longleftrightarrow> merk_laws E V C \<and> merk_reliable E V C \<and> codec_ok (token_info_codec E) \<and>
    (\<forall>sy. supply_ok E (sv V s) sy) \<and> symbols_reserved E V C s"

lemma supply_inv_step:
  assumes "token_step E s t" "supply_inv E V C s"
  shows "supply_inv E V C t"
proof -
  have L: "merk_laws E V C" "merk_reliable E V C" "codec_ok (token_info_codec E)" "\<And>sy. supply_ok E (sv V s) sy"
    "symbols_reserved E V C s"
    using assms(2) by (simp_all add: supply_inv_def)
  have "(\<forall>sy. supply_ok E (sv V t) sy) \<and> symbols_reserved E V C t"
    using assms(1)
  proof cases
    case send
    then show ?thesis
      using supply_ok_send [OF L(1) _ L(4)] send_reserved [OF L(1,2) _ L(5)] by blast
  next
    case (create sender args info keys)
    note new = created_symbol_new [OF L(1,2) create(1) L(5) create(2)]
    show ?thesis
      using supply_ok_create [OF L(1,3) create(2) new L(4)] create_reserved [OF L(1,2) create(2) L(5)] by simp
  next
    case mint
    then show ?thesis
      using supply_ok_mint [OF L(1,3) _ _ _ L(4)] mint_reserved [OF L(1,2) _ _ _ L(5)] by blast
  next
    case burn
    then show ?thesis
      using supply_ok_burn [OF L(1,3) _ _ _ L(4)] burn_reserved [OF L(1,2) _ _ _ L(5)] by blast
  qed
  then show ?thesis
    using L(1-3) by (simp add: supply_inv_def)
qed

interpretation token_life: transition_invariant "token_step E" "supply_inv E V C" for E V C
  by unfold_locales (rule supply_inv_step)



text \<open>C27: Minting to the anonymous address replaces its balance instead of adding to it, so a mint to an
  anonymous address that holds tokens leaves more supply recorded than is held.\<close>

theorem anonymous_mint_breaks_supply:
  assumes "merk_laws E V C" "codec_ok (token_info_codec E)" "get_symbols E s = Ok symbols" "symbol \<in> set symbols"
    and "mint_token E symbol [(Anonymous, n)] s = (Ok keys, t)"
    and "supply_ok E (sv V s) symbol" "0 < balance_at E (sv V s) Anonymous symbol"
  shows "balance_at E (sv V t) Anonymous symbol = n \<and>
    (\<exists>info. token_at E (sv V t) symbol = Some info \<and> total_held E (sv V t) symbol < sup_circulating (ti_supply info))"
proof -
  let ?f = "with_amounts E symbol [(Anonymous, n)] (sv V s)"
  obtain info v where i: "token_at E (sv V s) symbol = Some info"
    and v: "enc (token_info_codec E) (add_supply n info) = Inr v"
    and t: "sv V t = ?f(utf8 (key_for_symbol E symbol) := Some v)"
    by (rule mint_token_Ok [OF assms(1,3-5)]) (simp add: mint_base_def)
  note old = supply_ok_token [OF assms(6) i]
  have b: "balance_at E (sv V t) a symbol = (if a = Anonymous then n else balance_at E (sv V s) a symbol)" for a
    using balance_with_amounts [OF assms(1), of symbol "[(Anonymous, n)]" "sv V s" a symbol] by (simp add: t amount_at_def)
  have A: "Anonymous \<in> holders E (sv V s) symbol"
    using assms(7) by (simp add: holders_def)
  have sub: "holders E (sv V t) symbol \<subseteq> holders E (sv V s) symbol"
    using A by (auto simp: holders_def b split: if_splits)
  have "total_held E (sv V t) symbol = (\<Sum>a\<in>holders E (sv V s) symbol. balance_at E (sv V t) a symbol)"
    by (rule total_held_superset [OF old(1) sub])
  also have "\<dots> = n + (\<Sum>a\<in>holders E (sv V s) symbol - {Anonymous}. balance_at E (sv V s) a symbol)"
    unfolding sum.remove [OF old(1) A] by (simp add: b)
  also have "\<dots> < n + total_held E (sv V s) symbol"
    unfolding total_held_def sum.remove [OF old(1) A] using assms(7) by simp
  finally show ?thesis
    using b old(3) codec_okD [OF assms(2) v] by (simp add: token_at_def t add_supply_def)
qed

section \<open>A concrete treasury\<close>

text \<open>A ledger with one token, of which one key holds 100 and the anonymous address \<open>m\<close>.\<close>

definition treasury_info :: "nat \<Rightarrow> token_info" where
  "treasury_info m = \<lparr>ti_symbol = Subresource 1 0, ti_summary = \<lparr>tis_name = ''Token'', tis_ticker = ''T'', tis_decimals = 9\<rparr>,
     ti_supply = \<lparr>sup_total = 100 + m, sup_circulating = 100 + m, sup_maximum = Some 200\<rparr>, ti_owner = None\<rparr>"

definition treasury_store :: "nat \<Rightarrow> (bytes \<times> stored) list" where
  "treasury_store m =
    [(key_for_account_balance mem_ext (PublicKey 1) (Subresource 1 0), SBytes (nat_bytes 100)),
     (key_for_account_balance mem_ext Anonymous (Subresource 1 0), SBytes (nat_bytes m)),
     (utf8 SYMBOLS_ROOT, SSymbols [(Subresource 1 0, ''T'')]),
     (utf8 (key_for_symbol mem_ext (Subresource 1 0)), STokenInfo (treasury_info m)),
     (key_for_ext_info mem_ext (Subresource 1 0), SExtInfo [])]"

definition treasury :: "nat \<Rightarrow> (mem, stored) ledger_storage" where
  "treasury m = ledger_new (treasury_store m, treasury_store m) False"

lemma treasury_view: "sv mem_view (treasury m) = map_of (treasury_store m)"
  by (simp add: treasury_def ledger_new_def)

lemma treasury_keys [simp]:
  "map_of (treasury_store m) (utf8 (key_for_symbol mem_ext sy)) = (if sy = Subresource 1 0 then Some (STokenInfo (treasury_info m)) else None)"
  by (simp add: treasury_store_def address_key_inject [OF merk_laws_addr [OF mem_laws]])

lemma treasury_balance:
  "balance_at mem_ext (sv mem_view (treasury m)) a sy =
    (if sy = Subresource 1 0 then if a = PublicKey 1 then 100 else if a = Anonymous then m else 0 else 0)"
  unfolding treasury_view by (auto simp: treasury_store_def amount_at_def amount_of_def nat_be_nat_bytes)

lemma treasury_holders: "holders mem_ext (sv mem_view (treasury m)) sy = (if sy = Subresource 1 0 then insert (PublicKey 1) (if m = 0 then {} else {Anonymous}) else {})"
  by (auto simp: holders_def treasury_balance)

lemma treasury_supply_ok: "supply_ok mem_ext (sv mem_view (treasury m)) sy"
proof -
  have "total_held mem_ext (sv mem_view (treasury m)) (Subresource 1 0) = 100 + m"
    by (simp add: total_held_def treasury_holders treasury_balance)
  then show ?thesis
    using treasury_holders [of m sy] by (simp add: supply_ok_def treasury_view treasury_info_def)
qed

lemma treasury_reserved: "symbols_reserved mem_ext mem_view mem_committed (treasury m)"
  by (simp add: symbols_reserved_def treasury_def ledger_new_def)

lemma treasury_symbols: "get_symbols mem_ext (treasury m) = Ok [Subresource 1 0]"
  by (simp add: get_symbols_def get_symbols_and_tickers_def treasury_def ledger_new_def ms_is_active_def
      store_get_def db_get_def treasury_store_def)

lemma treasury_mint:
  assumes "0 < n" "n + m \<le> 100"
  obtains keys t where "mint_token mem_ext (Subresource 1 0) [(a, n)] (treasury m) = (Ok keys, t)"
proof -
  have k: "utf8 (key_for_symbol mem_ext (Subresource 1 0)) \<noteq> key_for_account_balance mem_ext a (Subresource 1 0)"
    by simp
  have "\<exists>b l. get_multiple_balances mem_ext a [Subresource 1 0] (treasury m) = Ok (b, l)"
    by (cases "is_anonymous a")
      (simp_all add: get_multiple_balances_def get_all_balances_def treasury_symbols store_get_def db_get_def)
  then obtain b l where b: "get_multiple_balances mem_ext a [Subresource 1 0] (treasury m) = Ok (b, l)"
    by blast
  have i: "info_token mem_ext \<lparr>tia_symbol = Subresource 1 0, tia_extended_info = None\<rparr> (treasury m) = Ok (treasury_info m, [])"
    by (simp add: info_token_def store_get_def db_get_def treasury_def ledger_new_def) (simp add: treasury_store_def)
  have "\<exists>keys t. mint_token mem_ext (Subresource 1 0) [(a, n)] (treasury m) = (Ok keys, t)"
    using assms by (simp add: mint_token_def mint_entry_def get_token_supply_def i b bnd_def query_def lift_result_def Let_def
        treasury_info_def store_apply_def with_store_def db_apply_def mem_apply_def sort_key_keys_sorted put_amount_def
        maybe_commit_def commit_storage_def db_commit_def ret_def fails_if_def not_le)
  then show thesis
    using that by blast
qed



theorem anonymous_mint_breaks_supply_witness:
  "\<exists>keys t info. mint_token mem_ext (Subresource 1 0) [(Anonymous, 3)] (treasury 5) = (Ok keys, t) \<and>
     token_at mem_ext (sv mem_view t) (Subresource 1 0) = Some info \<and>
     total_held mem_ext (sv mem_view t) (Subresource 1 0) < sup_circulating (ti_supply info)"
proof -
  obtain keys t where m: "mint_token mem_ext (Subresource 1 0) [(Anonymous, 3)] (treasury 5) = (Ok keys, t)"
    by (rule treasury_mint [of 3 5 Anonymous]) simp_all
  have "Subresource 1 0 \<in> set [Subresource 1 0]" "0 < balance_at mem_ext (sv mem_view (treasury 5)) Anonymous (Subresource 1 0)"
    by (simp_all add: treasury_balance)
  then show ?thesis
    using anonymous_mint_breaks_supply [OF mem_laws mem_codecs_ok(2) treasury_symbols _ m treasury_supply_ok] m by blast
qed

end
