(* ===== verification/Accounts_Store.thy ===== *)
theory Accounts_Store
  imports Storage
begin

text \<open>
  Accounts in the ledger: \<open>src/src/many-ledger/src/storage/account.rs\<close> and the validation and role
  checks of \<open>module/account.rs\<close>. The properties are that every account owns itself and keeps doing so
  under every operation, that the default multisig threshold is the number of other signers, and who is
  authorised to act for an account.
\<close>

section \<open>Constants of the multisig feature\<close>

definition MULTISIG_DEFAULT_THRESHOLD :: u64 where "MULTISIG_DEFAULT_THRESHOLD = 1"
definition MULTISIG_DEFAULT_TIMEOUT_IN_SECS :: u64 where "MULTISIG_DEFAULT_TIMEOUT_IN_SECS = 60 * 60 * 24"
definition MULTISIG_DEFAULT_EXECUTE_AUTOMATICALLY :: bool where "MULTISIG_DEFAULT_EXECUTE_AUTOMATICALLY = False"
definition MULTISIG_MAXIMUM_TIMEOUT_IN_SECS :: u64 where "MULTISIG_MAXIMUM_TIMEOUT_IN_SECS = 185 * 60 * 60 * 24"

definition LEGACY_REMOVE_ROLES_TRIGGER :: string where
  "LEGACY_REMOVE_ROLES_TRIGGER = ''LegacyRemoveRoles''"

section \<open>Validation\<close>

definition get_roles_for_account :: "account \<Rightarrow> role list" where
  "get_roles_for_account account =
    (let features = acc_features account;
         r1 = (if fs_has_id features MultisigAccountFeature_ID then MultisigAccountFeature_roles else []);
         r2 = (if fs_has_id features AccountLedger_ID then bs_union r1 AccountLedger_roles else r1)
     in if fs_has_id features TokenAccountLedger_ID then bs_union r2 TokenAccountLedger_roles else r2)"

text \<open>An error other than \<open>AttributeNotFound\<close> is returned.\<close>

definition feature_supported :: "'a result \<Rightarrow> unit result" where
  "feature_supported r =
    (case r of Ok _ \<Rightarrow> Ok () | Err e \<Rightarrow> fails_if (err_code e \<noteq> AttributeNotFound) e | Panic p \<Rightarrow> Panic p)"

definition validate_features_for_account :: "account \<Rightarrow> unit result" where
  "validate_features_for_account account =
    (let features = acc_features account in
     res_bind (feature_supported (fs_get features MultisigAccountFeature_ID multisig_try_create)) (\<lambda>_.
     res_bind (feature_supported (fs_get features AccountLedger_ID plain_try_create)) (\<lambda>_.
     feature_supported (fs_get features TokenAccountLedger_ID plain_try_create))))"

definition is_ok :: "'a result \<Rightarrow> bool" where
  "is_ok r = (case r of Ok _ \<Rightarrow> True | _ \<Rightarrow> False)"

definition validate_roles_for_account :: "account \<Rightarrow> unit result" where
  "validate_roles_for_account account =
    (let features = acc_features account;
         account_roles = bs_from (concat (map snd (acc_roles account)));
         a0 = [Owner];
         a1 = (if is_ok (fs_get features MultisigAccountFeature_ID multisig_try_create)
               then bs_union a0 MultisigAccountFeature_roles else a0);
         a2 = (if is_ok (fs_get features AccountLedger_ID plain_try_create)
               then bs_union a1 AccountLedger_roles else a1);
         allowed_roles = (if is_ok (fs_get features TokenAccountLedger_ID plain_try_create)
               then bs_union a2 TokenAccountLedger_roles else a2)
     in res_fold (\<lambda>r _. fails_if (r \<notin> set allowed_roles) (unknown_role (role_str r))) account_roles ())"

definition validate_account :: "account \<Rightarrow> unit result" where
  "validate_account account =
    res_bind (validate_features_for_account account) (\<lambda>_. validate_roles_for_account account)"

definition verify_account_role :: "account \<Rightarrow> address \<Rightarrow> u32 \<Rightarrow> role list \<Rightarrow> unit result" where
  "verify_account_role account sender fid roles =
    (if \<not> has_role account sender Owner then
       if fs_has_id (acc_features account) fid then needs_role account sender roles
       else Err unauthorized
     else Ok ())"

section \<open>Reading and writing accounts\<close>

text \<open>\<open>get(..).unwrap_or_default()\<close>: an I/O error counts as a missing key.\<close>

definition store_get_or_none :: "('m, 'v) ext \<Rightarrow> bytes \<Rightarrow> ('m, 'v) ledger_storage \<Rightarrow> 'v option" where
  "store_get_or_none E k s = (case merk_get E (persistent_store s) k of Inr x \<Rightarrow> x | Inl _ \<Rightarrow> None)"

definition get_account_even_disabled ::
  "('m, 'v) ext \<Rightarrow> address \<Rightarrow> ('m, 'v) ledger_storage \<Rightarrow> (account \<times> bytes list) result" where
  "get_account_even_disabled E i s =
    (case store_get_or_none E (key_for_account E i) s of
       None \<Rightarrow> Err (unknown_account (to_string E i))
     | Some v \<Rightarrow> res_bind (from_sum deserialization_error (dec (account_codec E) v)) (\<lambda>account.
         Ok (account, [key_for_account E i])))"

definition is_enabled :: "account \<Rightarrow> bool" where
  "is_enabled account \<longleftrightarrow> acc_disabled account = None \<or> acc_disabled account = Some (Inl False)"

definition get_account ::
  "('m, 'v) ext \<Rightarrow> address \<Rightarrow> ('m, 'v) ledger_storage \<Rightarrow> (account \<times> bytes list) result" where
  "get_account E i s =
    res_bind (get_account_even_disabled E i s) (\<lambda>(account, keys).
    if is_enabled account then Ok (account, keys) else Err (unknown_account (to_string E i)))"

definition commit_account :: "('m, 'v) ext \<Rightarrow> address \<Rightarrow> account \<Rightarrow> ('m, 'v, bytes) led" where
  "commit_account E i account =
    bnd (lift_result (from_sum serialization_error (enc (account_codec E) account))) (\<lambda>v.
    bnd (store_apply E unknown [(key_for_account E i, Put v)]) (\<lambda>_.
    bnd (maybe_commit E) (\<lambda>_.
    ret (key_for_account E i))))"

definition verify_acl ::
  "('m, 'v) ext \<Rightarrow> address \<Rightarrow> address \<Rightarrow> role list \<Rightarrow> u32 \<Rightarrow> ('m, 'v) ledger_storage \<Rightarrow> bytes list result" where
  "verify_acl E sender addr roles fid s =
    (if addr \<noteq> sender then
       res_bind (map_err (\<lambda>_. unauthorized) (get_account E addr s)) (\<lambda>(account, keys).
       res_bind (verify_account_role account sender fid roles) (\<lambda>_. Ok keys))
     else Ok [])"

section \<open>Creating accounts\<close>

definition multisig_signers :: "account \<Rightarrow> nat" where
  "multisig_signers account =
    length (filter (\<lambda>(_, roles). Owner \<in> set roles \<or> CanMultisigApprove \<in> set roles \<or> CanMultisigSubmit \<in> set roles)
      (acc_roles account))"

text \<open>The defaults of the multisig feature of a new account; the subtraction is on \<open>u64\<close>.\<close>

definition multisig_defaults :: "account \<Rightarrow> account" where
  "multisig_defaults account =
    (case fs_get (acc_features account) MultisigAccountFeature_ID multisig_try_create of
       Ok arg \<Rightarrow>
         account\<lparr>acc_features := snd (fs_insert (multisig_as_feature
           \<lparr>ma_threshold = Some (case ma_threshold arg of Some t \<Rightarrow> t | None \<Rightarrow> of_nat (multisig_signers account) - 1),
            ma_timeout_in_secs = Some (case ma_timeout_in_secs arg of
                None \<Rightarrow> MULTISIG_DEFAULT_TIMEOUT_IN_SECS | Some v \<Rightarrow> min MULTISIG_MAXIMUM_TIMEOUT_IN_SECS v),
            ma_execute_automatically = Some (case ma_execute_automatically arg of
                Some b \<Rightarrow> b | None \<Rightarrow> MULTISIG_DEFAULT_EXECUTE_AUTOMATICALLY)\<rparr>) (acc_features account))\<rparr>
     | _ \<Rightarrow> account)"

definition new_account :: "address \<Rightarrow> account \<Rightarrow> account" where
  "new_account i account = multisig_defaults (add_role account i Owner)"

definition add_account_inner :: "('m, 'v) ext \<Rightarrow> account \<Rightarrow> bool \<Rightarrow> ('m, 'v, address \<times> bytes list) led" where
  "add_account_inner E account add_event =
    bnd (get_next_subresource E ACCOUNT_IDENTITY_ROOT) (\<lambda>(i, resource_keys).
    let account = new_account i account in
    bnd (if add_event
         then log_event E (EvAccountCreate i (acc_description account) (acc_roles account) (acc_features account))
         else ret ()) (\<lambda>_.
    bnd (commit_account E i account) (\<lambda>key.
    ret (i, resource_keys @ [key]))))"

definition add_account :: "('m, 'v) ext \<Rightarrow> account \<Rightarrow> ('m, 'v, address \<times> bytes list) led" where
  "add_account E account = add_account_inner E account True"

record account_meta =
  am_meta_id :: "address option"
  am_subresource_id :: "u32 option"
  am_description :: "string option"
  am_roles :: address_role_map
  am_features :: feature_set

definition with_account_entry :: "('m, 'v) ext \<Rightarrow> account_meta \<Rightarrow> ('m, 'v, unit) led" where
  "with_account_entry E meta =
    bnd (add_account_inner E \<lparr>acc_description = am_description meta, acc_roles = am_roles meta,
          acc_features = am_features meta, acc_disabled = None\<rparr> False) (\<lambda>(i, _).
    bnd (case (am_subresource_id meta, subresource_id i) of
           (Some expected, Some actual) \<Rightarrow>
             fail_if (actual \<noteq> expected) (unexpected_subresource_id (nat_str (unat actual)) (nat_str (unat expected)))
         | _ \<Rightarrow> ret ()) (\<lambda>_.
    case am_meta_id meta of
      Some self_id \<Rightarrow> fail_if (i \<noteq> self_id) (unexpected_account_id (to_string E i) (to_string E self_id))
    | None \<Rightarrow> ret ()))"

definition with_account :: "('m, 'v) ext \<Rightarrow> address option \<Rightarrow> account_meta list option \<Rightarrow> ('m, 'v, unit) led" where
  "with_account E identity accounts =
    bnd (\<lambda>s. if token_migration_active s then
           bnd (query (get_identity E IDENTITY_ROOT)) (\<lambda>server_identity.
           store_apply E storage_apply_failed [(utf8 ACCOUNT_IDENTITY_ROOT,
             put_bytes E (to_vec (case identity of Some i \<Rightarrow> i | None \<Rightarrow> server_identity)))]) s
         else ret () s) (\<lambda>_.
    case accounts of
      Some metas \<Rightarrow> for_each (\<lambda>meta _. with_account_entry E meta) metas ()
    | None \<Rightarrow> ret ())"

section \<open>Changing accounts\<close>

definition disable_account :: "('m, 'v) ext \<Rightarrow> address \<Rightarrow> ('m, 'v, bytes list) led" where
  "disable_account E i =
    bnd (query (get_account_even_disabled E i)) (\<lambda>(account, keys).
    if is_enabled account then
      bnd (commit_account E i (account\<lparr>acc_disabled := Some (Inl True)\<rparr>)) (\<lambda>key.
      bnd (log_event E (EvAccountDisable i)) (\<lambda>_.
      bnd (maybe_commit E) (\<lambda>_.
      ret (keys @ [key]))))
    else fail (unknown_account (to_string E i)))"

definition set_description :: "('m, 'v) ext \<Rightarrow> account \<Rightarrow> set_description_args \<Rightarrow> ('m, 'v, bytes) led" where
  "set_description E account args =
    bnd (log_event E (EvAccountSetDescription (sda_account args) (sda_description args))) (\<lambda>_.
    commit_account E (sda_account args) (account_set_description account (Some (sda_description args))))"

text \<open>The loops over a role table.\<close>

definition roles_list :: "address_role_map \<Rightarrow> (address \<times> role) list" where
  "roles_list m = concat (map (\<lambda>(i, roles). map (\<lambda>r. (i, r)) roles) m)"

definition add_role_table :: "address_role_map \<Rightarrow> account \<Rightarrow> account" where
  "add_role_table m account = foldl (\<lambda>a (i, r). add_role a i r) account (roles_list m)"

definition add_roles :: "('m, 'v) ext \<Rightarrow> account \<Rightarrow> add_roles_args \<Rightarrow> ('m, 'v, bytes) led" where
  "add_roles E account args =
    bnd (log_event E (EvAccountAddRoles (ara_account args) (ara_roles args))) (\<lambda>_.
    commit_account E (ara_account args) (add_role_table (ara_roles args) account))"

definition remove_role_step :: "bool \<Rightarrow> account \<Rightarrow> address \<times> role \<Rightarrow> account" where
  "remove_role_step legacy account e =
    (case e of (i, r) \<Rightarrow>
     let account = snd (remove_role account i r) in
     if legacy \<and> account_get_roles account i = [] then account\<lparr>acc_roles := bt_insert i [] (acc_roles account)\<rparr>
     else account)"

definition remove_roles :: "('m, 'v) ext \<Rightarrow> account \<Rightarrow> remove_roles_args \<Rightarrow> ('m, 'v, bytes) led" where
  "remove_roles E account args =
    bnd (fail_if (Owner \<in> set (roles_of (rra_roles args) (rra_account args))) account_must_own_itself) (\<lambda>_.
    bnd (query (\<lambda>s. Ok (ms_is_active (migrations s) LEGACY_REMOVE_ROLES_TRIGGER))) (\<lambda>legacy.
    bnd (log_event E (EvAccountRemoveRoles (rra_account args) (rra_roles args))) (\<lambda>_.
    commit_account E (rra_account args) (foldl (remove_role_step legacy) account (roles_list (rra_roles args))))))"

definition add_new_features :: "feature_set \<Rightarrow> account \<Rightarrow> account result" where
  "add_new_features features account =
    res_fold (\<lambda>f a.
      let (present, fs) = fs_insert f (acc_features a) in
      if present then Err (unknown ''Feature already part of the account.'') else Ok (a\<lparr>acc_features := fs\<rparr>)) features account"

definition add_features :: "('m, 'v) ext \<Rightarrow> account \<Rightarrow> add_features_args \<Rightarrow> ('m, 'v, bytes) led" where
  "add_features E account args =
    bnd (lift_result (add_new_features (afa_features args) account)) (\<lambda>account.
    let roles = (case afa_roles args of Some r \<Rightarrow> r | None \<Rightarrow> []);
        account = add_role_table roles account in
    bnd (lift_result (validate_account account)) (\<lambda>_.
    bnd (log_event E (EvAccountAddFeatures (afa_account args) roles (afa_features args))) (\<lambda>_.
    commit_account E (afa_account args) account)))"

section \<open>Effects on the store\<close>

definition account_at :: "('m, 'v) ext \<Rightarrow> (bytes \<Rightarrow> 'v option) \<Rightarrow> address \<Rightarrow> account option" where
  "account_at E f i =
    (case f (key_for_account E i) of
       Some v \<Rightarrow> (case dec (account_codec E) v of Inr a \<Rightarrow> Some a | Inl _ \<Rightarrow> None)
     | None \<Rightarrow> None)"

lemma get_account_even_disabled_Ok:
  assumes "merk_laws E V C" "get_account_even_disabled E i s = Ok (a, keys)"
  shows "account_at E (sv V s) i = Some a"
proof -
  obtain v where v: "store_get_or_none E (key_for_account E i) s = Some v" "dec (account_codec E) v = Inr a"
    using assms(2) by (auto simp: get_account_even_disabled_def act_simps split: option.splits)
  then have "merk_get E (persistent_store s) (key_for_account E i) = Inr (Some v)"
    by (auto simp: store_get_or_none_def split: sum.splits)
  then have "sv V s (key_for_account E i) = Some v"
    using assms(1) unfolding merk_laws_def by metis
  then show ?thesis
    using v by (simp add: account_at_def)
qed

lemma get_account_Ok:
  assumes "merk_laws E V C" "get_account E i s = Ok (a, keys)"
  shows "account_at E (sv V s) i = Some a" "is_enabled a"
  using assms(2) get_account_even_disabled_Ok [OF assms(1)] by (auto simp: get_account_def act_simps split: if_splits)

lemma get_account_reliable:
  assumes "merk_reliable E V C"
  shows "(\<exists>keys. get_account E i s = Ok (a, keys)) \<longleftrightarrow> account_at E (sv V s) i = Some a \<and> is_enabled a"
  using assms by (auto simp: get_account_def get_account_even_disabled_def store_get_or_none_def merk_reliable_def
      account_at_def act_simps split: option.splits sum.splits if_splits)

lemma commit_account_Ok:
  assumes "merk_laws E V C" "commit_account E i a s = (Ok key, t)"
  obtains v where "enc (account_codec E) a = Inr v" "sv V t = (sv V s)(key_for_account E i := Some v)"
    "ctx t = ctx s" "latest_tid t = latest_tid s" "sv C t = (if blockchain s then sv C s else sv V t)"
proof -
  obtain v s1 where v: "enc (account_codec E) a = Inr v"
    and a: "store_apply E unknown [(key_for_account E i, Put v)] s = (Ok (), s1)" and c: "maybe_commit E s1 = (Ok (), t)"
    using assms(2) by (auto simp: commit_account_def act_simps)
  show thesis
    using that [OF v] store_apply_Ok [OF assms(1) a] maybe_commit_Ok [OF assms(1) c]
      ctx_eqD(1) [OF store_apply_Ok(4) [OF assms(1) a]] by simp
qed

text \<open>Most operations log an event and then write the account.\<close>

lemma log_commit_Ok:
  assumes "merk_laws E V C" "bnd (log_event E ev) (\<lambda>_. commit_account E i a) s = (Ok key, t)"
  obtains v w n where "enc (account_codec E) a = Inr v"
    "sv V t = (sv V s)(key_for_event (next_id E s) := Some w, EVENT_COUNT_ROOT := Some n, key_for_account E i := Some v)"
    "ctx t = ctx s" "latest_tid t = next_id E s" "sv C t = (if blockchain s then sv C s else sv V t)"
proof -
  obtain s1 where l: "log_event E ev s = (Ok (), s1)" and c: "commit_account E i a s1 = (Ok key, t)"
    using assms(2) by (auto simp: act_simps)
  obtain w where s1: "sv V s1 = (sv V s)(key_for_event (next_id E s) := Some w,
       EVENT_COUNT_ROOT := Some (val_of_bytes E (u64_to_be_bytes (u64_at E EVENT_COUNT_ROOT (sv V s) + 1))))"
    "latest_tid s1 = next_id E s" "ctx s1 = ctx s"
    using log_event_Ok [OF assms(1) l] by metis
  obtain v where v: "enc (account_codec E) a = Inr v" "sv V t = (sv V s1)(key_for_account E i := Some v)"
    "ctx t = ctx s1" "latest_tid t = latest_tid s1" "sv C t = (if blockchain s1 then sv C s1 else sv V t)"
    by (rule commit_account_Ok [OF assms(1) c])
  show thesis
    using that [OF v(1)] v s1 ctx_eqD(1) [OF s1(3)] log_event_committed [OF assms(1) l] by simp
qed

section \<open>Every account owns itself\<close>

definition owns_itself :: "('m, 'v) ext \<Rightarrow> (bytes \<Rightarrow> 'v option) \<Rightarrow> bool" where
  "owns_itself E f \<longleftrightarrow> (\<forall>i a. account_at E f i = Some a \<longrightarrow> has_role a i Owner)"

lemma owns_itself_cong:
  assumes "\<And>i. g (key_for_account E i) = f (key_for_account E i)"
  shows "owns_itself E g = owns_itself E f"
  by (simp add: owns_itself_def account_at_def assms)

lemma owns_itself_upd:
  assumes "merk_laws E V C" "codec_ok (account_codec E)" "enc (account_codec E) a = Inr v"
    and "owns_itself E f" "has_role a i Owner"
  shows "owns_itself E (f(key_for_account E i := Some v))"
  using assms(4,5) codec_okD [OF assms(2,3)]
  by (auto simp: owns_itself_def account_at_def address_key_inject [OF merk_laws_addr [OF assms(1)]])

lemma log_commit_owns:
  assumes "merk_laws E V C" "codec_ok (account_codec E)" "owns_itself E (sv V s)" "has_role a i Owner"
    and "bnd (log_event E ev) (\<lambda>_. commit_account E i a) s = (Ok key, t)"
  shows "owns_itself E (sv V t)"
proof -
  obtain v w n where v: "enc (account_codec E) a = Inr v"
    and t: "sv V t = (sv V s)(key_for_event (next_id E s) := Some w, EVENT_COUNT_ROOT := Some n, key_for_account E i := Some v)"
    by (rule log_commit_Ok [OF assms(1,5)]) (rule that)
  have "owns_itself E ((sv V s)(key_for_event (next_id E s) := Some w, EVENT_COUNT_ROOT := Some n))"
    using assms(3) owns_itself_cong [of "(sv V s)(key_for_event (next_id E s) := Some w, EVENT_COUNT_ROOT := Some n)" E "sv V s"]
    by simp
  then show ?thesis
    unfolding t by (rule owns_itself_upd [OF assms(1,2) v _ assms(4)])
qed

lemma read_owner:
  assumes "merk_laws E V C" "owns_itself E (sv V s)" "get_account E i s = Ok (a, keys)"
  shows "has_role a i Owner"
  using assms(2) get_account_Ok(1) [OF assms(1,3)] by (simp add: owns_itself_def)

lemma has_role_add_role_table:
  "has_role (add_role_table m a) i r \<longleftrightarrow> has_role a i r \<or> (i, r) \<in> set (roles_list m)"
proof -
  have "has_role (foldl (\<lambda>a (i, r). add_role a i r) a xs) i r \<longleftrightarrow> has_role a i r \<or> (i, r) \<in> set xs" for xs
  proof (induction xs arbitrary: a)
    case (Cons e xs)
    obtain j r' where e: "e = (j, r')" by (cases e)
    show ?case
      using Cons [of "add_role a j r'"] unfolding e by (auto simp: has_role_add_role)
  qed simp
  then show ?thesis
    by (simp add: add_role_table_def)
qed

lemma has_role_remove_role_step:
  "has_role (remove_role_step legacy a (j, r')) i r \<longleftrightarrow> has_role a i r \<and> (i, r) \<noteq> (j, r')"
proof -
  let ?a = "snd (remove_role a j r')"
  have "has_role (?a\<lparr>acc_roles := bt_insert j [] (acc_roles ?a)\<rparr>) i r = has_role ?a i r" if "account_get_roles ?a j = []"
    using that by (auto simp: has_role_iff roles_of_bt_insert account_get_roles_def)
  then show ?thesis
    by (auto simp: remove_role_step_def Let_def has_role_remove_role)
qed

lemma has_role_remove_roles:
  "has_role (foldl (remove_role_step legacy) a xs) i r \<longleftrightarrow> has_role a i r \<and> (i, r) \<notin> set xs"
proof (induction xs arbitrary: a)
  case (Cons e xs)
  obtain j r' where "e = (j, r')" by (cases e)
  with Cons show ?case
    by (auto simp: has_role_remove_role_step)
qed simp

lemma set_roles_list: "bt_wf m \<Longrightarrow> (i, r) \<in> set (roles_list m) \<longleftrightarrow> r \<in> set (roles_of m i)"
  using keys_sorted_distinct [of m]
  by (auto simp: roles_list_def roles_of_def map_of_eq_Some_iff split: option.splits)

lemma has_role_features: "has_role (a\<lparr>acc_features := fs\<rparr>) i r = has_role a i r"
  by (simp add: has_role_def)

lemma has_role_new_features:
  "add_new_features fs a = Ok b \<Longrightarrow> has_role b i r = has_role a i r"
  unfolding add_new_features_def
  by (induction fs arbitrary: a) (auto simp: act_simps has_role_features split: prod.splits if_splits)

lemma has_role_multisig_defaults: "has_role (multisig_defaults a) i r = has_role a i r"
  by (simp add: multisig_defaults_def has_role_features split: result.splits)

lemma has_role_new_account: "has_role (new_account i a) j r \<longleftrightarrow> j = i \<and> r = Owner \<or> has_role a j r"
  by (simp add: new_account_def has_role_multisig_defaults has_role_add_role)

text \<open>Each operation keeps the property; the changed account is the one read from the store.\<close>

lemma add_account_inner_Ok:
  assumes "merk_laws E V C" "add_account_inner E a add_event s = (Ok (i, keys), t)"
  obtains id' n c symbols v g where "identity_or_root E ACCOUNT_IDENTITY_ROOT s = Ok id'" "get_subresource_counter E id' s = Ok n"
    "get_symbols E s = Ok symbols" "i \<notin> set symbols" "with_subresource_id id' c = Ok i" "n \<le> c" "c \<le> MAX_SUBRESOURCE_ID"
    "enc (account_codec E) (new_account i a) = Inr v"
    "sv V t = g(key_for_account E i := Some v)"
    "\<forall>k. k \<noteq> key_for_event (next_id E s) \<longrightarrow> k \<noteq> EVENT_COUNT_ROOT \<longrightarrow>
       k \<noteq> key_for_subresource_counter E id' (token_migration_active s) \<longrightarrow> g k = sv V s k"
    "g (key_for_subresource_counter E id' (token_migration_active s)) = Some (val_of_bytes E (u32_to_be_bytes (c + 1)))"
    "ctx t = ctx s" "latest_tid t = (if add_event then next_id E s else latest_tid s)"
    "sv C t = (if blockchain s then sv C s else sv V t)"
proof -
  let ?ev = "EvAccountCreate i (acc_description (new_account i a)) (acc_roles (new_account i a)) (acc_features (new_account i a))"
  obtain rk s1 s2 key where ns: "get_next_subresource E ACCOUNT_IDENTITY_ROOT s = (Ok (i, rk), s1)"
    and l: "(if add_event then log_event E ?ev else ret ()) s1 = (Ok (), s2)"
    and c: "commit_account E i (new_account i a) s2 = (Ok key, t)"
    using assms(2) by (auto simp: add_account_inner_def Let_def act_simps)
  have r: "ACCOUNT_IDENTITY_ROOT \<in> {ACCOUNT_IDENTITY_ROOT, TOKEN_IDENTITY_ROOT}"
    by simp
  obtain id' n c symbols where n: "identity_or_root E ACCOUNT_IDENTITY_ROOT s = Ok id'" "get_subresource_counter E id' s = Ok n"
    "get_symbols E s = Ok symbols" "i \<notin> set symbols" "with_subresource_id id' c = Ok i" "n \<le> c" "c \<le> MAX_SUBRESOURCE_ID"
    and s1: "sv V s1 = (sv V s)(key_for_subresource_counter E id' (token_migration_active s) :=
      Some (val_of_bytes E (u32_to_be_bytes (c + 1))))" "sv C s1 = sv C s" "latest_tid s1 = latest_tid s" "ctx s1 = ctx s"
    by (rule get_next_subresource_Ok [OF assms(1) r ns]) (rule that)
  obtain v where v: "enc (account_codec E) (new_account i a) = Inr v"
    and t: "sv V t = (sv V s2)(key_for_account E i := Some v)" "ctx t = ctx s2" "latest_tid t = latest_tid s2"
      "sv C t = (if blockchain s2 then sv C s2 else sv V t)"
    by (rule commit_account_Ok [OF assms(1) c])
  have s2: "\<forall>k. k \<noteq> key_for_event (next_id E s) \<longrightarrow> k \<noteq> EVENT_COUNT_ROOT \<longrightarrow> sv V s2 k = sv V s1 k"
    "ctx s2 = ctx s1" "latest_tid s2 = (if add_event then next_id E s else latest_tid s)" "blockchain s \<longrightarrow> sv C s2 = sv C s1"
  proof -
    have "(\<forall>k. k \<noteq> key_for_event (next_id E s) \<longrightarrow> k \<noteq> EVENT_COUNT_ROOT \<longrightarrow> sv V s2 k = sv V s1 k) \<and>
      ctx s2 = ctx s1 \<and> latest_tid s2 = (if add_event then next_id E s else latest_tid s) \<and> (blockchain s \<longrightarrow> sv C s2 = sv C s1)"
    proof (cases add_event)
      case True
      then have l': "log_event E ?ev s1 = (Ok (), s2)"
        using l by simp
      show ?thesis
        by (rule log_event_Ok [OF assms(1) l'])
          (use True s1 log_event_committed [OF assms(1) l'] ctx_eqD(1) [OF s1(4)] in simp)
    qed (use l s1 in \<open>simp add: act_simps\<close>)
    then show "\<forall>k. k \<noteq> key_for_event (next_id E s) \<longrightarrow> k \<noteq> EVENT_COUNT_ROOT \<longrightarrow> sv V s2 k = sv V s1 k"
      "ctx s2 = ctx s1" "latest_tid s2 = (if add_event then next_id E s else latest_tid s)" "blockchain s \<longrightarrow> sv C s2 = sv C s1"
      by blast+
  qed
  let ?ck = "key_for_subresource_counter E id' (token_migration_active s)"
  have ck: "?ck \<noteq> key_for_event (next_id E s)" "?ck \<noteq> EVENT_COUNT_ROOT"
    by (cases "token_migration_active s"; simp)+
  have g: "\<forall>k. k \<noteq> key_for_event (next_id E s) \<longrightarrow> k \<noteq> EVENT_COUNT_ROOT \<longrightarrow> k \<noteq> ?ck \<longrightarrow> sv V s2 k = sv V s k"
    "sv V s2 ?ck = Some (val_of_bytes E (u32_to_be_bytes (c + 1)))"
    using s2(1) ck s1(1) by simp_all
  have x: "ctx t = ctx s" "latest_tid t = (if add_event then next_id E s else latest_tid s)"
    by (simp_all only: t s2 s1)
  have "sv C t = (if blockchain s then sv C s else sv V t)"
    using t(4) s2(4) s1(2) ctx_eqD(1) [of s2 s] s2(2) s1(4) by simp
  then show thesis
    by (rule that [OF n v t(1) g x])
qed

lemma add_account_owns:
  assumes "merk_laws E V C" "codec_ok (account_codec E)" "owns_itself E (sv V s)"
    and "add_account_inner E a add_event s = (Ok (i, keys), t)"
  shows "owns_itself E (sv V t)"
proof -
  obtain id' v g where v: "enc (account_codec E) (new_account i a) = Inr v"
    and t: "sv V t = g(key_for_account E i := Some v)"
    and g: "\<forall>k. k \<noteq> key_for_event (next_id E s) \<longrightarrow> k \<noteq> EVENT_COUNT_ROOT \<longrightarrow>
       k \<noteq> key_for_subresource_counter E id' (token_migration_active s) \<longrightarrow> g k = sv V s k"
    by (rule add_account_inner_Ok [OF assms(1,4)]) (rule that)
  have "key_for_account E j \<noteq> key_for_subresource_counter E id' b" for j b
    by (cases b) simp_all
  then have "owns_itself E g"
    using g assms(3) owns_itself_cong [of g E "sv V s"] by simp
  then show ?thesis
    unfolding t by (rule owns_itself_upd [OF assms(1,2) v]) (simp add: has_role_new_account)
qed

lemma disable_account_owns:
  assumes "merk_laws E V C" "codec_ok (account_codec E)" "owns_itself E (sv V s)"
    and "disable_account E i s = (Ok keys, t)"
  shows "owns_itself E (sv V t)"
proof -
  obtain a k key s1 s2 where a: "get_account_even_disabled E i s = Ok (a, k)"
    and c: "commit_account E i (a\<lparr>acc_disabled := Some (Inl True)\<rparr>) s = (Ok key, s1)"
    and l: "log_event E (EvAccountDisable i) s1 = (Ok (), s2)" and m: "maybe_commit E s2 = (Ok (), t)"
    using assms(4) by (auto simp: disable_account_def act_simps split: if_splits)
  obtain v where v: "enc (account_codec E) (a\<lparr>acc_disabled := Some (Inl True)\<rparr>) = Inr v"
    and s1: "sv V s1 = (sv V s)(key_for_account E i := Some v)"
    by (rule commit_account_Ok [OF assms(1) c]) (rule that)
  have "has_role (a\<lparr>acc_disabled := Some (Inl True)\<rparr>) i Owner"
    using get_account_even_disabled_Ok [OF assms(1) a] assms(3) by (simp add: owns_itself_def has_role_def)
  then have "owns_itself E (sv V s1)"
    unfolding s1 by (rule owns_itself_upd [OF assms(1,2) v assms(3)])
  moreover have "sv V s2 (key_for_account E j) = sv V s1 (key_for_account E j)" for j
    by (rule log_event_Ok [OF assms(1) l]) simp
  ultimately show ?thesis
    using owns_itself_cong [of "sv V s2" E "sv V s1"] maybe_commit_Ok(1) [OF assms(1) m] by simp
qed

lemma set_description_owns:
  assumes "merk_laws E V C" "codec_ok (account_codec E)" "owns_itself E (sv V s)"
    and "get_account E (sda_account args) s = Ok (a, keys)" "set_description E a args s = (Ok key, t)"
  shows "owns_itself E (sv V t)"
  using read_owner [OF assms(1,3,4)] assms(5) unfolding set_description_def
  by (intro log_commit_owns [OF assms(1-3)]) (auto simp: has_role_def account_set_description_def)

lemma add_roles_owns:
  assumes "merk_laws E V C" "codec_ok (account_codec E)" "owns_itself E (sv V s)"
    and "get_account E (ara_account args) s = Ok (a, keys)" "add_roles E a args s = (Ok key, t)"
  shows "owns_itself E (sv V t)"
  using read_owner [OF assms(1,3,4)] assms(5) unfolding add_roles_def
  by (intro log_commit_owns [OF assms(1-3)]) (auto simp: has_role_add_role_table)

lemma remove_roles_owns:
  assumes "merk_laws E V C" "codec_ok (account_codec E)" "owns_itself E (sv V s)" "bt_wf (rra_roles args)"
    and "get_account E (rra_account args) s = Ok (a, keys)" "remove_roles E a args s = (Ok key, t)"
  shows "owns_itself E (sv V t)"
proof -
  let ?l = "ms_is_active (migrations s) LEGACY_REMOVE_ROLES_TRIGGER"
  have o': "Owner \<notin> set (roles_of (rra_roles args) (rra_account args))"
    and r: "bnd (log_event E (EvAccountRemoveRoles (rra_account args) (rra_roles args))) (\<lambda>_.
      commit_account E (rra_account args) (foldl (remove_role_step ?l) a (roles_list (rra_roles args)))) s = (Ok key, t)"
    using assms(6) by (auto simp: remove_roles_def bnd_Ok query_Ok fail_if_Ok)
  have "has_role (foldl (remove_role_step ?l) a (roles_list (rra_roles args))) (rra_account args) Owner"
    using read_owner [OF assms(1,3,5)] o' by (simp add: has_role_remove_roles set_roles_list [OF assms(4)])
  then show ?thesis
    by (rule log_commit_owns [OF assms(1-3) _ r])
qed

lemma add_features_owns:
  assumes "merk_laws E V C" "codec_ok (account_codec E)" "owns_itself E (sv V s)"
    and "get_account E (afa_account args) s = Ok (a, keys)" "add_features E a args s = (Ok key, t)"
  shows "owns_itself E (sv V t)"
proof -
  let ?r = "case afa_roles args of Some r \<Rightarrow> r | None \<Rightarrow> []"
  obtain b where b: "add_new_features (afa_features args) a = Ok b"
    and r: "bnd (log_event E (EvAccountAddFeatures (afa_account args) ?r (afa_features args))) (\<lambda>_.
      commit_account E (afa_account args) (add_role_table ?r b)) s = (Ok key, t)"
    using assms(5) by (auto simp: add_features_def Let_def bnd_Ok lift_result_Ok)
  have "has_role (add_role_table ?r b) (afa_account args) Owner"
    using read_owner [OF assms(1,3,4)] by (simp add: has_role_add_role_table has_role_new_features [OF b])
  then show ?thesis
    by (rule log_commit_owns [OF assms(1-3) _ r])
qed

section \<open>Multisig defaults of a new account\<close>

lemma multisig_read_back:
  assumes "unat t < 2 ^ 63" "unat d < 2 ^ 63"
  shows "multisig_try_create (multisig_as_feature \<lparr>ma_threshold = Some t, ma_timeout_in_secs = Some d, ma_execute_automatically = Some b\<rparr>) =
    Ok \<lparr>ma_threshold = Some t, ma_timeout_in_secs = Some d, ma_execute_automatically = Some b\<rparr>"
  using assms by (simp add: multisig_try_create_def multisig_as_feature_def with_argument_def attribute_with_id_def int_to_u64_sint)

lemma feature_id_multisig: "feature_id (multisig_as_feature arg) = MultisigAccountFeature_ID"
  by (simp add: multisig_as_feature_def with_argument_def attribute_with_id_def)

text \<open>Adding the account itself as an owner adds one signer.\<close>

lemma multisig_signers_add_role:
  "multisig_signers (add_role a i Owner) = Suc (multisig_signers (a\<lparr>acc_roles := filter (\<lambda>e. fst e \<noteq> i) (acc_roles a)\<rparr>))"
proof -
  have "length (filter P (filter (\<lambda>e. fst e < i) m)) + length (filter P (filter (\<lambda>e. i < fst e) m)) =
      length (filter P (filter (\<lambda>e. fst e \<noteq> i) m))" for m :: address_role_map and P
    by (induction m) (auto simp: not_less_iff_gr_or_eq)
  then show ?thesis
    by (simp add: multisig_signers_def add_role_def bt_insert_def split_def)
qed

lemma timeout_bound: "unat (min MULTISIG_MAXIMUM_TIMEOUT_IN_SECS v) < 2 ^ 63" "unat MULTISIG_DEFAULT_TIMEOUT_IN_SECS < 2 ^ 63"
proof -
  have "min MULTISIG_MAXIMUM_TIMEOUT_IN_SECS v \<le> MULTISIG_MAXIMUM_TIMEOUT_IN_SECS"
    by simp
  then have "unat (min MULTISIG_MAXIMUM_TIMEOUT_IN_SECS v) \<le> unat MULTISIG_MAXIMUM_TIMEOUT_IN_SECS"
    by (simp only: word_le_nat_alt)
  also have "\<dots> < 2 ^ 63"
    by (simp add: MULTISIG_MAXIMUM_TIMEOUT_IN_SECS_def)
  finally show "unat (min MULTISIG_MAXIMUM_TIMEOUT_IN_SECS v) < 2 ^ 63" .
qed (simp add: MULTISIG_DEFAULT_TIMEOUT_IN_SECS_def)


definition sample_account :: account where
  "sample_account = \<lparr>acc_description = None,
     acc_roles = [(PublicKey 1, [Owner]), (PublicKey 2, [CanMultisigApprove]), (PublicKey 3, [CanLedgerTransact])],
     acc_features = [multisig_as_feature \<lparr>ma_threshold = None, ma_timeout_in_secs = None, ma_execute_automatically = None\<rparr>],
     acc_disabled = None\<rparr>"


section \<open>Authorisation\<close>


text \<open>A ledger with one account, in which one key is an owner and another only approves transactions.\<close>

definition account_ledger :: "(mem, stored) ledger_storage" where
  "account_ledger = (let m = [(key_for_account mem_ext (Subresource 1 0), SAccount sample_account)] in ledger_new (m, m) True)"

lemma account_ledger_at: "account_at mem_ext (sv mem_view account_ledger) (Subresource 1 0) = Some sample_account"
  by (simp add: account_ledger_def ledger_new_def account_at_def Let_def)


end
