(* ===== verification/Multisig.thy ===== *)
theory Multisig
  imports Balances Accounts_Store
begin

text \<open>
  Multisig transactions: \<open>src/src/many-ledger/src/storage/multisig.rs\<close>. A transaction is stored with its
  approvals until it is executed, withdrawn or expired. Executing one can approve or execute another, so
  the execution is recursive; it runs with fuel, one unit per nested execution, and running out of fuel is
  the stack overflow the code ends with.
\<close>

section \<open>Stored transactions\<close>

definition MEMO_MIGRATION :: string where "MEMO_MIGRATION = ''Memo Migration''"

definition ms_disable :: "multisig_transaction_state \<Rightarrow> multisig_transaction_storage \<Rightarrow> multisig_transaction_storage" where
  "ms_disable state tx = tx\<lparr>ms_disabled := True, ms_info := (ms_info tx)\<lparr>mi_state := state\<rparr>\<rparr>"

definition should_execute :: "multisig_transaction_storage \<Rightarrow> bool" where
  "should_execute tx \<longleftrightarrow>
    unat (mi_threshold (ms_info tx)) \<le> length (filter (\<lambda>e. approved (snd e)) (mi_approvers (ms_info tx)))"

definition get_multisig_info ::
  "('m, 'v) ext \<Rightarrow> bytes \<Rightarrow> ('m, 'v) ledger_storage \<Rightarrow> multisig_transaction_storage result" where
  "get_multisig_info E tx_id s =
    res_bind (ok_or transaction_cannot_be_found (store_get_or_none E (key_for_multisig_transaction tx_id) s)) (\<lambda>v.
    from_sum deserialization_error (dec (multisig_codec E) v))"

definition commit_multisig_transaction ::
  "('m, 'v) ext \<Rightarrow> bytes \<Rightarrow> multisig_transaction_storage \<Rightarrow> ('m, 'v, unit) led" where
  "commit_multisig_transaction E tx_id tx =
    bnd (lift_result (from_sum serialization_error (enc (multisig_codec E) tx))) (\<lambda>v.
    bnd (store_apply E storage_apply_failed [(key_for_multisig_transaction tx_id, Put v)]) (\<lambda>_.
    maybe_commit E))"

definition disable_multisig_transaction ::
  "('m, 'v) ext \<Rightarrow> bytes \<Rightarrow> multisig_transaction_state \<Rightarrow> ('m, 'v, unit) led" where
  "disable_multisig_transaction E tx_id state =
    bnd (query (get_multisig_info E tx_id)) (\<lambda>tx.
    bnd (fail_if (ms_disabled tx) transaction_expired_or_withdrawn) (\<lambda>_.
    bnd (lift_result (from_sum serialization_error (enc (multisig_codec E) (ms_disable state tx)))) (\<lambda>v.
    bnd (store_apply E storage_apply_failed [(key_for_multisig_transaction tx_id, Put v)]) (\<lambda>_.
    maybe_commit E))))"

section \<open>Expiry\<close>

text \<open>
  The loop over the stored transactions, newest first. A record whose encoding fails is skipped; the
  loop stops at a transaction that has not timed out although it is older than the maximum.
\<close>

fun timed_out_batch ::
  "('m, 'v) ext \<Rightarrow> timestamp \<Rightarrow> (string + bytes \<times> 'v) list \<Rightarrow> (bytes \<times> 'v merk_op) list \<Rightarrow> (bytes \<times> 'v merk_op) list result" where
  "timed_out_batch E now' [] batch = Ok batch"
| "timed_out_batch E now' (item # items) batch =
     res_bind (from_sum unknown item) (\<lambda>(k, v).
     res_bind (from_sum deserialization_error (dec (multisig_codec E) v)) (\<lambda>tx.
     if now' \<ge> mi_timeout (ms_info tx) then
       timed_out_batch E now' items
         (if \<not> ms_disabled tx then
            (case enc (multisig_codec E) (ms_disable Expired tx) of Inr w \<Rightarrow> batch @ [(k, Put w)] | Inl _ \<Rightarrow> batch)
          else batch)
     else
       res_bind (as_system_time now') (\<lambda>t.
       if ms_creation tx \<le> t \<and> t - ms_creation tx > unat MULTISIG_MAXIMUM_TIMEOUT_IN_SECS then Ok batch
       else timed_out_batch E now' items batch)))"

definition check_timed_out_multisig_transactions :: "('m, 'v) ext \<Rightarrow> ('m, 'v, unit) led" where
  "check_timed_out_multisig_transactions E =
    bnd (query (\<lambda>s. timed_out_batch E (now E s) (iter_multisig E Descending s) [])) (\<lambda>batch.
    bnd (if batch \<noteq> [] then store_apply E storage_apply_failed (rev batch) else ret ()) (\<lambda>_.
    maybe_commit E))"

section \<open>Defaults\<close>

definition override :: "'a option \<Rightarrow> 'a option \<Rightarrow> 'a option" where
  "override new old = (case new of Some x \<Rightarrow> Some x | None \<Rightarrow> old)"

definition set_multisig_defaults :: "('m, 'v) ext \<Rightarrow> address \<Rightarrow> set_defaults_args \<Rightarrow> ('m, 'v, unit) led" where
  "set_multisig_defaults E sender args =
    bnd (query (get_account E (sdf_account args))) (\<lambda>(account, _).
    bnd (lift_result (needs_role account sender [Owner])) (\<lambda>_.
    case fs_get (acc_features account) MultisigAccountFeature_ID multisig_try_create of
      Ok arg \<Rightarrow>
        let timeout_in_secs = map_option (\<lambda>t. min t MULTISIG_MAXIMUM_TIMEOUT_IN_SECS) (sdf_timeout_in_secs args);
            arg = \<lparr>ma_threshold = override (sdf_threshold args) (ma_threshold arg),
                   ma_timeout_in_secs = override timeout_in_secs (ma_timeout_in_secs arg),
                   ma_execute_automatically = override (sdf_execute_automatically args) (ma_execute_automatically arg)\<rparr>
        in
        bnd (log_event E (EvAccountMultisigSetDefaults sender (sdf_account args) (sdf_threshold args)
              timeout_in_secs (sdf_execute_automatically args))) (\<lambda>_.
        bnd (commit_account E (sdf_account args)
              (account\<lparr>acc_features := snd (fs_insert (multisig_as_feature arg) (acc_features account))\<rparr>)) (\<lambda>_.
        ret ()))
    | Err _ \<Rightarrow> ret ()
    | Panic p \<Rightarrow> lift_result (Panic p)))"

section \<open>Submitting\<close>

text \<open>A setting of the request is accepted from an owner only; without one the default applies.\<close>

definition owner_setting :: "bool \<Rightarrow> 'a option \<Rightarrow> 'a \<Rightarrow> 'a result" where
  "owner_setting is_owner requested fallback =
    (case requested of
       Some x \<Rightarrow> if is_owner then Ok x else Err (user_needs_role ''owner'')
     | None \<Rightarrow> Ok fallback)"

definition or_default :: "'a \<Rightarrow> 'a option \<Rightarrow> 'a" where
  "or_default d x = (case x of Some y \<Rightarrow> y | None \<Rightarrow> d)"

definition tx_timeout :: "timestamp \<Rightarrow> u64 \<Rightarrow> timestamp result" where
  "tx_timeout time timeout_in_secs =
    res_bind (as_system_time time) (\<lambda>t.
    res_bind (ok_or (unknown ''Invalid time.'') (checked_add_secs t (unat timeout_in_secs))) from_system_time)"

definition create_multisig_transaction ::
  "('m, 'v) ext \<Rightarrow> address \<Rightarrow> submit_transaction_args \<Rightarrow> ('m, 'v, bytes) led" where
  "create_multisig_transaction E sender arg =
    bnd (new_event_id E) (\<lambda>event_id.
    bnd (query (get_account E (sub_account arg))) (\<lambda>(account, _).
    let is_owner = has_role account sender Owner in
    bnd (lift_result (needs_role account sender [CanMultisigSubmit, Owner])) (\<lambda>_.
    bnd (lift_result (fs_get (acc_features account) MultisigAccountFeature_ID multisig_try_create)) (\<lambda>f.
    bnd (lift_result (owner_setting is_owner (sub_threshold arg)
          (or_default MULTISIG_DEFAULT_THRESHOLD (ma_threshold f)))) (\<lambda>threshold.
    bnd (lift_result (owner_setting is_owner (sub_timeout_in_secs arg)
          (or_default MULTISIG_DEFAULT_TIMEOUT_IN_SECS (ma_timeout_in_secs f)))) (\<lambda>requested_timeout.
    let timeout_in_secs = min requested_timeout MULTISIG_MAXIMUM_TIMEOUT_IN_SECS in
    bnd (lift_result (owner_setting is_owner (sub_execute_automatically arg)
          (or_default MULTISIG_DEFAULT_EXECUTE_AUTOMATICALLY (ma_execute_automatically f)))) (\<lambda>execute_automatically.
    bnd (query (\<lambda>s. Ok (now E s))) (\<lambda>time.
    bnd (lift_result (tx_timeout time timeout_in_secs)) (\<lambda>timeout.
    bnd (query (\<lambda>s. Ok (ms_is_active (migrations s) MEMO_MIGRATION))) (\<lambda>memo_active.
    let memo_legacy = (if memo_active then None else sub_memo_legacy arg);
        data_legacy = (if memo_active then None else sub_data_legacy arg);
        memo = (if memo_active then sub_memo arg else None)
    in
    bnd (lift_result (as_system_time time)) (\<lambda>creation.
    bnd (commit_multisig_transaction E event_id
          \<lparr>ms_account = sub_account arg,
           ms_info = \<lparr>mi_memo_legacy = memo_legacy, mi_transaction = sub_transaction arg, mi_submitter = sender,
             mi_approvers = [(sender, \<lparr>approved = True\<rparr>)], mi_threshold = threshold,
             mi_execute_automatically = execute_automatically, mi_timeout = timeout,
             mi_data_legacy = data_legacy, mi_state = Pending, mi_memo = memo\<rparr>,
           ms_creation = creation, ms_disabled = False\<rparr>) (\<lambda>_.
    bnd (log_event E (EvAccountMultisigSubmit sender (sub_account arg) memo_legacy (sub_transaction arg)
          (Some event_id) threshold timeout execute_automatically data_legacy memo)) (\<lambda>_.
    ret event_id)))))))))))))"

section \<open>Approving, revoking, executing and withdrawing\<close>

definition set_approval :: "address \<Rightarrow> bool \<Rightarrow> multisig_transaction_storage \<Rightarrow> multisig_transaction_storage" where
  "set_approval sender b tx =
    tx\<lparr>ms_info := (ms_info tx)\<lparr>mi_approvers := bt_insert sender \<lparr>approved = b\<rparr> (mi_approvers (ms_info tx))\<rparr>\<rparr>"

definition execute_response ::
  "('m, 'v) ext \<Rightarrow> bytes \<Rightarrow> multisig_transaction_storage \<Rightarrow> many_error + bytes \<Rightarrow> ('m, 'v, response_message) led" where
  "execute_response E tx_id tx result =
    bnd (query (\<lambda>s. Ok (now E s))) (\<lambda>t.
    let response = response_default\<lparr>rm_from := ms_account tx, rm_to := None, rm_data := result, rm_timestamp := Some t\<rparr> in
    bnd (block_hotfix E ''Block 9400'' (enc (block_9400_codec E) \<lparr>b94_tx_id = tx_id, b94_response = response\<rparr>)
          (dec (response_codec E))) (\<lambda>r.
    ret (or_default response r)))"

text \<open>The operations that execute a transaction, with the execution of its contents as an argument.\<close>

definition execute_internal_with ::
  "('m, 'v) ext \<Rightarrow> (bytes \<Rightarrow> multisig_transaction_storage \<Rightarrow> ('m, 'v, bytes) led) \<Rightarrow>
   bytes \<Rightarrow> multisig_transaction_storage \<Rightarrow> bool \<Rightarrow> ('m, 'v, response_message) led" where
  "execute_internal_with E exec tx_id tx automatic =
    bnd (attempt (exec tx_id tx)) (\<lambda>result.
    bnd (disable_multisig_transaction E tx_id (if automatic then ExecutedAutomatically else ExecutedManually)) (\<lambda>_.
    execute_response E tx_id tx result))"

definition approve_multisig_with ::
  "('m, 'v) ext \<Rightarrow> (bytes \<Rightarrow> multisig_transaction_storage \<Rightarrow> ('m, 'v, bytes) led) \<Rightarrow>
   address \<Rightarrow> bytes \<Rightarrow> ('m, 'v, bool) led" where
  "approve_multisig_with E exec sender tx_id =
    bnd (query (get_multisig_info E tx_id)) (\<lambda>tx0.
    bnd (fail_if (ms_disabled tx0) transaction_expired_or_withdrawn) (\<lambda>_.
    bnd (query (get_account E (ms_account tx0))) (\<lambda>(account, _).
    bnd (fail_if (\<not> has_role account sender CanMultisigApprove \<and> \<not> has_role account sender CanMultisigSubmit \<and>
          \<not> has_role account sender Owner) user_cannot_approve_transaction) (\<lambda>_.
    let tx = set_approval sender True tx0 in
    bnd (commit_multisig_transaction E tx_id tx) (\<lambda>_.
    bnd (log_event E (EvAccountMultisigApprove (ms_account tx) tx_id sender)) (\<lambda>_.
    if mi_execute_automatically (ms_info tx) \<and> should_execute tx then
      bnd (execute_internal_with E exec tx_id tx True) (\<lambda>response.
      bnd (log_event E (EvAccountMultisigExecute (ms_account tx) tx_id None response)) (\<lambda>_.
      ret True))
    else ret False))))))"

definition revoke_multisig :: "('m, 'v) ext \<Rightarrow> address \<Rightarrow> bytes \<Rightarrow> ('m, 'v, bool) led" where
  "revoke_multisig E sender tx_id =
    bnd (query (get_multisig_info E tx_id)) (\<lambda>tx.
    bnd (fail_if (ms_disabled tx) transaction_expired_or_withdrawn) (\<lambda>_.
    bnd (query (get_account E (ms_account tx))) (\<lambda>(account, _).
    bnd (fail_if (map_of (mi_approvers (ms_info tx)) sender = None \<and>
          \<not> (has_role account sender CanMultisigSubmit \<or> has_role account sender CanMultisigApprove \<or>
             has_role account sender Owner)) user_cannot_approve_transaction) (\<lambda>_.
    bnd (commit_multisig_transaction E tx_id (set_approval sender False tx)) (\<lambda>_.
    bnd (log_event E (EvAccountMultisigRevoke (ms_account tx) tx_id sender)) (\<lambda>_.
    ret False))))))"

definition execute_multisig_with ::
  "('m, 'v) ext \<Rightarrow> (bytes \<Rightarrow> multisig_transaction_storage \<Rightarrow> ('m, 'v, bytes) led) \<Rightarrow>
   address \<Rightarrow> bytes \<Rightarrow> ('m, 'v, response_message) led" where
  "execute_multisig_with E exec sender tx_id =
    bnd (query (get_multisig_info E tx_id)) (\<lambda>tx.
    bnd (fail_if (ms_disabled tx) transaction_expired_or_withdrawn) (\<lambda>_.
    bnd (query (get_account E (ms_account tx))) (\<lambda>(account, _).
    bnd (fail_if (\<not> (has_role account sender Owner \<or> mi_submitter (ms_info tx) = sender)) cannot_execute_transaction) (\<lambda>_.
    if should_execute tx then
      bnd (execute_internal_with E exec tx_id tx False) (\<lambda>response.
      bnd (log_event E (EvAccountMultisigExecute (ms_account tx) tx_id (Some sender) response)) (\<lambda>_.
      ret response))
    else fail cannot_execute_transaction))))"

definition withdraw_multisig :: "('m, 'v) ext \<Rightarrow> address \<Rightarrow> bytes \<Rightarrow> ('m, 'v, unit) led" where
  "withdraw_multisig E sender tx_id =
    bnd (query (get_multisig_info E tx_id)) (\<lambda>tx.
    bnd (fail_if (ms_disabled tx) transaction_expired_or_withdrawn) (\<lambda>_.
    bnd (query (get_account E (ms_account tx))) (\<lambda>(account, _).
    bnd (fail_if (\<not> (has_role account sender Owner \<or> mi_submitter (ms_info tx) = sender)) cannot_execute_transaction) (\<lambda>_.
    bnd (disable_multisig_transaction E tx_id Withdrawn) (\<lambda>_.
    bnd (log_event E (EvAccountMultisigWithdraw (ms_account tx) tx_id sender)) (\<lambda>_.
    ret ()))))))"

section \<open>Executing the contents of a transaction\<close>

definition empty_return :: "('m, 'v) ext \<Rightarrow> ('m, 'v, bytes) led" where
  "empty_return E = lift_result (from_sum serialization_error (empty_return_cbor E))"

definition with_owned_account ::
  "('m, 'v) ext \<Rightarrow> address \<Rightarrow> address \<Rightarrow> (account \<Rightarrow> ('m, 'v, 'a) led) \<Rightarrow> ('m, 'v, bytes) led" where
  "with_owned_account E sender i f =
    bnd (query (get_account E i)) (\<lambda>(account, _).
    bnd (lift_result (needs_role account sender [Owner])) (\<lambda>_.
    bnd (f account) (\<lambda>_. empty_return E)))"

definition execute_send :: "('m, 'v) ext \<Rightarrow> address \<Rightarrow> send_args \<Rightarrow> ('m, 'v, bytes) led" where
  "execute_send E sender args =
    bnd (lift_result (ok_or invalid_from_identity (sa_from args))) (\<lambda>from'.
    bnd (query (get_account E from')) (\<lambda>(account, _).
    bnd (lift_result (needs_role account sender [CanLedgerTransact, Owner])) (\<lambda>_.
    bnd (send E from' (sa_to args) (sa_symbol args) (sa_amount args) (sa_memo args)) (\<lambda>_.
    empty_return E))))"

definition execute_account_create :: "('m, 'v) ext \<Rightarrow> address \<Rightarrow> create_args \<Rightarrow> ('m, 'v, bytes) led" where
  "execute_account_create E sender args =
    bnd (lift_result (validate_account (account_create sender args))) (\<lambda>_.
    bnd (add_account E (account_create sender args)) (\<lambda>(i, _).
    lift_result (from_sum serialization_error (create_return_cbor E i))))"

primrec execute_multisig_tx ::
  "('m, 'v) ext \<Rightarrow> nat \<Rightarrow> bytes \<Rightarrow> multisig_transaction_storage \<Rightarrow> ('m, 'v, bytes) led" where
  "execute_multisig_tx E 0 tx_id tx = lift_result (Panic ''stack overflow'')"
| "execute_multisig_tx E (Suc fuel) tx_id tx =
    (let sender = ms_account tx in
     case mi_transaction (ms_info tx) of
       TxSend args \<Rightarrow> execute_send E sender args
     | TxAccountCreate args \<Rightarrow> execute_account_create E sender args
     | TxAccountDisable args \<Rightarrow> with_owned_account E sender (da_account args) (\<lambda>_. disable_account E (da_account args))
     | TxAccountSetDescription args \<Rightarrow> with_owned_account E sender (sda_account args) (\<lambda>a. set_description E a args)
     | TxAccountAddRoles args \<Rightarrow> with_owned_account E sender (ara_account args) (\<lambda>a. add_roles E a args)
     | TxAccountRemoveRoles args \<Rightarrow> with_owned_account E sender (rra_account args) (\<lambda>a. remove_roles E a args)
     | TxAccountAddFeatures args \<Rightarrow> with_owned_account E sender (afa_account args) (\<lambda>a. add_features E a args)
     | TxAccountMultisigSubmit arg \<Rightarrow>
         bnd (create_multisig_transaction E sender arg) (\<lambda>token.
         lift_result (from_sum serialization_error (submit_return_cbor E token)))
     | TxAccountMultisigSetDefaults arg \<Rightarrow> bnd (set_multisig_defaults E sender arg) (\<lambda>_. empty_return E)
     | TxAccountMultisigApprove arg \<Rightarrow>
         bnd (approve_multisig_with E (execute_multisig_tx E fuel) sender (arg_token arg)) (\<lambda>_. empty_return E)
     | TxAccountMultisigRevoke arg \<Rightarrow> bnd (revoke_multisig E sender (arg_token arg)) (\<lambda>_. empty_return E)
     | TxAccountMultisigExecute arg \<Rightarrow>
         bnd (execute_multisig_with E (execute_multisig_tx E fuel) sender (arg_token arg)) (\<lambda>_. empty_return E)
     | TxAccountMultisigWithdraw arg \<Rightarrow> bnd (withdraw_multisig E sender (arg_token arg)) (\<lambda>_. empty_return E)
     | _ \<Rightarrow> fail transaction_type_unsupported)"

definition execute_multisig_transaction_internal ::
  "('m, 'v) ext \<Rightarrow> nat \<Rightarrow> bytes \<Rightarrow> multisig_transaction_storage \<Rightarrow> bool \<Rightarrow> ('m, 'v, response_message) led" where
  "execute_multisig_transaction_internal E fuel = execute_internal_with E (execute_multisig_tx E fuel)"

definition approve_multisig :: "('m, 'v) ext \<Rightarrow> nat \<Rightarrow> address \<Rightarrow> bytes \<Rightarrow> ('m, 'v, bool) led" where
  "approve_multisig E fuel = approve_multisig_with E (execute_multisig_tx E fuel)"

definition execute_multisig :: "('m, 'v) ext \<Rightarrow> nat \<Rightarrow> address \<Rightarrow> bytes \<Rightarrow> ('m, 'v, response_message) led" where
  "execute_multisig E fuel = execute_multisig_with E (execute_multisig_tx E fuel)"

section \<open>Effects on the store\<close>

definition multisig_at :: "('m, 'v) ext \<Rightarrow> (bytes \<Rightarrow> 'v option) \<Rightarrow> bytes \<Rightarrow> multisig_transaction_storage option" where
  "multisig_at E f token =
    (case f (key_for_multisig_transaction token) of
       Some v \<Rightarrow> (case dec (multisig_codec E) v of Inr tx \<Rightarrow> Some tx | Inl _ \<Rightarrow> None)
     | None \<Rightarrow> None)"

lemma set_approval_simps [simp]:
  "ms_account (set_approval sender b tx) = ms_account tx" "ms_disabled (set_approval sender b tx) = ms_disabled tx"
  "mi_transaction (ms_info (set_approval sender b tx)) = mi_transaction (ms_info tx)"
  "mi_execute_automatically (ms_info (set_approval sender b tx)) = mi_execute_automatically (ms_info tx)"
  by (simp_all add: set_approval_def)

lemma get_multisig_info_Ok:
  assumes "merk_laws E V C" "get_multisig_info E token s = Ok tx"
  shows "multisig_at E (sv V s) token = Some tx"
proof -
  obtain v where v: "store_get_or_none E (key_for_multisig_transaction token) s = Some v" "dec (multisig_codec E) v = Inr tx"
    using assms(2) by (auto simp: get_multisig_info_def act_simps)
  then have "merk_get E (persistent_store s) (key_for_multisig_transaction token) = Inr (Some v)"
    by (auto simp: store_get_or_none_def split: sum.splits)
  then have "sv V s (key_for_multisig_transaction token) = Some v"
    using assms(1) unfolding merk_laws_def by metis
  then show ?thesis
    using v by (simp add: multisig_at_def)
qed

lemma get_multisig_info_reliable:
  assumes "merk_reliable E V C" "multisig_at E (sv V s) token = Some tx"
  shows "get_multisig_info E token s = Ok tx"
  using assms by (auto simp: get_multisig_info_def store_get_or_none_def merk_reliable_def multisig_at_def
      split: option.splits sum.splits)

lemma get_account_reliableD:
  assumes "merk_reliable E V C" "account_at E (sv V s) i = Some a" "is_enabled a"
  obtains keys where "get_account E i s = Ok (a, keys)"
  using get_account_reliable [OF assms(1), of i s a] assms(2,3) by blast

lemma multisig_put_Ok:
  assumes "merk_laws E V C" "codec_ok (multisig_codec E)" "enc (multisig_codec E) tx = Inr v"
    and "bnd (store_apply E storage_apply_failed [(key_for_multisig_transaction token, Put v)]) (\<lambda>_. maybe_commit E) s = (Ok u, t)"
  shows "multisig_at E (sv V t) token = Some tx" "sv V t = (sv V s)(key_for_multisig_transaction token := Some v)"
    "ctx t = ctx s" "latest_tid t = latest_tid s" "sv C t = (if blockchain s then sv C s else sv V t)"
proof -
  obtain s1 where a: "store_apply E storage_apply_failed [(key_for_multisig_transaction token, Put v)] s = (Ok (), s1)"
    and c: "maybe_commit E s1 = (Ok (), t)"
    using assms(4) by (auto simp: act_simps)
  show V: "sv V t = (sv V s)(key_for_multisig_transaction token := Some v)"
    and "ctx t = ctx s" "latest_tid t = latest_tid s" "sv C t = (if blockchain s then sv C s else sv V t)"
    using store_apply_Ok [OF assms(1) a] maybe_commit_Ok [OF assms(1) c] ctx_eqD(1) [OF store_apply_Ok(4) [OF assms(1) a]]
    by simp_all
  show "multisig_at E (sv V t) token = Some tx"
    using codec_okD [OF assms(2,3)] by (simp add: multisig_at_def V)
qed

lemma commit_multisig_Ok:
  assumes "merk_laws E V C" "codec_ok (multisig_codec E)" "commit_multisig_transaction E token tx s = (Ok u, t)"
  shows "multisig_at E (sv V t) token = Some tx"
proof -
  obtain v where v: "enc (multisig_codec E) tx = Inr v"
    and r: "bnd (store_apply E storage_apply_failed [(key_for_multisig_transaction token, Put v)]) (\<lambda>_. maybe_commit E) s = (Ok u, t)"
    using assms(3) by (auto simp: commit_multisig_transaction_def bnd_Ok lift_result_Ok from_sum_Ok)
  show ?thesis
    by (rule multisig_put_Ok(1) [OF assms(1,2) v r])
qed

lemma disable_multisig_Ok:
  assumes "merk_laws E V C" "codec_ok (multisig_codec E)" "disable_multisig_transaction E token state s = (Ok u, t)"
  shows "\<exists>tx. multisig_at E (sv V s) token = Some tx \<and> \<not> ms_disabled tx \<and> multisig_at E (sv V t) token = Some (ms_disable state tx)"
proof -
  obtain tx v where tx: "get_multisig_info E token s = Ok tx" "\<not> ms_disabled tx"
    and v: "enc (multisig_codec E) (ms_disable state tx) = Inr v"
    and r: "bnd (store_apply E storage_apply_failed [(key_for_multisig_transaction token, Put v)]) (\<lambda>_. maybe_commit E) s = (Ok u, t)"
    using assms(3) by (auto simp: disable_multisig_transaction_def bnd_Ok query_Ok fail_if_Ok lift_result_Ok from_sum_Ok)
  show ?thesis
    using get_multisig_info_Ok [OF assms(1) tx(1)] tx(2) multisig_put_Ok(1) [OF assms(1,2) v r] by blast
qed

lemma log_event_multisig:
  assumes "merk_laws E V C" "log_event E ev s = (Ok u, t)"
  shows "multisig_at E (sv V t) token = multisig_at E (sv V s) token"
  by (rule log_event_Ok [OF assms]) (simp add: multisig_at_def)

lemma execute_response_state: "execute_response E token tx r s = (Ok x, t) \<Longrightarrow> t = s"
  by (auto simp: execute_response_def block_hotfix_def Let_def act_simps split: option.splits)

lemma execute_internal_Ok:
  assumes "merk_laws E V C" "codec_ok (multisig_codec E)" "execute_internal_with E exec token tx automatic s = (Ok r, t)"
  shows "\<exists>tx'. multisig_at E (sv V t) token = Some tx' \<and> ms_disabled tx' \<and>
    mi_state (ms_info tx') = (if automatic then ExecutedAutomatically else ExecutedManually)"
proof -
  let ?state = "if automatic then ExecutedAutomatically else ExecutedManually"
  obtain s1 where d: "disable_multisig_transaction E token ?state s1 = (Ok (), t)"
    using assms(3) by (auto simp: execute_internal_with_def bnd_Ok dest!: execute_response_state)
  show ?thesis
    using disable_multisig_Ok [OF assms(1,2) d] by (auto simp: ms_disable_def)
qed

section \<open>Execution needs the approvals\<close>

text \<open>C3: A multisig transaction is executed on request only when it is pending, its approvals reach the
  threshold, its account exists and is enabled, and the sender owns the account or submitted the
  transaction; afterwards it is disabled, whatever its contents did.\<close>

theorem execute_multisig_authorised:
  assumes "merk_laws E V C" "codec_ok (multisig_codec E)" "execute_multisig E fuel sender token s = (Ok r, t)"
  shows "\<exists>tx a. multisig_at E (sv V s) token = Some tx \<and> \<not> ms_disabled tx \<and>
    unat (mi_threshold (ms_info tx)) \<le> length (filter (\<lambda>e. approved (snd e)) (mi_approvers (ms_info tx))) \<and>
    account_at E (sv V s) (ms_account tx) = Some a \<and> is_enabled a \<and>
    (has_role a sender Owner \<or> mi_submitter (ms_info tx) = sender) \<and>
    (\<exists>tx'. multisig_at E (sv V t) token = Some tx' \<and> ms_disabled tx' \<and> mi_state (ms_info tx') = ExecutedManually)"
proof -
  obtain tx a k s1 where tx: "get_multisig_info E token s = Ok tx" and nd: "\<not> ms_disabled tx" and sh: "should_execute tx"
    and a: "get_account E (ms_account tx) s = Ok (a, k)" "has_role a sender Owner \<or> mi_submitter (ms_info tx) = sender"
    and ex: "execute_internal_with E (execute_multisig_tx E fuel) token tx False s = (Ok r, s1)"
    and l: "log_event E (EvAccountMultisigExecute (ms_account tx) token (Some sender) r) s1 = (Ok (), t)"
    using assms(3) by (auto simp: execute_multisig_def execute_multisig_with_def bnd_Ok query_Ok fail_if_Ok ret_Ok fail_Ok
        split: if_splits)
  show ?thesis
    using get_multisig_info_Ok [OF assms(1) tx] nd sh get_account_Ok [OF assms(1) a(1)] a(2)
      execute_internal_Ok [OF assms(1,2) ex] log_event_multisig [OF assms(1) l, of token]
    by (auto simp: should_execute_def)
qed

text \<open>C10: An approval is accepted from an owner, a submitter or an approver of an enabled account for a
  pending transaction, and is recorded. It executes the transaction exactly when the transaction
  executes automatically and the approvals now reach the threshold; then the transaction is disabled.\<close>

theorem approve_multisig_effect:
  assumes "merk_laws E V C" "codec_ok (multisig_codec E)" "approve_multisig E fuel sender token s = (Ok executed, t)"
  shows "\<exists>tx a. multisig_at E (sv V s) token = Some tx \<and> \<not> ms_disabled tx \<and>
    account_at E (sv V s) (ms_account tx) = Some a \<and> is_enabled a \<and>
    (has_role a sender Owner \<or> has_role a sender CanMultisigSubmit \<or> has_role a sender CanMultisigApprove) \<and>
    (executed \<longleftrightarrow> mi_execute_automatically (ms_info tx) \<and> should_execute (set_approval sender True tx)) \<and>
    (\<exists>tx'. multisig_at E (sv V t) token = Some tx' \<and>
      (if executed then ms_disabled tx' \<and> mi_state (ms_info tx') = ExecutedAutomatically else tx' = set_approval sender True tx))"
proof -
  let ?exec = "execute_multisig_tx E fuel"
  obtain tx a k s1 s2 where tx: "get_multisig_info E token s = Ok tx" and nd: "\<not> ms_disabled tx"
    and a: "get_account E (ms_account tx) s = Ok (a, k)"
      "has_role a sender Owner \<or> has_role a sender CanMultisigSubmit \<or> has_role a sender CanMultisigApprove"
    and c: "commit_multisig_transaction E token (set_approval sender True tx) s = (Ok (), s1)"
    and l: "log_event E (EvAccountMultisigApprove (ms_account tx) token sender) s1 = (Ok (), s2)"
    and r: "(if mi_execute_automatically (ms_info tx) \<and> should_execute (set_approval sender True tx) then
      bnd (execute_internal_with E ?exec token (set_approval sender True tx) True) (\<lambda>response.
      bnd (log_event E (EvAccountMultisigExecute (ms_account (set_approval sender True tx)) token None response)) (\<lambda>_. ret True))
      else ret False) s2 = (Ok executed, t)"
    using assms(3) by (auto simp: approve_multisig_def approve_multisig_with_def Let_def bnd_Ok query_Ok fail_if_Ok)
  have s2: "multisig_at E (sv V s2) token = Some (set_approval sender True tx)"
    using commit_multisig_Ok [OF assms(1,2) c] log_event_multisig [OF assms(1) l] by simp
  have res: "(executed \<longleftrightarrow> mi_execute_automatically (ms_info tx) \<and> should_execute (set_approval sender True tx)) \<and>
    (\<exists>tx'. multisig_at E (sv V t) token = Some tx' \<and>
      (if executed then ms_disabled tx' \<and> mi_state (ms_info tx') = ExecutedAutomatically else tx' = set_approval sender True tx))"
  proof (cases "mi_execute_automatically (ms_info tx) \<and> should_execute (set_approval sender True tx)")
    case True
    then obtain resp s3 where ex: "execute_internal_with E ?exec token (set_approval sender True tx) True s2 = (Ok resp, s3)"
      and l3: "log_event E (EvAccountMultisigExecute (ms_account tx) token None resp) s3 = (Ok (), t)"
      and "executed"
      using r by (auto simp: bnd_Ok ret_Ok)
    then show ?thesis
      using True execute_internal_Ok [OF assms(1,2) ex] log_event_multisig [OF assms(1) l3, of token] by simp
  next
    case False
    then show ?thesis
      using r s2 by (auto simp: ret_Ok)
  qed
  show ?thesis
    using get_multisig_info_Ok [OF assms(1) tx] nd get_account_Ok [OF assms(1) a(1)] a(2) res by blast
qed

text \<open>C23: A disabled transaction stays as it is: approving, revoking, executing or withdrawing it fails
  and changes nothing.\<close>

theorem disabled_is_final:
  assumes "merk_reliable E V C" "multisig_at E (sv V s) token = Some tx" "ms_disabled tx"
  shows "approve_multisig E fuel sender token s = (Err transaction_expired_or_withdrawn, s) \<and>
    revoke_multisig E sender token s = (Err transaction_expired_or_withdrawn, s) \<and>
    execute_multisig E fuel sender token s = (Err transaction_expired_or_withdrawn, s) \<and>
    withdraw_multisig E sender token s = (Err transaction_expired_or_withdrawn, s)"
  using get_multisig_info_reliable [OF assms(1,2)] assms(3)
  by (simp add: approve_multisig_def approve_multisig_with_def revoke_multisig_def execute_multisig_def
      execute_multisig_with_def withdraw_multisig_def bnd_query fail_def)

section \<open>Nested execution\<close>

lemma self_execution_step:
  assumes "merk_reliable E V C" "multisig_at E (sv V s) token = Some tx" "\<not> ms_disabled tx" "should_execute tx"
    and "account_at E (sv V s) (ms_account tx) = Some a" "is_enabled a"
    and "has_role a sender Owner \<or> mi_submitter (ms_info tx) = sender"
    and "exec token tx s = (Panic p, s)"
  shows "execute_multisig_with E exec sender token s = (Panic p, s)"
proof -
  obtain k where k: "get_account E (ms_account tx) s = Ok (a, k)"
    by (rule get_account_reliableD [OF assms(1,5,6)])
  have n: "has_role a sender Owner = False \<Longrightarrow> mi_submitter (ms_info tx) = sender"
    using assms(7) by simp
  show ?thesis
    unfolding execute_multisig_with_def execute_internal_with_def
    using get_multisig_info_reliable [OF assms(1,2)] assms(3,4,8) k
    by (cases "has_role a sender Owner") (simp_all add: bnd_def attempt_def query_def fail_if_def n)
qed

text \<open>C25: A transaction that executes itself never ends: the account owns itself, so the nested
  execution is authorised, and a transaction is disabled only after its contents have run. Every amount
  of stack is used up, before anything is written.\<close>

theorem self_execution_overflows:
  assumes "merk_reliable E V C" "multisig_at E (sv V s) token = Some tx" "\<not> ms_disabled tx" "should_execute tx"
    and "mi_transaction (ms_info tx) = TxAccountMultisigExecute \<lparr>arg_token = token\<rparr>"
    and "account_at E (sv V s) (ms_account tx) = Some a" "is_enabled a" "has_role a (ms_account tx) Owner"
    and "has_role a sender Owner \<or> mi_submitter (ms_info tx) = sender"
  shows "execute_multisig E fuel sender token s = (Panic ''stack overflow'', s)"
proof -
  have "execute_multisig_tx E fuel token tx s = (Panic ''stack overflow'', s)"
  proof (induction fuel)
    case (Suc fuel)
    have "execute_multisig_with E (execute_multisig_tx E fuel) (ms_account tx) token s = (Panic ''stack overflow'', s)"
      by (rule self_execution_step [OF assms(1-4,6,7)]) (use assms(8) Suc in auto)
    then show ?case
      using assms(5) by (simp add: Let_def bnd_def)
  qed (simp add: lift_result_def)
  then show ?thesis
    unfolding execute_multisig_def by (intro self_execution_step [OF assms(1-4,6,7,9)])
qed

text \<open>
  How far executions nest: the token a transaction approves or executes, and the length of the chain of
  such transactions in the store.
\<close>

fun nested_token :: "multisig_transaction \<Rightarrow> bytes option" where
  "nested_token (TxAccountMultisigApprove arg) = Some (arg_token arg)"
| "nested_token (TxAccountMultisigExecute arg) = Some (arg_token arg)"
| "nested_token _ = None"

fun chain_within :: "('m, 'v) ext \<Rightarrow> (bytes \<Rightarrow> 'v option) \<Rightarrow> nat \<Rightarrow> multisig_transaction \<Rightarrow> bool" where
  "chain_within E f 0 c \<longleftrightarrow> nested_token c = None"
| "chain_within E f (Suc n) c \<longleftrightarrow>
     (case nested_token c of
        None \<Rightarrow> True
      | Some token \<Rightarrow> (case multisig_at E f token of
          None \<Rightarrow> True
        | Some tx \<Rightarrow> chain_within E f n (mi_transaction (ms_info tx))))"

definition tx_contents :: "('m, 'v) ext \<Rightarrow> (bytes \<Rightarrow> 'v option) \<Rightarrow> bytes \<Rightarrow> multisig_transaction option" where
  "tx_contents E f token = map_option (\<lambda>tx. mi_transaction (ms_info tx)) (multisig_at E f token)"

lemma chain_within_cong: "tx_contents E g = tx_contents E f \<Longrightarrow> chain_within E g n c = chain_within E f n c"
proof (induction n arbitrary: c)
  case (Suc n)
  have "map_option (\<lambda>tx. mi_transaction (ms_info tx)) (multisig_at E g token) =
      map_option (\<lambda>tx. mi_transaction (ms_info tx)) (multisig_at E f token)" for token
    using Suc.prems by (metis tx_contents_def)
  then show ?case
    using Suc.IH [OF Suc.prems] by (auto simp: map_option_case split: option.splits) (metis option.simps)+
qed simp

lemma bnd_cong:
  "m s = m' s \<Longrightarrow> (\<And>x t. m s = (Ok x, t) \<Longrightarrow> f x t = g x t) \<Longrightarrow> bnd m f s = bnd m' g s"
  by (auto simp: bnd_def split: prod.splits result.splits)

lemma attempt_cong: "m s = m' s \<Longrightarrow> attempt m s = attempt m' s"
  by (simp add: attempt_def)

lemma execute_internal_cong:
  "exec token tx s = exec' token tx s \<Longrightarrow> execute_internal_with E exec token tx b s = execute_internal_with E exec' token tx b s"
  unfolding execute_internal_with_def by (intro bnd_cong attempt_cong refl)

lemma execute_with_cong:
  assumes "\<And>tx. get_multisig_info E token s = Ok tx \<Longrightarrow> exec token tx s = exec' token tx s"
  shows "execute_multisig_with E exec sender token s = execute_multisig_with E exec' sender token s"
  unfolding execute_multisig_with_def
proof (intro bnd_cong refl, goal_cases)
  case (1 tx s1 u s2 a s3)
  then have "execute_internal_with E exec token tx False s = execute_internal_with E exec' token tx False s"
    by (intro execute_internal_cong assms) (simp add: act_simps)
  with 1 show ?case
    by (auto simp: act_simps intro!: bnd_cong split: prod.splits)
qed

lemma approve_with_cong:
  assumes "\<And>tx s1 s2. get_multisig_info E token s = Ok tx \<Longrightarrow>
      commit_multisig_transaction E token (set_approval sender True tx) s = (Ok (), s1) \<Longrightarrow>
      log_event E (EvAccountMultisigApprove (ms_account tx) token sender) s1 = (Ok (), s2) \<Longrightarrow>
      exec token (set_approval sender True tx) s2 = exec' token (set_approval sender True tx) s2"
  shows "approve_multisig_with E exec sender token s = approve_multisig_with E exec' sender token s"
  unfolding approve_multisig_with_def Let_def
proof (intro bnd_cong refl, goal_cases)
  case (1 tx s1 u s2 a s3)
  obtain account keys where a: "a = (account, keys)" by (cases a)
  have s: "s3 = s" "get_multisig_info E token s = Ok tx"
    using 1 by (auto simp: act_simps)
  show ?case
    unfolding a prod.case s(1)
  proof (intro bnd_cong refl, goal_cases)
    case (1 u4 s4 u5 s5 u6 s6)
    have "s4 = s"
      using 1(1) by (simp add: act_simps)
    then have "exec token (set_approval sender True tx) s6 = exec' token (set_approval sender True tx) s6"
      using 1(2,3) by (intro assms [OF s(2)]) auto
    then have "execute_internal_with E exec token (set_approval sender True tx) True s6 =
        execute_internal_with E exec' token (set_approval sender True tx) True s6"
      by (rule execute_internal_cong)
    then show ?case
      by (auto intro!: bnd_cong)
  qed
qed

lemma tx_contents_log:
  assumes "merk_laws E V C" "log_event E ev s = (Ok u, t)"
  shows "tx_contents E (sv V t) = tx_contents E (sv V s)"
  using log_event_multisig [OF assms] by (simp add: tx_contents_def fun_eq_iff)

lemma tx_contents_approve:
  assumes "merk_laws E V C" "codec_ok (multisig_codec E)" "get_multisig_info E token s = Ok tx"
    and "commit_multisig_transaction E token (set_approval sender True tx) s = (Ok u, t)"
  shows "tx_contents E (sv V t) = tx_contents E (sv V s)"
proof
  fix token'
  obtain v where v: "enc (multisig_codec E) (set_approval sender True tx) = Inr v"
    and r: "bnd (store_apply E storage_apply_failed [(key_for_multisig_transaction token, Put v)]) (\<lambda>_. maybe_commit E) s = (Ok u, t)"
    using assms(4) by (auto simp: commit_multisig_transaction_def bnd_Ok lift_result_Ok from_sum_Ok)
  note p = multisig_put_Ok [OF assms(1,2) v r]
  have old: "multisig_at E (sv V s) token = Some tx"
    by (rule get_multisig_info_Ok [OF assms(1,3)])
  show "tx_contents E (sv V t) token' = tx_contents E (sv V s) token'"
  proof (cases "key_for_multisig_transaction token' = key_for_multisig_transaction token")
    case True
    then have "multisig_at E (sv V t) token' = multisig_at E (sv V t) token" "multisig_at E (sv V s) token' = multisig_at E (sv V s) token"
      by (simp_all add: multisig_at_def)
    then show ?thesis
      using p(1) old by (simp add: tx_contents_def set_approval_def)
  qed (simp add: tx_contents_def multisig_at_def p(2))
qed

text \<open>Approving or executing a transaction runs the execution only on that transaction, with the same contents.\<close>

lemma nested_calls_cong:
  assumes "merk_laws E V C" "codec_ok (multisig_codec E)"
    and step: "\<And>t s'. tx_contents E (sv V s') = tx_contents E (sv V s) \<Longrightarrow>
      tx_contents E (sv V s) tok = Some (mi_transaction (ms_info t)) \<Longrightarrow> exec tok t s' = exec' tok t s'"
  shows "approve_multisig_with E exec sender tok s = approve_multisig_with E exec' sender tok s"
    and "execute_multisig_with E exec sender tok s = execute_multisig_with E exec' sender tok s"
proof -
  show "approve_multisig_with E exec sender tok s = approve_multisig_with E exec' sender tok s"
  proof (rule approve_with_cong)
    fix t s1 s2
    assume t: "get_multisig_info E tok s = Ok t"
      and c: "commit_multisig_transaction E tok (set_approval sender True t) s = (Ok (), s1)"
      and l: "log_event E (EvAccountMultisigApprove (ms_account t) tok sender) s1 = (Ok (), s2)"
    show "exec tok (set_approval sender True t) s2 = exec' tok (set_approval sender True t) s2"
      using get_multisig_info_Ok [OF assms(1) t] tx_contents_log [OF assms(1) l] tx_contents_approve [OF assms(1,2) t c]
      by (intro step) (simp_all add: tx_contents_def set_approval_def fun_eq_iff)
  qed
  show "execute_multisig_with E exec sender tok s = execute_multisig_with E exec' sender tok s"
    using get_multisig_info_Ok [OF assms(1)] by (intro execute_with_cong step) (simp_all add: tx_contents_def)
qed


section \<open>Expiry of transactions\<close>

text \<open>A stored transaction decodes and times out within the maximum after its creation.\<close>

definition tx_value_wf :: "('m, 'v) ext \<Rightarrow> 'v \<Rightarrow> bool" where
  "tx_value_wf E v \<longleftrightarrow> (\<exists>tx. dec (multisig_codec E) v = Inr tx \<and>
     unat (mi_timeout (ms_info tx)) \<le> ms_creation tx + unat MULTISIG_MAXIMUM_TIMEOUT_IN_SECS)"

definition value_expires :: "('m, 'v) ext \<Rightarrow> timestamp \<Rightarrow> 'v \<Rightarrow> bool" where
  "value_expires E now' v \<longleftrightarrow> (case dec (multisig_codec E) v of
     Inr tx \<Rightarrow> mi_timeout (ms_info tx) \<le> now' \<and> \<not> ms_disabled tx | Inl _ \<Rightarrow> False)"

definition expired_value :: "('m, 'v) ext \<Rightarrow> 'v \<Rightarrow> 'v" where
  "expired_value E v = (case dec (multisig_codec E) v of
     Inr tx \<Rightarrow> (case enc (multisig_codec E) (ms_disable Expired tx) of Inr w \<Rightarrow> w | Inl _ \<Rightarrow> v) | Inl _ \<Rightarrow> v)"

lemma timed_out_batch_all:
  assumes "codec_total (multisig_codec E)" "unat now' < 2 ^ 63" "\<forall>e\<in>set es. tx_value_wf E (snd e)"
  shows "timed_out_batch E now' (map Inr es) batch =
    Ok (batch @ map (\<lambda>(k, v). (k, Put (expired_value E v))) (filter (\<lambda>e. value_expires E now' (snd e)) es))"
  using assms(3)
proof (induction es arbitrary: batch)
  case (Cons e es)
  obtain k v where e: "e = (k, v)" by (cases e)
  obtain tx where tx: "dec (multisig_codec E) v = Inr tx"
    and wf: "unat (mi_timeout (ms_info tx)) \<le> ms_creation tx + unat MULTISIG_MAXIMUM_TIMEOUT_IN_SECS"
    using Cons.prems e by (auto simp: tx_value_wf_def)
  obtain w where w: "enc (multisig_codec E) (ms_disable Expired tx) = Inr w"
    using assms(1) by (auto simp: codec_total_def)
  have es: "\<forall>e\<in>set es. tx_value_wf E (snd e)"
    using Cons.prems by simp
  show ?case
  proof (cases "mi_timeout (ms_info tx) \<le> now'")
    case True
    then show ?thesis
      using Cons.IH [OF es] w tx e by (simp add: value_expires_def expired_value_def)
  next
    case False
    then have "unat now' < unat (mi_timeout (ms_info tx))"
      by (simp add: word_less_nat_alt word_le_nat_alt)
    then have "\<not> (unat MULTISIG_MAXIMUM_TIMEOUT_IN_SECS < unat now' - ms_creation tx)"
      using wf by linarith
    moreover have "as_system_time now' = Ok (unat now')"
      using assms(2) by (simp add: as_system_time_def checked_add_secs_def)
    ultimately show ?thesis
      using Cons.IH [OF es] False tx e by (simp add: value_expires_def)
  qed
qed simp

lemma map_of_expired:
  "distinct (map fst es) \<Longrightarrow>
   map_of (map (\<lambda>(k, v). (k, Put (g v))) (filter (\<lambda>e. P (snd e)) es)) k =
     (case map_of es k of Some v \<Rightarrow> if P v then Some (Put (g v)) else None | None \<Rightarrow> None)"
proof (induction es)
  case (Cons e es)
  obtain k' v where e: "e = (k', v)" by (cases e)
  have "map_of es k' = None"
    using Cons.prems e by (simp add: map_of_eq_None_iff)
  then show ?case
    using Cons e by (auto split: option.splits)
qed simp

lemma keys_sorted_filter: "keys_sorted es \<Longrightarrow> keys_sorted (map (\<lambda>(k, v). (k, g v)) (filter P es))"
  by (induction es) auto

lemma apply_expired:
  assumes "keys_sorted es"
  shows "apply_ops f (map (\<lambda>(k, v). (k, Put (g v))) (filter (\<lambda>e. P (snd e)) es)) k =
    (case map_of es k of Some v \<Rightarrow> if P v then Some (g v) else f k | None \<Rightarrow> f k)"
  unfolding apply_ops_at [OF keys_sorted_distinct [OF keys_sorted_filter [OF assms]]] map_of_expired [OF keys_sorted_distinct [OF assms]]
  by (simp split: option.splits)

lemma apply_unless_empty:
  assumes "merk_laws E V C" "merk_reliable E V C" "keys_sorted b" "\<And>k. (k, Delete) \<notin> set b"
  shows "\<exists>t. (if b \<noteq> [] then store_apply E storage_apply_failed b else ret ()) s = (Ok (), t) \<and> sv V t = apply_ops (sv V s) b"
proof (cases "b = []")
  case False
  obtain t where t: "store_apply E storage_apply_failed b s = (Ok (), t)"
    by (rule store_apply_reliable [OF assms(2,3)]) (use assms(4) in auto)
  then show ?thesis
    using False store_apply_Ok(2) [OF assms(1) t] by simp
qed (simp add: ret_def)

text \<open>C12: The check at the end of a block marks every transaction on disk that has passed its timeout
  and is still pending as expired, and changes nothing else. The early exit of the loop, meant to skip
  old transactions, is never taken on transactions created by the ledger.\<close>

theorem expiry_complete:
  assumes "merk_laws E V C" "merk_reliable E V C" "codec_ok (multisig_codec E)" "codec_total (multisig_codec E)"
    and "unat (now E s) < 2 ^ 63"
    and "\<And>k v. in_iter_range (PrefixRange MULTISIG_TRANSACTIONS_ROOT) k \<Longrightarrow> sv C s k = Some v \<Longrightarrow> tx_value_wf E v"
  shows "\<exists>t. check_timed_out_multisig_transactions E s = (Ok (), t) \<and>
    (\<forall>k. sv V t k =
      (case (if in_iter_range (PrefixRange MULTISIG_TRANSACTIONS_ROOT) k then sv C s k else None) of
         Some v \<Rightarrow> if value_expires E (now E s) v then Some (expired_value E v) else sv V s k
       | None \<Rightarrow> sv V s k))"
proof -
  obtain es where it: "iter_multisig E Descending s = map Inr (rev es)" and so: "keys_sorted es"
    and es: "\<And>k. map_of es k = (if in_iter_range (PrefixRange MULTISIG_TRANSACTIONS_ROOT) k then sv C s k else None)"
    using assms(2) unfolding merk_reliable_def iter_multisig_def all_multisig_def order_mode_def by (simp, meson)
  have d: "distinct (map fst es)"
    by (rule keys_sorted_distinct [OF so])
  have wf: "\<forall>e\<in>set (rev es). tx_value_wf E (snd e)"
  proof
    fix e assume "e \<in> set (rev es)"
    then have "map_of es (fst e) = Some (snd e)"
      using d by (simp add: map_of_eq_Some_iff)
    then show "tx_value_wf E (snd e)"
      using es [of "fst e"] assms(6) by (auto split: if_splits)
  qed
  let ?b = "map (\<lambda>(k, v). (k, Put (expired_value E v))) (filter (\<lambda>e. value_expires E (now E s) (snd e)) es)"
  have b: "timed_out_batch E (now E s) (iter_multisig E Descending s) [] = Ok (rev ?b)"
    unfolding it timed_out_batch_all [OF assms(4,5) wf] by (simp add: rev_map rev_filter)
  have kb: "keys_sorted ?b"
    by (rule keys_sorted_filter [OF so])
  have nd: "(k, Delete) \<notin> set ?b" for k
    by auto
  obtain s1 where s1: "(if ?b \<noteq> [] then store_apply E storage_apply_failed ?b else ret ()) s = (Ok (), s1)"
    and V1: "sv V s1 = apply_ops (sv V s) ?b"
    using apply_unless_empty [OF assms(1,2) kb] nd by blast
  obtain t where t: "maybe_commit E s1 = (Ok (), t)"
    by (rule maybe_commit_reliable [OF assms(2)])
  have "check_timed_out_multisig_transactions E s = (Ok (), t)"
    unfolding check_timed_out_multisig_transactions_def using b s1 t by (auto simp: bnd_def query_def split: if_splits)
  moreover have "sv V t k = apply_ops (sv V s) ?b k" for k
    using maybe_commit_Ok(1) [OF assms(1) t] V1 by simp
  ultimately show ?thesis
    unfolding apply_expired [OF so] es by blast
qed

section \<open>Submitting a transaction\<close>

lemma owner_setting_Ok: "owner_setting b r d = Ok x \<longleftrightarrow> x = or_default d r \<and> (r = None \<or> b)"
  by (auto simp: owner_setting_def or_default_def split: option.splits)

lemma tx_timeout_Ok:
  assumes "tx_timeout time d = Ok timeout" "as_system_time time = Ok c"
  shows "unat timeout = c + unat d" "c = unat time"
proof -
  have c: "c = unat time"
    using assms(2) by (auto simp: as_system_time_def checked_add_secs_def act_simps split: if_splits)
  have "timeout = of_nat (c + unat d)" "c + unat d < 2 ^ 63"
    using assms by (auto simp: tx_timeout_def checked_add_secs_def from_system_time_def act_simps split: if_splits)
  then show "unat timeout = c + unat d"
    by (simp only: unsigned_of_nat) (simp add: take_bit_nat_eq_self)
  show "c = unat time"
    by (rule c)
qed

text \<open>C20: A submitted transaction is stored as pending under its token, approved by its submitter only.
  The submitter holds the submit role or owns the enabled account, only an owner chooses the threshold,
  the timeout or the execution mode, and the timeout is at most the maximum from now.\<close>

theorem submit_multisig_effect:
  assumes "merk_laws E V C" "codec_ok (multisig_codec E)" "create_multisig_transaction E sender arg s = (Ok token, t)"
  shows "\<exists>a tx. account_at E (sv V s) (sub_account arg) = Some a \<and> is_enabled a \<and>
    (has_role a sender CanMultisigSubmit \<or> has_role a sender Owner) \<and>
    (has_role a sender Owner \<or> sub_threshold arg = None \<and> sub_timeout_in_secs arg = None \<and> sub_execute_automatically arg = None) \<and>
    multisig_at E (sv V t) token = Some tx \<and> \<not> ms_disabled tx \<and> mi_state (ms_info tx) = Pending \<and>
    ms_account tx = sub_account arg \<and> mi_transaction (ms_info tx) = sub_transaction arg \<and>
    mi_approvers (ms_info tx) = [(sender, \<lparr>approved = True\<rparr>)] \<and>
    ms_creation tx = unat (now E s) \<and>
    unat (mi_timeout (ms_info tx)) \<le> ms_creation tx + unat MULTISIG_MAXIMUM_TIMEOUT_IN_SECS"
proof -
  let ?s = "s\<lparr>latest_tid := next_id E s\<rparr>"
  have nw: "now E ?s = now E s"
    by (simp add: now_def)
  obtain a k f th d ex timeout creation ml dl m s1 where a: "get_account E (sub_account arg) ?s = Ok (a, k)"
    and role: "needs_role a sender [CanMultisigSubmit, Owner] = Ok ()"
    and f: "fs_get (acc_features a) MultisigAccountFeature_ID multisig_try_create = Ok f"
    and th: "owner_setting (has_role a sender Owner) (sub_threshold arg) (or_default MULTISIG_DEFAULT_THRESHOLD (ma_threshold f)) = Ok th"
    and d: "owner_setting (has_role a sender Owner) (sub_timeout_in_secs arg)
      (or_default MULTISIG_DEFAULT_TIMEOUT_IN_SECS (ma_timeout_in_secs f)) = Ok d"
    and ex: "owner_setting (has_role a sender Owner) (sub_execute_automatically arg)
      (or_default MULTISIG_DEFAULT_EXECUTE_AUTOMATICALLY (ma_execute_automatically f)) = Ok ex"
    and ti: "tx_timeout (now E s) (min d MULTISIG_MAXIMUM_TIMEOUT_IN_SECS) = Ok timeout"
    and cr: "as_system_time (now E s) = Ok creation" and tok: "token = next_id E s"
    and c: "commit_multisig_transaction E (next_id E s)
          \<lparr>ms_account = sub_account arg,
           ms_info = \<lparr>mi_memo_legacy = ml, mi_transaction = sub_transaction arg, mi_submitter = sender,
             mi_approvers = [(sender, \<lparr>approved = True\<rparr>)], mi_threshold = th,
             mi_execute_automatically = ex, mi_timeout = timeout,
             mi_data_legacy = dl, mi_state = Pending, mi_memo = m\<rparr>,
           ms_creation = creation, ms_disabled = False\<rparr> ?s = (Ok (), s1)"
    and l: "log_event E (EvAccountMultisigSubmit sender (sub_account arg) ml (sub_transaction arg)
          (Some (next_id E s)) th timeout ex dl m) s1 = (Ok (), t)"
    using assms(3) by (auto simp: create_multisig_transaction_def new_event_id_def Let_def act_simps nw)
  have acc: "account_at E (sv V s) (sub_account arg) = Some a" "is_enabled a"
    using get_account_Ok [OF assms(1) a] by simp_all
  have r: "has_role a sender CanMultisigSubmit \<or> has_role a sender Owner"
    using role by (auto simp: needs_role_def split: if_splits)
  have own: "has_role a sender Owner \<or> sub_threshold arg = None \<and> sub_timeout_in_secs arg = None \<and> sub_execute_automatically arg = None"
    using th d ex unfolding owner_setting_Ok by blast
  have at: "multisig_at E (sv V t) token = Some \<lparr>ms_account = sub_account arg,
           ms_info = \<lparr>mi_memo_legacy = ml, mi_transaction = sub_transaction arg, mi_submitter = sender,
             mi_approvers = [(sender, \<lparr>approved = True\<rparr>)], mi_threshold = th,
             mi_execute_automatically = ex, mi_timeout = timeout,
             mi_data_legacy = dl, mi_state = Pending, mi_memo = m\<rparr>,
           ms_creation = creation, ms_disabled = False\<rparr>"
    using commit_multisig_Ok [OF assms(1,2) c] log_event_multisig [OF assms(1) l, of token] tok by simp
  have "unat (min d MULTISIG_MAXIMUM_TIMEOUT_IN_SECS) \<le> unat MULTISIG_MAXIMUM_TIMEOUT_IN_SECS"
    by (simp flip: word_le_nat_alt)
  then show ?thesis
    using acc r own at tx_timeout_Ok [OF ti cr] by simp
qed

section \<open>A concrete vault\<close>

text \<open>An account of two owners with three transactions: one to run, one that executes itself, one done.\<close>

definition vault_tx :: "multisig_transaction \<Rightarrow> bool \<Rightarrow> multisig_transaction_storage" where
  "vault_tx c automatic = \<lparr>ms_account = Subresource 1 1,
     ms_info = \<lparr>mi_memo_legacy = None, mi_transaction = c, mi_submitter = PublicKey 1,
       mi_approvers = [(PublicKey 1, \<lparr>approved = True\<rparr>)], mi_threshold = 1, mi_execute_automatically = automatic,
       mi_timeout = 100, mi_data_legacy = None, mi_state = Pending, mi_memo = None\<rparr>,
     ms_creation = 0, ms_disabled = False\<rparr>"

definition vault_account :: account where
  "vault_account = \<lparr>acc_description = None,
     acc_roles = [(PublicKey 1, [Owner]), (PublicKey 2, [CanMultisigApprove]), (Subresource 1 1, [Owner])],
     acc_features = [multisig_as_feature \<lparr>ma_threshold = Some 2, ma_timeout_in_secs = Some 100, ma_execute_automatically = Some False\<rparr>],
     acc_disabled = None\<rparr>"

definition vault_store :: "(bytes \<times> stored) list" where
  "vault_store =
    [(key_for_account mem_ext (Subresource 1 1), SAccount vault_account),
     (key_for_multisig_transaction [1], SMultisig (vault_tx (TxWebRemove \<lparr>wra_owner = None, wra_site_name = [], wra_memo = None\<rparr>) True)),
     (key_for_multisig_transaction [2], SMultisig (vault_tx (TxAccountMultisigExecute \<lparr>arg_token = [2]\<rparr>) False)),
     (key_for_multisig_transaction [3], SMultisig (ms_disable Withdrawn (vault_tx (TxAccountMultisigExecute \<lparr>arg_token = [1]\<rparr>) False)))]"

definition vault :: "(mem, stored) ledger_storage" where
  "vault = ledger_new (vault_store, vault_store) True"

lemma vault_keys [simp]:
  "key_for_multisig_transaction [a] = key_for_multisig_transaction [b] \<longleftrightarrow> a = b"
  by (simp add: key_for_multisig_eq_iff nat_be_Cons word_unat_eq_iff)

lemma vault_at:
  "account_at mem_ext (sv mem_view vault) (Subresource 1 1) = Some vault_account"
  "multisig_at mem_ext (sv mem_view vault) [1] = Some (vault_tx (TxWebRemove \<lparr>wra_owner = None, wra_site_name = [], wra_memo = None\<rparr>) True)"
  "multisig_at mem_ext (sv mem_view vault) [2] = Some (vault_tx (TxAccountMultisigExecute \<lparr>arg_token = [2]\<rparr>) False)"
  "multisig_at mem_ext (sv mem_view vault) [3] = Some (ms_disable Withdrawn (vault_tx (TxAccountMultisigExecute \<lparr>arg_token = [1]\<rparr>) False))"
  by (simp_all add: vault_def ledger_new_def vault_store_def account_at_def multisig_at_def)

lemma vault_roles: "is_enabled vault_account" "has_role vault_account (PublicKey 2) CanMultisigApprove" "has_role vault_account (PublicKey 1) Owner" "has_role vault_account (Subresource 1 1) Owner"
  by (simp_all add: vault_account_def is_enabled_def has_role_def)

lemmas multisig_run = execute_multisig_def execute_multisig_with_def execute_internal_with_def disable_multisig_transaction_def
  approve_multisig_def approve_multisig_with_def commit_multisig_transaction_def create_multisig_transaction_def
  get_multisig_info_def get_account_def get_account_even_disabled_def store_get_or_none_def execute_response_def
  block_hotfix_def get_height_def log_event_def new_event_id_def nb_events_def maybe_commit_def now_def
  bnd_def query_def lift_result_def fail_if_def ret_def fail_def attempt_def Let_def
  store_get_def db_get_def store_apply_def with_store_def db_apply_def mem_apply_def
  vault_def vault_store_def ledger_new_def vault_tx_def
  map_of_bt_insert put_bytes_def ms_disable_def vault_roles

theorem execute_multisig_authorised_witness:
  "merk_laws mem_ext mem_view mem_committed \<and> codec_ok (multisig_codec mem_ext) \<and>
   (\<exists>r t tx'. execute_multisig mem_ext 1 (PublicKey 1) [1] vault = (Ok r, t) \<and>
     multisig_at mem_ext (sv mem_view t) [1] = Some tx' \<and> ms_disabled tx')"
proof -
  have "\<exists>r t. execute_multisig mem_ext 1 (PublicKey 1) [1] vault = (Ok r, t)"
    by (simp add: multisig_run should_execute_def)
  then obtain r t where r: "execute_multisig mem_ext 1 (PublicKey 1) [1] vault = (Ok r, t)"
    by blast
  obtain tx' where "multisig_at mem_ext (sv mem_view t) [1] = Some tx'" "ms_disabled tx'"
    using execute_multisig_authorised [OF mem_laws mem_codecs_ok(6) r] by blast
  then show ?thesis
    using r by (intro conjI mem_laws mem_codecs_ok(6) exI)
qed

theorem approve_multisig_effect_witness:
  "merk_laws mem_ext mem_view mem_committed \<and> codec_ok (multisig_codec mem_ext) \<and>
   (\<exists>t tx'. approve_multisig mem_ext 1 (PublicKey 2) [1] vault = (Ok True, t) \<and>
     multisig_at mem_ext (sv mem_view t) [1] = Some tx' \<and> ms_disabled tx')"
proof -
  have "\<exists>t. approve_multisig mem_ext 1 (PublicKey 2) [1] vault = (Ok True, t)"
  proof -
    have e: "should_execute (set_approval (PublicKey 2) True (vault_tx c b))" for c b
      by (simp add: should_execute_def set_approval_def vault_tx_def bt_insert_def)
    show ?thesis
      using e [unfolded vault_tx_def] by (simp add: multisig_run)
  qed
  then obtain t where r: "approve_multisig mem_ext 1 (PublicKey 2) [1] vault = (Ok True, t)"
    by blast
  obtain tx' where "multisig_at mem_ext (sv mem_view t) [1] = Some tx'" "ms_disabled tx'"
    using approve_multisig_effect [OF mem_laws mem_codecs_ok(6) r] by (simp only: if_True) blast
  then show ?thesis
    using r by (intro conjI mem_laws mem_codecs_ok(6) exI)
qed

theorem disabled_is_final_witness:
  "merk_reliable mem_ext mem_view mem_committed \<and>
   withdraw_multisig mem_ext (PublicKey 1) [3] vault = (Err transaction_expired_or_withdrawn, vault)"
  using disabled_is_final [OF mem_reliable vault_at(4)] mem_reliable by (simp add: ms_disable_def)

theorem self_execution_overflows_witness:
  "merk_reliable mem_ext mem_view mem_committed \<and>
   execute_multisig mem_ext 1000000 (PublicKey 1) [2] vault = (Panic ''stack overflow'', vault)"
proof -
  have t: "\<not> ms_disabled (vault_tx (TxAccountMultisigExecute \<lparr>arg_token = [2]\<rparr>) False)"
    "should_execute (vault_tx (TxAccountMultisigExecute \<lparr>arg_token = [2]\<rparr>) False)"
    "mi_transaction (ms_info (vault_tx (TxAccountMultisigExecute \<lparr>arg_token = [2]\<rparr>) False)) =
       TxAccountMultisigExecute \<lparr>arg_token = [2]\<rparr>"
    "ms_account (vault_tx (TxAccountMultisigExecute \<lparr>arg_token = [2]\<rparr>) False) = Subresource 1 1"
    by (simp_all add: vault_tx_def should_execute_def)
  have o': "has_role vault_account (PublicKey 1) Owner \<or>
      mi_submitter (ms_info (vault_tx (TxAccountMultisigExecute \<lparr>arg_token = [2]\<rparr>) False)) = PublicKey 1"
    using vault_roles by simp
  show ?thesis
    using self_execution_overflows [OF mem_reliable vault_at(3) t(1-3) _ vault_roles(1) _ o'] vault_at(1) vault_roles(4)
      mem_reliable unfolding t(4) by blast
qed


theorem expiry_complete_witness:
  "merk_reliable mem_ext mem_view mem_committed \<and>
   (\<exists>t. check_timed_out_multisig_transactions mem_ext vault = (Ok (), t) \<and>
     sv mem_view t (key_for_multisig_transaction [1]) = sv mem_view vault (key_for_multisig_transaction [1]))"
proof -
  have n: "now mem_ext vault = 0"
    by (simp add: vault_def ledger_new_def now_def)
  have "tx_value_wf mem_ext v"
    if "in_iter_range (PrefixRange MULTISIG_TRANSACTIONS_ROOT) k" "sv mem_committed vault k = Some v" for k v
  proof -
    have "\<not> in_iter_range (PrefixRange MULTISIG_TRANSACTIONS_ROOT) (key_for_account mem_ext (Subresource 1 1))"
      by (simp add: in_iter_range.simps key_defs utf8_Cons)
    then show ?thesis
      using that by (auto simp: vault_def vault_store_def ledger_new_def tx_value_wf_def vault_tx_def ms_disable_def
          MULTISIG_MAXIMUM_TIMEOUT_IN_SECS_def split: if_splits)
  qed
  then obtain t where t: "check_timed_out_multisig_transactions mem_ext vault = (Ok (), t)"
    and eq: "\<And>k. sv mem_view t k =
      (case (if in_iter_range (PrefixRange MULTISIG_TRANSACTIONS_ROOT) k then sv mem_committed vault k else None) of
         Some v \<Rightarrow> if value_expires mem_ext (now mem_ext vault) v then Some (expired_value mem_ext v) else sv mem_view vault k
       | None \<Rightarrow> sv mem_view vault k)"
    using expiry_complete [OF mem_laws mem_reliable mem_codecs_ok(6) mem_codecs_total(6), of vault] n by auto
  have "sv mem_view t (key_for_multisig_transaction [1]) = sv mem_view vault (key_for_multisig_transaction [1])"
    unfolding eq n by (simp add: vault_def vault_store_def ledger_new_def value_expires_def vault_tx_def)
  then show ?thesis
    using t mem_reliable by blast
qed

theorem submit_multisig_effect_witness:
  "merk_laws mem_ext mem_view mem_committed \<and> codec_ok (multisig_codec mem_ext) \<and>
   (\<exists>token t tx. create_multisig_transaction mem_ext (PublicKey 1)
       (SubmitArgs (Subresource 1 1) None (TxAccountDisable \<lparr>da_account = Subresource 1 1\<rparr>) (Some 2) None None None None) vault = (Ok token, t) \<and>
     multisig_at mem_ext (sv mem_view t) token = Some tx \<and> mi_state (ms_info tx) = Pending)"
proof -
  have f: "fs_get (acc_features vault_account) MultisigAccountFeature_ID multisig_try_create =
      Ok \<lparr>ma_threshold = Some 2, ma_timeout_in_secs = Some 100, ma_execute_automatically = Some False\<rparr>"
    using multisig_read_back [of 2 100 False]
    by (simp add: vault_account_def fs_get_def fs_get_feature_def feature_id_multisig)
  have "\<exists>token t. create_multisig_transaction mem_ext (PublicKey 1)
      (SubmitArgs (Subresource 1 1) None (TxAccountDisable \<lparr>da_account = Subresource 1 1\<rparr>) (Some 2) None None None None) vault = (Ok token, t)"
    by (simp add: multisig_run f needs_role_def owner_setting_def or_default_def tx_timeout_def as_system_time_def
        checked_add_secs_def from_system_time_def MULTISIG_MAXIMUM_TIMEOUT_IN_SECS_def min_def)
  then obtain token t where r: "create_multisig_transaction mem_ext (PublicKey 1)
      (SubmitArgs (Subresource 1 1) None (TxAccountDisable \<lparr>da_account = Subresource 1 1\<rparr>) (Some 2) None None None None) vault = (Ok token, t)"
    by blast
  obtain tx where "multisig_at mem_ext (sv mem_view t) token = Some tx" "mi_state (ms_info tx) = Pending"
    using submit_multisig_effect [OF mem_laws mem_codecs_ok(6) r] by blast
  then show ?thesis
    using r by (intro conjI mem_laws mem_codecs_ok(6) exI)
qed

end
