(* ===== verification/Ledger_Migrations.thy ===== *)
theory Ledger_Migrations
  imports Multisig
begin

text \<open>
  The migrations of the ledger, \<open>src/src/many-ledger/src/migration\<close>: the memo migration, the token
  migration, the hotfix of block 9400, the triggers, and the registry they are loaded from.
\<close>

section \<open>Third-party code\<close>

text \<open>The conversions of \<open>serde_json\<close> the token migration uses, and \<open>hex::encode\<close>.\<close>

record mig_ext =
  hex_encode :: "bytes \<Rightarrow> string"
  json_string :: "json \<Rightarrow> string + string"
  json_u32 :: "json \<Rightarrow> string + u32"
  json_u64 :: "json \<Rightarrow> string + u64"
  json_amount :: "json \<Rightarrow> string + token_amount"
  json_amount_option :: "json \<Rightarrow> string + token_amount option"
  json_address_option :: "json \<Rightarrow> string + address option"

section \<open>The memo migration\<close>

text \<open>\<open>From<MemoLegacy>\<close> and \<open>From<DataLegacy>\<close> for \<open>Memo\<close>: a value over the limit panics.\<close>

definition memo_from_legacy :: "string + bytes \<Rightarrow> memo result" where
  "memo_from_legacy v = (case memo_try_from v of Ok m \<Rightarrow> Ok m | Err e \<Rightarrow> Panic ''unwrap'' | Panic p \<Rightarrow> Panic p)"

definition merged_memo :: "string option \<Rightarrow> bytes option \<Rightarrow> memo option result" where
  "merged_memo memo_legacy data_legacy =
    (case (memo_legacy, data_legacy) of
       (Some m, Some d) \<Rightarrow> res_bind (memo_from_legacy (Inl m)) (\<lambda>m. res_bind (memo_push_bytes m d) (\<lambda>m. Ok (Some m)))
     | (Some m, None) \<Rightarrow> res_bind (memo_from_legacy (Inl m)) (\<lambda>m. Ok (Some m))
     | (None, Some d) \<Rightarrow> res_bind (memo_from_legacy (Inr d)) (\<lambda>m. Ok (Some m))
     | (None, None) \<Rightarrow> Ok None)"

definition convert_event :: "event_log \<Rightarrow> event_log option result" where
  "convert_event log =
    (case el_content log of
       EvAccountMultisigSubmit submitter account memo_legacy transaction token threshold timeout execute_automatically data_legacy memo \<Rightarrow>
         if memo \<noteq> None then Ok None
         else res_bind (merged_memo memo_legacy data_legacy) (\<lambda>memo.
           Ok (case memo of
                 None \<Rightarrow> None
               | Some m \<Rightarrow> Some (log\<lparr>el_content := EvAccountMultisigSubmit submitter account None transaction token
                   threshold timeout execute_automatically None (Some m)\<rparr>)))
     | _ \<Rightarrow> Ok None)"

definition convert_multisig :: "multisig_transaction_storage \<Rightarrow> multisig_transaction_storage option result" where
  "convert_multisig tx =
    (if mi_memo (ms_info tx) \<noteq> None then Ok None
     else res_bind (merged_memo (mi_memo_legacy (ms_info tx)) (mi_data_legacy (ms_info tx))) (\<lambda>memo.
       Ok (case memo of
             None \<Rightarrow> None
           | Some m \<Rightarrow> Some (tx\<lparr>ms_info := (ms_info tx)\<lparr>mi_memo_legacy := None, mi_data_legacy := None, mi_memo := Some m\<rparr>\<rparr>))))"

text \<open>
  The loop both conversions share: every entry the iterator yields is decoded, and the ones that
  change are encoded into the batch.
\<close>

definition convert_step ::
  "('a, 'v) codec \<Rightarrow> ('a \<Rightarrow> 'a option result) \<Rightarrow> string + bytes \<times> 'v \<Rightarrow> (bytes \<times> 'v merk_op) list \<Rightarrow> (bytes \<times> 'v merk_op) list result" where
  "convert_step c f item batch =
    res_bind (from_sum unknown item) (\<lambda>(k, v).
    res_bind (from_sum deserialization_error (dec c v)) (\<lambda>x.
    res_bind (f x) (\<lambda>y.
    case y of
      None \<Rightarrow> Ok batch
    | Some y \<Rightarrow> res_bind (from_sum serialization_error (enc c y)) (\<lambda>w. Ok (batch @ [(k, Put w)])))))"

definition convert_entries ::
  "('a, 'v) codec \<Rightarrow> ('a \<Rightarrow> 'a option result) \<Rightarrow> (string + bytes \<times> 'v) list \<Rightarrow> (bytes \<times> 'v merk_op) list result" where
  "convert_entries c f items = res_fold (convert_step c f) items []"

definition apply_and_commit :: "('m, 'v) ext \<Rightarrow> (bytes \<times> 'v merk_op) list \<Rightarrow> ('m, unit) act" where
  "apply_and_commit E batch =
    bnd (db_apply E storage_apply_failed batch) (\<lambda>_. db_commit E storage_commit_failed)"

definition update_multisig_submit_events :: "('m, 'v) ext \<Rightarrow> ('m, unit) act" where
  "update_multisig_submit_events E =
    bnd (query (\<lambda>m. convert_entries (event_codec E) convert_event (all_events E m))) (apply_and_commit E)"

definition update_multisig_storage :: "('m, 'v) ext \<Rightarrow> ('m, unit) act" where
  "update_multisig_storage E =
    bnd (query (\<lambda>m. convert_entries (multisig_codec E) convert_multisig (all_multisig E m Ascending))) (apply_and_commit E)"

definition memo_initialize :: "('m, 'v) ext \<Rightarrow> extra \<Rightarrow> ('m, unit) act" where
  "memo_initialize E extra = bnd (update_multisig_submit_events E) (\<lambda>_. update_multisig_storage E)"

section \<open>The token migration\<close>

definition migrate_account_identity :: "('m, 'v) ext \<Rightarrow> ('m, unit) act" where
  "migrate_account_identity E =
    bnd (query (db_get E storage_get_failed (utf8 IDENTITY_ROOT))) (\<lambda>x.
    bnd (lift_result (ok_or (storage_key_not_found IDENTITY_ROOT) x)) (\<lambda>root_identity.
    bnd (query (db_get E storage_get_failed (utf8 ACCOUNT_SUBRESOURCE_ID_ROOT))) (\<lambda>y.
    bnd (lift_result (case y of None \<Rightarrow> Ok 0 | Some v \<Rightarrow> read_u32 (val_bytes E v))) (\<lambda>subresource_counter.
    bnd (lift_result (from_bytes (val_bytes E root_identity))) (\<lambda>root_address.
    db_apply E storage_apply_failed
      [(utf8 ACCOUNT_SUBRESOURCE_ID_ROOT, Delete),
       (utf8 ACCOUNT_IDENTITY_ROOT, Put root_identity),
       (key_for_subresource_counter E root_address True, put_bytes E (u32_to_be_bytes subresource_counter))])))))"

definition token_params :: "string list" where
  "token_params =
    [''token_identity'', ''token_next_subresource'', ''symbol'', ''symbol_name'', ''symbol_decimals'',
     ''symbol_total'', ''symbol_circulating'', ''symbol_maximum'', ''symbol_owner'']"

text \<open>Indexing the parameters and converting one of them.\<close>

definition param :: "extra \<Rightarrow> string \<Rightarrow> (json \<Rightarrow> string + 'a) \<Rightarrow> 'a result" where
  "param extra k conv =
    (case extra k of None \<Rightarrow> Panic ''index'' | Some j \<Rightarrow> from_sum deserialization_error (conv j))"

definition migrated_info :: "mig_ext \<Rightarrow> extra \<Rightarrow> symbol \<Rightarrow> string \<Rightarrow> token_info result" where
  "migrated_info X extra symbol ticker =
    res_bind (param extra ''symbol_name'' (json_string X)) (\<lambda>name.
    res_bind (param extra ''symbol_decimals'' (json_u64 X)) (\<lambda>decimals.
    res_bind (param extra ''symbol_total'' (json_amount X)) (\<lambda>total.
    res_bind (param extra ''symbol_circulating'' (json_amount X)) (\<lambda>circulating.
    res_bind (param extra ''symbol_maximum'' (json_amount_option X)) (\<lambda>maximum.
    res_bind (param extra ''symbol_owner'' (json_address_option X)) (\<lambda>owner.
    Ok \<lparr>ti_symbol = symbol, ti_summary = \<lparr>tis_name = name, tis_ticker = ticker, tis_decimals = decimals\<rparr>,
      ti_supply = \<lparr>sup_total = total, sup_circulating = circulating, sup_maximum = maximum\<rparr>, ti_owner = owner\<rparr>))))))"

definition migrate_token :: "('m, 'v) ext \<Rightarrow> mig_ext \<Rightarrow> extra \<Rightarrow> ('m, unit) act" where
  "migrate_token E X extra =
    bnd (lift_result (case find (\<lambda>p. extra p = None) token_params of
        Some p \<Rightarrow> Err (unknown (''Missing extra parameter '' @ [CHR 0x27] @ p @ [CHR 0x27] @ '' for Token Migration''))
      | None \<Rightarrow> Ok ())) (\<lambda>_.
    bnd (lift_result (param extra ''token_identity'' (json_string X))) (\<lambda>token_text.
    bnd (lift_result (from_str E token_text)) (\<lambda>token_identity.
    bnd (lift_result (param extra ''token_next_subresource'' (json_u32 X))) (\<lambda>token_next_subresource.
    bnd (lift_result (param extra ''symbol'' (json_string X))) (\<lambda>symbol_text.
    bnd (lift_result (from_str E symbol_text)) (\<lambda>symbol.
    bnd (query (db_get E storage_get_failed (utf8 SYMBOLS_ROOT))) (\<lambda>x.
    bnd (lift_result (ok_or (storage_key_not_found SYMBOLS_ROOT) x)) (\<lambda>symbol_and_ticker_enc.
    bnd (lift_result (from_sum deserialization_error (dec (symbols_codec E) symbol_and_ticker_enc))) (\<lambda>symbol_and_ticker.
    bnd (lift_result (ok_or (unknown (''Symbol '' @ to_string E symbol @ '' not found in DB'')) (map_of symbol_and_ticker symbol))) (\<lambda>ticker.
    bnd (lift_result (migrated_info X extra symbol ticker)) (\<lambda>info.
    bnd (lift_result (from_sum serialization_error (enc (ext_info_codec E) []))) (\<lambda>ext_info.
    bnd (lift_result (from_sum serialization_error (enc (token_info_codec E) info))) (\<lambda>i.
    db_apply E storage_apply_failed
      [(key_for_ext_info E symbol, Put ext_info),
       (key_for_subresource_counter E token_identity True, put_bytes E (u32_to_be_bytes token_next_subresource)),
       (utf8 (key_for_symbol E symbol), Put i),
       (utf8 TOKEN_IDENTITY_ROOT, put_bytes E (to_vec token_identity))])))))))))))))"

definition token_initialize :: "('m, 'v) ext \<Rightarrow> mig_ext \<Rightarrow> extra \<Rightarrow> ('m, unit) act" where
  "token_initialize E X extra = bnd (migrate_account_identity E) (\<lambda>_. migrate_token E X extra)"

section \<open>The hotfix of block 9400\<close>

definition BLOCK_9400_TX_ID :: string where "BLOCK_9400_TX_ID = ''241e00000001''"
definition BLOCK_9400_NEW_TIMESTAMP :: u64 where "BLOCK_9400_NEW_TIMESTAMP = 1658348752"

definition block_9400 :: "('m, 'v) ext \<Rightarrow> mig_ext \<Rightarrow> 'v \<Rightarrow> 'v option" where
  "block_9400 E X b =
    (case dec (block_9400_codec E) b of
       Inl _ \<Rightarrow> None
     | Inr tx \<Rightarrow>
         if hex_encode X (b94_tx_id tx) = BLOCK_9400_TX_ID then
           (case enc (response_codec E) ((b94_response tx)\<lparr>rm_timestamp := Some BLOCK_9400_NEW_TIMESTAMP\<rparr>) of
              Inr r \<Rightarrow> Some r
            | Inl _ \<Rightarrow> None)
         else None)"

section \<open>The registry\<close>

definition TOKEN_CREATE_MIGRATION :: string where "TOKEN_CREATE_MIGRATION = ''Token Create Migration''"
definition DISABLE_TOKEN_CREATE_MIGRATION :: string where "DISABLE_TOKEN_CREATE_MIGRATION = ''Disable Token Create Migration''"
definition DISABLE_TOKEN_MINT_MIGRATION :: string where "DISABLE_TOKEN_MINT_MIGRATION = ''Disable Token Mint Migration''"
definition ACCOUNT_COUNT_DATA_ATTRIBUTE :: string where "ACCOUNT_COUNT_DATA_ATTRIBUTE = ''Account Count Data Attribute''"
definition B9400 :: string where "B9400 = ''Block 9400''"

text \<open>The registry of the program without the testing features. Descriptions are left out.\<close>

definition MIGRATIONS :: "('m, 'v) ext \<Rightarrow> mig_ext \<Rightarrow> ('m, 'v) inner_migration list" where
  "MIGRATIONS E X =
    [new_hotfix (block_9400 E X) B9400 [],
     new_initialize (data_initialize E) ACCOUNT_COUNT_DATA_ATTRIBUTE [],
     new_trigger False DISABLE_TOKEN_CREATE_MIGRATION [],
     new_trigger False DISABLE_TOKEN_MINT_MIGRATION [],
     new_trigger True LEGACY_REMOVE_ROLES_TRIGGER [],
     new_initialize (memo_initialize E) MEMO_MIGRATION [],
     new_trigger False TOKEN_CREATE_MIGRATION [],
     new_initialize (token_initialize E X) TOKEN_MIGRATION []]"

section \<open>Effect of a conversion\<close>

text \<open>What a conversion makes of one stored value: its new value if it changes.\<close>

definition converted :: "('a, 'v) codec \<Rightarrow> ('a \<Rightarrow> 'a option result) \<Rightarrow> 'v \<Rightarrow> 'v option" where
  "converted c f v =
    (case dec c v of
       Inr x \<Rightarrow> (case f x of Ok (Some y) \<Rightarrow> (case enc c y of Inr w \<Rightarrow> Some w | Inl _ \<Rightarrow> None) | _ \<Rightarrow> None)
     | Inl _ \<Rightarrow> None)"

lemma convert_entries_append:
  "res_fold (convert_step c f) (map Inr es) acc = Ok batch \<Longrightarrow>
   batch = acc @ List.map_filter (\<lambda>(k, v). map_option (\<lambda>w. (k, Put w)) (converted c f v)) es \<and>
   (\<forall>(k, v)\<in>set es. \<exists>x y. dec c v = Inr x \<and> f x = Ok y \<and> (\<forall>z. y = Some z \<longrightarrow> (\<exists>w. enc c z = Inr w)))"
proof (induction es arbitrary: acc)
  case (Cons e es)
  obtain k v where e: "e = (k, v)" by (cases e)
  obtain x y where x: "dec c v = Inr x" and y: "f x = Ok y"
    using Cons.prems e by (auto simp: act_simps convert_step_def)
  show ?case
  proof (cases y)
    case None
    then show ?thesis
      using Cons.IH [of acc] Cons.prems e x y by (simp add: converted_def convert_step_def List.map_filter_simps)
  next
    case (Some z)
    then obtain w where w: "enc c z = Inr w"
      using Cons.prems e x y by (auto simp: act_simps convert_step_def)
    then show ?thesis
      using Cons.IH [of "acc @ [(k, Put w)]"] Cons.prems e x y Some by (simp add: converted_def convert_step_def List.map_filter_simps)
  qed
qed (simp add: List.map_filter_simps)

lemma map_filter_entries:
  assumes "keys_sorted es"
  shows "keys_sorted (List.map_filter (\<lambda>(k, v). map_option (\<lambda>w. (k, g w)) (h v)) es)"
    and "map_of (List.map_filter (\<lambda>(k, v). map_option (\<lambda>w. (k, g w)) (h v)) es) k =
      (case map_of es k of Some v \<Rightarrow> map_option g (h v) | None \<Rightarrow> None)"
proof -
  have sub: "fst ` set (List.map_filter (\<lambda>(k, v). map_option (\<lambda>w. (k, g w)) (h v)) es) \<subseteq> fst ` set es" for es
    by (induction es) (auto simp: List.map_filter_simps split: option.splits)
  show "keys_sorted (List.map_filter (\<lambda>(k, v). map_option (\<lambda>w. (k, g w)) (h v)) es)"
    using assms by (induction es) (use sub in \<open>fastforce simp: List.map_filter_simps split: option.splits\<close>)+
  show "map_of (List.map_filter (\<lambda>(k, v). map_option (\<lambda>w. (k, g w)) (h v)) es) k =
      (case map_of es k of Some v \<Rightarrow> map_option g (h v) | None \<Rightarrow> None)"
    using keys_sorted_distinct [OF assms]
  proof (induction es)
    case (Cons e es)
    obtain j v where e: "e = (j, v)" by (cases e)
    have "map_of (List.map_filter (\<lambda>(k, v). map_option (\<lambda>w. (k, g w)) (h v)) es) j = None"
      using Cons.prems sub [of es] e by (auto simp: map_of_eq_None_iff)
    then show ?case
      using Cons e by (auto simp: List.map_filter_simps split: option.splits)
  qed (simp add: List.map_filter_simps)
qed

text \<open>
  A run of a conversion over the entries of a range of a store whose contents are on disk: exactly the
  changed entries of the range are replaced, and the result is on disk.
\<close>

lemma conversion_Ok:
  assumes "merk_laws E V C" "merk_reliable E V C" "V m = C m"
    and "bnd (query (\<lambda>m. convert_entries c f (merk_iter E m IterStart r))) (apply_and_commit E) m = (Ok u, m')"
  shows "V m' k = (case V m k of
      Some v \<Rightarrow> if in_iter_range r k then (case converted c f v of Some w \<Rightarrow> Some w | None \<Rightarrow> Some v) else Some v
    | None \<Rightarrow> None)" (is ?t1)
    and "V m' = C m'" (is ?t2)
    and "V m k = Some v \<Longrightarrow> in_iter_range r k \<Longrightarrow>
      \<exists>x y. dec c v = Inr x \<and> f x = Ok y \<and> (\<forall>z. y = Some z \<longrightarrow> (\<exists>w. enc c z = Inr w))"
proof -
  obtain es where it: "merk_iter E m IterStart r = map Inr es" and so: "keys_sorted es"
    and es: "\<And>k. map_of es k = (if in_iter_range r k then C m k else None)"
    using assms(2) unfolding merk_reliable_def by meson
  obtain batch m1 where b: "convert_entries c f (map Inr es) = Ok batch"
    and ap: "db_apply E storage_apply_failed batch m = (Ok (), m1)" and co: "db_commit E storage_commit_failed m1 = (Ok (), m')"
    using assms(4) it by (auto simp: act_simps apply_and_commit_def)
  note be = convert_entries_append [OF b [unfolded convert_entries_def], simplified]
  have d: "distinct (map fst batch)"
    using be keys_sorted_distinct [OF map_filter_entries(1) [OF so]] by simp
  have m': "V m' = apply_ops (V m) batch" "C m' = V m'"
    using db_apply_Ok [OF assms(1) ap] db_commit_Ok [OF assms(1) co] by simp_all
  show ?t2
    using m'(2) by simp
  have mo: "map_of batch k = (case map_of es k of Some v \<Rightarrow> map_option Put (converted c f v) | None \<Rightarrow> None)"
    using be map_filter_entries(2) [OF so, of Put "converted c f" k] by simp
  show ?t1
    unfolding m'(1) apply_ops_at [OF d] mo es assms(3) by (simp split: option.splits)
  show "\<exists>x y. dec c v = Inr x \<and> f x = Ok y \<and> (\<forall>z. y = Some z \<longrightarrow> (\<exists>w. enc c z = Inr w))"
    if "V m k = Some v" "in_iter_range r k"
    using be that es [of k] assms(3) by (auto dest: map_of_SomeD)
qed

section \<open>Effect of the memo migration\<close>

abbreviation events_range :: iter_range where
  "events_range \<equiv> BoundRange EVENTS_ROOT (EVENTS_ROOT[length EVENTS_ROOT - 1 := EVENTS_ROOT ! (length EVENTS_ROOT - 1) + 1])"

abbreviation multisig_range :: iter_range where
  "multisig_range \<equiv> PrefixRange MULTISIG_TRANSACTIONS_ROOT"

lemma all_events_iter: "all_events E m = merk_iter E m IterStart events_range"
  by (simp add: all_events_def events_scoped_by_id_def range_default_def order_mode_def)

lemma all_multisig_iter: "all_multisig E m Ascending = merk_iter E m IterStart multisig_range"
  by (simp add: all_multisig_def order_mode_def)

lemma ranges:
  "in_iter_range events_range (key_for_event i)" "in_iter_range multisig_range (key_for_multisig_transaction t)"
  "\<not> in_iter_range events_range (key_for_multisig_transaction t)" "\<not> in_iter_range multisig_range (key_for_event i)"
  "\<not> in_iter_range events_range (utf8 HEIGHT_ROOT)" "\<not> in_iter_range multisig_range (utf8 HEIGHT_ROOT)"
  by (simp_all add: in_iter_range.simps key_for_event_def key_for_multisig_transaction_def EVENTS_ROOT_def
      MULTISIG_TRANSACTIONS_ROOT_def HEIGHT_ROOT_def utf8_def)

text \<open>The memo the legacy fields make together.\<close>

definition legacy_parts :: "string option \<Rightarrow> bytes option \<Rightarrow> memo_inner list" where
  "legacy_parts m d = (case m of Some s \<Rightarrow> [MemoString s] | None \<Rightarrow> []) @ (case d of Some b \<Rightarrow> [MemoByteString b] | None \<Rightarrow> [])"

lemma merged_memo_Ok:
  "merged_memo m d = Ok r \<Longrightarrow> r = (if legacy_parts m d = [] then None else Some \<lparr>memo_parts = legacy_parts m d\<rparr>)"
  by (auto simp: merged_memo_def legacy_parts_def memo_from_legacy_def memo_try_from_def memo_push_bytes_def
      memo_inner_try_from_def act_simps split: option.splits result.splits if_splits)

definition unified_tx :: "multisig_transaction_storage \<Rightarrow> multisig_transaction_storage" where
  "unified_tx tx =
    (let i = ms_info tx; p = legacy_parts (mi_memo_legacy i) (mi_data_legacy i) in
     if mi_memo i \<noteq> None \<or> p = [] then tx
     else tx\<lparr>ms_info := i\<lparr>mi_memo_legacy := None, mi_data_legacy := None, mi_memo := Some \<lparr>memo_parts = p\<rparr>\<rparr>\<rparr>)"

definition unified_event :: "event_log \<Rightarrow> event_log" where
  "unified_event log =
    (case el_content log of
       EvAccountMultisigSubmit a b ml tr tok th ti ex dl memo \<Rightarrow>
         if memo \<noteq> None \<or> legacy_parts ml dl = [] then log
         else log\<lparr>el_content := EvAccountMultisigSubmit a b None tr tok th ti ex None (Some \<lparr>memo_parts = legacy_parts ml dl\<rparr>)\<rparr>
     | _ \<Rightarrow> log)"

lemma convert_multisig_Ok: "convert_multisig tx = Ok y \<Longrightarrow> (case y of Some z \<Rightarrow> z | None \<Rightarrow> tx) = unified_tx tx"
  by (auto simp: convert_multisig_def unified_tx_def Let_def act_simps split: option.splits if_splits dest!: merged_memo_Ok)

lemma convert_event_Ok: "convert_event log = Ok y \<Longrightarrow> (case y of Some z \<Rightarrow> z | None \<Rightarrow> log) = unified_event log"
  by (auto simp: convert_event_def unified_event_def act_simps split: event_info.splits option.splits if_splits dest!: merged_memo_Ok)

text \<open>The entries of the range hold the converted values.\<close>

lemma conversion_values:
  assumes "merk_laws E V C" "merk_reliable E V C" "V m = C m" "codec_ok c"
    and "bnd (query (\<lambda>m. convert_entries c f (merk_iter E m IterStart r))) (apply_and_commit E) m = (Ok u, m')"
    and "in_iter_range r k" "V m k = Some v" "\<And>x y. f x = Ok y \<Longrightarrow> (case y of Some z \<Rightarrow> z | None \<Rightarrow> x) = g x"
  shows "\<exists>x w. dec c v = Inr x \<and> V m' k = Some w \<and> dec c w = Inr (g x)"
proof -
  obtain x y where x: "dec c v = Inr x" "f x = Ok y" "\<forall>z. y = Some z \<longrightarrow> (\<exists>w. enc c z = Inr w)"
    using conversion_Ok(3) [OF assms(1-3,5,7,6)] by blast
  have "\<exists>w. V m' k = Some w \<and> dec c w = Inr (case y of Some z \<Rightarrow> z | None \<Rightarrow> x)"
    using conversion_Ok(1) [OF assms(1-3,5), of k] x assms(6,7) codec_okD [OF assms(4)]
    by (cases y) (auto simp: converted_def)
  then show ?thesis
    using x(1) assms(8) [OF x(2)] by auto
qed

text \<open>C30: A successful memo migration turns the legacy memo and data of every stored multisig transaction and
  of every submission event into one memo with the same contents, leaves every other entry alone, and
  writes the result to disk.\<close>

theorem memo_migration_effect:
  assumes "merk_laws E V C" "merk_reliable E V C" "V m = C m" "codec_ok (multisig_codec E)" "codec_ok (event_codec E)"
    and "memo_initialize E extra m = (Ok u, m')"
  shows "(\<forall>token. multisig_at E (V m') token = map_option unified_tx (multisig_at E (V m) token)) \<and>
    (\<forall>i v. V m (key_for_event i) = Some v \<longrightarrow> (\<exists>log w. dec (event_codec E) v = Inr log \<and>
       V m' (key_for_event i) = Some w \<and> dec (event_codec E) w = Inr (unified_event log))) \<and>
    (\<forall>k. \<not> in_iter_range events_range k \<longrightarrow> \<not> in_iter_range multisig_range k \<longrightarrow> V m' k = V m k) \<and> V m' = C m'"
proof -
  obtain m1 where e: "bnd (query (\<lambda>m. convert_entries (event_codec E) convert_event (merk_iter E m IterStart events_range)))
      (apply_and_commit E) m = (Ok (), m1)"
    and t: "bnd (query (\<lambda>m. convert_entries (multisig_codec E) convert_multisig (merk_iter E m IterStart multisig_range)))
      (apply_and_commit E) m1 = (Ok u, m')"
    using assms(6) unfolding memo_initialize_def update_multisig_submit_events_def update_multisig_storage_def
      all_events_iter all_multisig_iter by (subst (asm) bnd_Ok) auto
  note c1 = conversion_Ok [OF assms(1-3) e] and c2 = conversion_Ok [OF assms(1,2) conversion_Ok(2) [OF assms(1-3) e] t]
  have ms1: "V m1 (key_for_multisig_transaction token) = V m (key_for_multisig_transaction token)" for token
    using c1(1) [of "key_for_multisig_transaction token"] ranges(3) by (simp split: option.splits)
  have ev2: "V m' (key_for_event i) = V m1 (key_for_event i)" for i
    using c2(1) [of "key_for_event i"] ranges(4) by (simp split: option.splits)
  have ms: "multisig_at E (V m') token = map_option unified_tx (multisig_at E (V m) token)" for token
  proof (cases "V m (key_for_multisig_transaction token)")
    case None
    then show ?thesis
      using c2(1) [of "key_for_multisig_transaction token"] ms1 [of token] by (simp add: multisig_at_def)
  next
    case (Some v)
    obtain x w where "dec (multisig_codec E) v = Inr x" "V m' (key_for_multisig_transaction token) = Some w"
      "dec (multisig_codec E) w = Inr (unified_tx x)"
      using conversion_values [OF assms(1,2) c1(2) assms(4) t ranges(2), of token v unified_tx] Some ms1 [of token]
        convert_multisig_Ok by auto
    then show ?thesis
      using Some by (simp add: multisig_at_def)
  qed
  have ev: "\<exists>log w. dec (event_codec E) v = Inr log \<and> V m' (key_for_event i) = Some w \<and> dec (event_codec E) w = Inr (unified_event log)"
    if "V m (key_for_event i) = Some v" for i v
    unfolding ev2 using conversion_values [OF assms(1-3,5) e ranges(1) that convert_event_Ok] .
  have other: "V m' k = V m k" if "\<not> in_iter_range events_range k" "\<not> in_iter_range multisig_range k" for k
    using c1(1) [of k] c2(1) [of k] that by (simp split: option.splits)
  show ?thesis
    using ms ev other c2(2) by blast
qed

section \<open>Effect of the token migration\<close>

lemma migrate_account_identity_Ok:
  assumes "merk_laws E V C" "migrate_account_identity E m = (Ok u, m')"
  obtains v r n where "V m (utf8 IDENTITY_ROOT) = Some v" "from_bytes (val_bytes E v) = Ok r"
    "(case V m (utf8 ACCOUNT_SUBRESOURCE_ID_ROOT) of None \<Rightarrow> Ok 0 | Some w \<Rightarrow> read_u32 (val_bytes E w)) = Ok n"
    "V m' = (V m)(utf8 ACCOUNT_SUBRESOURCE_ID_ROOT := None, utf8 ACCOUNT_IDENTITY_ROOT := Some v,
       key_for_subresource_counter E r True := Some (val_of_bytes E (u32_to_be_bytes n)))"
proof -
  obtain x y v r n where x: "db_get E storage_get_failed (utf8 IDENTITY_ROOT) m = Ok x" "x = Some v"
    and y: "db_get E storage_get_failed (utf8 ACCOUNT_SUBRESOURCE_ID_ROOT) m = Ok y"
    and n: "(case y of None \<Rightarrow> Ok 0 | Some w \<Rightarrow> read_u32 (val_bytes E w)) = Ok n" and r: "from_bytes (val_bytes E v) = Ok r"
    and ap: "db_apply E storage_apply_failed
      [(utf8 ACCOUNT_SUBRESOURCE_ID_ROOT, Delete), (utf8 ACCOUNT_IDENTITY_ROOT, Put v),
       (key_for_subresource_counter E r True, Put (val_of_bytes E (u32_to_be_bytes n)))] m = (Ok u, m')"
    using assms(2) by (auto simp: migrate_account_identity_def act_simps put_bytes_def)
  show thesis
    using that [of v r n] r n x db_get_Ok [OF assms(1) x(1)] db_get_Ok [OF assms(1) y] db_apply_Ok [OF assms(1) ap] by simp
qed

lemma migrate_token_Ok:
  assumes "merk_laws E V C" "migrate_token E X extra m = (Ok u, m')"
  obtains tid token n symbol ticker info x i where "param extra ''token_identity'' (json_string X) = Ok tid" "from_str E tid = Ok token"
    "param extra ''token_next_subresource'' (json_u32 X) = Ok n"
    "migrated_info X extra symbol ticker = Ok info" "enc (token_info_codec E) info = Inr i"
    "V m' = (V m)(key_for_ext_info E symbol := Some x,
       key_for_subresource_counter E token True := Some (val_of_bytes E (u32_to_be_bytes n)),
       utf8 (key_for_symbol E symbol) := Some i, utf8 TOKEN_IDENTITY_ROOT := Some (val_of_bytes E (to_vec token)))"
proof -
  obtain tid token n symbol ticker info x i where p: "param extra ''token_identity'' (json_string X) = Ok tid" "from_str E tid = Ok token"
    "param extra ''token_next_subresource'' (json_u32 X) = Ok n"
    "migrated_info X extra symbol ticker = Ok info" "enc (token_info_codec E) info = Inr i"
    and ap: "db_apply E storage_apply_failed
      [(key_for_ext_info E symbol, Put x),
       (key_for_subresource_counter E token True, Put (val_of_bytes E (u32_to_be_bytes n))),
       (utf8 (key_for_symbol E symbol), Put i),
       (utf8 TOKEN_IDENTITY_ROOT, Put (val_of_bytes E (to_vec token)))] m = (Ok u, m')"
    using assms(2) by (auto simp: migrate_token_def act_simps put_bytes_def)
  show thesis
    using that [OF p] db_apply_Ok [OF assms(1) ap] by simp
qed

text \<open>A successful token migration makes the server identity the account identity and the configured
  identity the token identity, starts the token counter at the configured number, keeps the number of
  the next account unless both identities are the same, and changes no balance.\<close>

theorem token_migration_identities:
  assumes "merk_laws E V C" "merk_reliable E V C" "token_initialize E X extra (persistent_store s) = (Ok u, persistent_store t)"
    and "\<not> token_migration_active s" "token_migration_active t"
  shows "\<exists>tid root token n.
    param extra ''token_identity'' (json_string X) = Ok tid \<and> from_str E tid = Ok token \<and>
    param extra ''token_next_subresource'' (json_u32 X) = Ok n \<and>
    get_identity E IDENTITY_ROOT s = Ok root \<and> identity_or_root E ACCOUNT_IDENTITY_ROOT t = Ok root \<and>
    identity_or_root E TOKEN_IDENTITY_ROOT t = Ok token \<and> get_subresource_counter E token t = Ok n \<and>
    (token \<noteq> root \<longrightarrow> get_subresource_counter E root t = get_subresource_counter E root s) \<and>
    (\<forall>a sy. balance_at E (sv V t) a sy = balance_at E (sv V s) a sy)"
proof -
  obtain m1 where a: "migrate_account_identity E (persistent_store s) = (Ok (), m1)"
    and b: "migrate_token E X extra m1 = (Ok u, persistent_store t)"
    using assms(3) by (auto simp: token_initialize_def act_simps)
  obtain v root k where r: "sv V s (utf8 IDENTITY_ROOT) = Some v" "from_bytes (val_bytes E v) = Ok root"
    "(case sv V s (utf8 ACCOUNT_SUBRESOURCE_ID_ROOT) of None \<Rightarrow> Ok 0 | Some w \<Rightarrow> read_u32 (val_bytes E w)) = Ok k"
    and m1: "V m1 = (sv V s)(utf8 ACCOUNT_SUBRESOURCE_ID_ROOT := None, utf8 ACCOUNT_IDENTITY_ROOT := Some v,
       key_for_subresource_counter E root True := Some (val_of_bytes E (u32_to_be_bytes k)))"
    by (rule migrate_account_identity_Ok [OF assms(1) a])
  obtain tid token n symbol x i where p: "param extra ''token_identity'' (json_string X) = Ok tid" "from_str E tid = Ok token"
    "param extra ''token_next_subresource'' (json_u32 X) = Ok n"
    and t: "sv V t = (V m1)(key_for_ext_info E symbol := Some x,
       key_for_subresource_counter E token True := Some (val_of_bytes E (u32_to_be_bytes n)),
       utf8 (key_for_symbol E symbol) := Some i, utf8 TOKEN_IDENTITY_ROOT := Some (val_of_bytes E (to_vec token)))"
    by (rule migrate_token_Ok [OF assms(1) b]) (rule that)
  note val = merk_laws_val [OF assms(1)] and get = store_get_reliable [OF assms(2)]
  have "get_identity E IDENTITY_ROOT s = Ok root"
    using r by (simp add: get_identity_def get)
  moreover have "identity_or_root E ACCOUNT_IDENTITY_ROOT t = Ok root"
    using r by (simp add: identity_or_root_def get t m1)
  moreover have "identity_or_root E TOKEN_IDENTITY_ROOT t = Ok token"
    by (simp add: identity_or_root_def get t val from_bytes_to_vec)
  moreover have "get_subresource_counter E token t = Ok n"
    using assms(5) by (simp add: get_subresource_counter_def get t val)
  moreover have "get_subresource_counter E root t = get_subresource_counter E root s" if "token \<noteq> root"
    using that assms(4,5) r(3)
    by (simp add: get_subresource_counter_def get t m1 val address_key_inject [OF merk_laws_addr [OF assms(1)]])
  moreover have "balance_at E (sv V t) a sy = balance_at E (sv V s) a sy" for a sy
    by (simp add: amount_at_def t m1)
  ultimately show ?thesis
    using p by blast
qed

section \<open>The height\<close>

text \<open>No migration of the registry writes the height.\<close>

lemma data_initialize_height:
  assumes "merk_laws E V C" "data_initialize E x m = (Ok u, m')"
  shows "V m' (utf8 HEIGHT_ROOT) = V m (utf8 HEIGHT_ROOT)"
proof -
  obtain a i where ap: "db_apply E storage_apply_failed [(DATA_ATTRIBUTES_KEY, Put a), (DATA_INFO_KEY, Put i)] m = (Ok u, m')"
    using assms(2) by (auto simp: data_initialize_def act_simps)
  then show ?thesis
    using db_apply_Ok [OF assms(1) ap] by simp
qed

lemma token_initialize_height:
  assumes "merk_laws E V C" "token_initialize E X x m = (Ok u, m')"
  shows "V m' (utf8 HEIGHT_ROOT) = V m (utf8 HEIGHT_ROOT)"
proof -
  obtain m1 where a: "migrate_account_identity E m = (Ok (), m1)" and b: "migrate_token E X x m1 = (Ok u, m')"
    using assms(2) by (auto simp: token_initialize_def act_simps)
  have "V m1 (utf8 HEIGHT_ROOT) = V m (utf8 HEIGHT_ROOT)"
    by (rule migrate_account_identity_Ok [OF assms(1) a]) simp
  moreover have "V m' (utf8 HEIGHT_ROOT) = V m1 (utf8 HEIGHT_ROOT)"
    by (rule migrate_token_Ok [OF assms(1) b]) simp
  ultimately show ?thesis
    by simp
qed

lemma iter_in_range: "merk_laws E V C \<Longrightarrow> Inr (k, v) \<in> set (merk_iter E m o' r) \<Longrightarrow> in_iter_range r k"
  unfolding merk_laws_def by blast

lemma conversion_height:
  assumes "merk_laws E V C" "\<not> in_iter_range r (utf8 HEIGHT_ROOT)"
    and "bnd (query (\<lambda>m. convert_entries c f (merk_iter E m IterStart r))) (apply_and_commit E) m = (Ok u, m')"
  shows "V m' (utf8 HEIGHT_ROOT) = V m (utf8 HEIGHT_ROOT)"
proof -
  obtain batch m1 where b: "convert_entries c f (merk_iter E m IterStart r) = Ok batch"
    and ap: "db_apply E storage_apply_failed batch m = (Ok (), m1)" and co: "db_commit E storage_commit_failed m1 = (Ok (), m')"
    using assms(3) by (auto simp: act_simps apply_and_commit_def)
  have sub: "\<forall>k\<in>fst ` set batch. (\<exists>v. Inr (k, v) \<in> set items) \<or> k \<in> fst ` set acc"
    if "res_fold (convert_step c f) items acc = Ok batch" for items acc
    using that
  proof (induction items arbitrary: acc)
    case (Cons item items)
    then obtain acc' where st: "convert_step c f item acc = Ok acc'" and r: "res_fold (convert_step c f) items acc' = Ok batch"
      by (auto simp: act_simps)
    obtain k v where kv: "item = Inr (k, v)" "fst ` set acc' \<subseteq> insert k (fst ` set acc)"
      using st by (auto simp: convert_step_def act_simps split: option.splits)
    show ?case
    proof
      fix j assume "j \<in> fst ` set batch"
      with Cons.IH [OF r] have "(\<exists>v. Inr (j, v) \<in> set items) \<or> j \<in> fst ` set acc'"
        by (rule bspec)
      then show "(\<exists>v. Inr (j, v) \<in> set (item # items)) \<or> j \<in> fst ` set acc"
        using kv by (cases "j = k") auto
    qed
  qed simp
  have "utf8 HEIGHT_ROOT \<notin> fst ` set batch"
    using sub [OF b [unfolded convert_entries_def]] assms(2) iter_in_range [OF assms(1)] by fastforce
  moreover have "distinct (map fst batch)" "V m' = apply_ops (V m) batch"
    using db_apply_Ok [OF assms(1) ap] db_commit_Ok [OF assms(1) co] keys_sorted_distinct by auto
  ultimately show ?thesis
    by (simp add: apply_ops_at map_of_eq_None_iff [THEN iffD2])
qed

lemma memo_initialize_height:
  assumes "merk_laws E V C" "memo_initialize E x m = (Ok u, m')"
  shows "V m' (utf8 HEIGHT_ROOT) = V m (utf8 HEIGHT_ROOT)"
proof -
  obtain m1 where a: "update_multisig_submit_events E m = (Ok (), m1)" and b: "update_multisig_storage E m1 = (Ok u, m')"
    using assms(2) by (auto simp: memo_initialize_def act_simps)
  show ?thesis
    using conversion_height [OF assms(1) ranges(6) b [unfolded update_multisig_storage_def all_multisig_iter]]
      conversion_height [OF assms(1) ranges(5) a [unfolded update_multisig_submit_events_def all_events_iter]] by simp
qed

lemma registry_height:
  assumes "merk_laws E V C" "i \<in> set (MIGRATIONS E X)"
    and "inner_initialize i x m = (Ok u, m') \<or> inner_update i x m = (Ok u, m')"
  shows "V m' (utf8 HEIGHT_ROOT) = V m (utf8 HEIGHT_ROOT)"
  using assms data_initialize_height [OF assms(1)] memo_initialize_height [OF assms(1)] token_initialize_height [OF assms(1)]
  by (auto simp: MIGRATIONS_def new_hotfix_def new_initialize_def new_trigger_def inner_initialize_def inner_update_def ret_def)

section \<open>Concrete migrations\<close>

definition legacy_tx :: multisig_transaction_storage where
  "legacy_tx = \<lparr>ms_account = Subresource 1 1,
     ms_info = \<lparr>mi_memo_legacy = Some ''hi'', mi_transaction = TxAccountDisable \<lparr>da_account = Subresource 1 1\<rparr>,
       mi_submitter = PublicKey 1, mi_approvers = [], mi_threshold = 1, mi_execute_automatically = False, mi_timeout = 100,
       mi_data_legacy = Some [7], mi_state = Pending, mi_memo = None\<rparr>, ms_creation = 0, ms_disabled = False\<rparr>"

definition legacy_store :: "(bytes \<times> stored) list" where
  "legacy_store = [(key_for_multisig_transaction [1], SMultisig legacy_tx)]"

theorem memo_migration_effect_witness:
  "\<exists>m'. memo_initialize mem_ext Map.empty (legacy_store, legacy_store) = (Ok (), m') \<and>
     mem_view (legacy_store, legacy_store) = mem_committed (legacy_store, legacy_store) \<and>
     multisig_at mem_ext (mem_view m') [1] = Some (unified_tx legacy_tx) \<and>
     mi_memo (ms_info (unified_tx legacy_tx)) = Some \<lparr>memo_parts = [MemoString ''hi'', MemoByteString [7]]\<rparr>"
proof -
  have u: "mi_memo (ms_info (unified_tx legacy_tx)) = Some \<lparr>memo_parts = [MemoString ''hi'', MemoByteString [7]]\<rparr>"
    by (simp add: unified_tx_def legacy_tx_def legacy_parts_def)
  obtain y where y: "convert_multisig legacy_tx = Ok (Some y)"
    by (simp add: convert_multisig_def legacy_tx_def merged_memo_def memo_from_legacy_def memo_try_from_def
        memo_push_bytes_def memo_inner_try_from_def MEMO_DATA_DEFAULT_MAX_SIZE_def)
  have b: "bt_of legacy_store = legacy_store"
    by (simp add: legacy_store_def bt_of_def bt_insert_def)
  have it: "all_events mem_ext (legacy_store, x) = []" "all_multisig mem_ext (legacy_store, x) Ascending = map Inr legacy_store" for x
    unfolding all_events_iter all_multisig_iter mem_ext_simps mem_iter_def Let_def fst_conv b
    unfolding legacy_store_def using ranges(2,3) [of "[1]"] by simp_all
  have "\<exists>m'. memo_initialize mem_ext Map.empty (legacy_store, legacy_store) = (Ok (), m')"
    by (simp add: memo_initialize_def update_multisig_submit_events_def update_multisig_storage_def
        bnd_def query_def it convert_entries_def apply_and_commit_def db_apply_def db_commit_def mem_apply_def)
      (simp add: legacy_store_def convert_step_def y apply_and_commit_def bnd_def db_apply_def db_commit_def mem_apply_def)
  then obtain m' where m: "memo_initialize mem_ext Map.empty (legacy_store, legacy_store) = (Ok (), m')"
    by blast
  have eq: "mem_view (legacy_store, legacy_store) = mem_committed (legacy_store, legacy_store)"
    by simp
  have "multisig_at mem_ext (mem_view m') [1] = map_option unified_tx (multisig_at mem_ext (mem_view (legacy_store, legacy_store)) [1])"
    using memo_migration_effect [OF mem_laws mem_reliable eq mem_codecs_ok(6,5) m] by blast
  then show ?thesis
    using m eq u by (simp add: multisig_at_def legacy_store_def)
qed

definition plain_mig_ext :: mig_ext where
  "plain_mig_ext =
    \<lparr>hex_encode = (\<lambda>_. []),
     json_string = (\<lambda>j. case j of JString x \<Rightarrow> Inr x | _ \<Rightarrow> Inl ''expected a string''),
     json_u32 = (\<lambda>j. case j of JNumber n \<Rightarrow> Inr (of_int n) | _ \<Rightarrow> Inl ''expected u32''),
     json_u64 = (\<lambda>j. case j of JNumber n \<Rightarrow> Inr (of_int n) | _ \<Rightarrow> Inl ''expected u64''),
     json_amount = (\<lambda>j. case j of JNumber n \<Rightarrow> Inr (nat n) | _ \<Rightarrow> Inl ''expected a number''),
     json_amount_option = (\<lambda>_. Inr None), json_address_option = (\<lambda>_. Inr None)\<rparr>"

definition token_extra :: extra where
  "token_extra = map_of
    [(''token_identity'', JString (to_string mem_ext (PublicKey 2))), (''token_next_subresource'', JNumber 3),
     (''symbol'', JString (to_string mem_ext (Subresource 1 0))), (''symbol_name'', JString ''Token''),
     (''symbol_decimals'', JNumber 9), (''symbol_total'', JNumber 10), (''symbol_circulating'', JNumber 10),
     (''symbol_maximum'', JNull), (''symbol_owner'', JNull)]"

definition old_store :: "(bytes \<times> stored) list" where
  "old_store = [(utf8 IDENTITY_ROOT, SBytes (to_vec (PublicKey 1))), (utf8 ACCOUNT_SUBRESOURCE_ID_ROOT, SBytes (u32_to_be_bytes 5)),
     (utf8 SYMBOLS_ROOT, SSymbols [(Subresource 1 0, ''T'')])]"

lemma from_str_to_string: "addr_laws E \<Longrightarrow> from_str E (to_string E a) = Ok a"
  using inner_from_str_to_string [of E a] by (simp add: from_str_def)

theorem token_migration_identities_witness:
  "\<exists>m' t. token_initialize mem_ext plain_mig_ext token_extra (old_store, old_store) = (Ok (), m') \<and>
     persistent_store t = m' \<and> token_migration_active t \<and> identity_or_root mem_ext ACCOUNT_IDENTITY_ROOT t = Ok (PublicKey 1) \<and>
     identity_or_root mem_ext TOKEN_IDENTITY_ROOT t = Ok (PublicKey 2) \<and>
     get_subresource_counter mem_ext (PublicKey 2) t = Ok 3"
proof -
  let ?s = "ledger_new (old_store, old_store) True"
  let ?mig = "[(TOKEN_MIGRATION, (migration_new (new_initialize (token_initialize mem_ext plain_mig_ext) TOKEN_MIGRATION [])
      (metadata_enabled 1))\<lparr>mig_active := True\<rparr>)]"
  note addr = from_str_to_string [OF merk_laws_addr [OF mem_laws]]
  have p: "param token_extra ''token_identity'' (json_string plain_mig_ext) = Ok (to_string mem_ext (PublicKey 2))"
    "param token_extra ''token_next_subresource'' (json_u32 plain_mig_ext) = Ok 3"
    "param token_extra ''symbol'' (json_string plain_mig_ext) = Ok (to_string mem_ext (Subresource 1 0))"
    "find (\<lambda>p. token_extra p = None) token_params = None"
    by (simp_all add: param_def token_extra_def plain_mig_ext_def token_params_def)
  obtain info where i: "migrated_info plain_mig_ext token_extra (Subresource 1 0) ''T'' = Ok info"
    by (simp add: migrated_info_def param_def token_extra_def plain_mig_ext_def)
  have "\<exists>m1. migrate_account_identity mem_ext (old_store, old_store) = (Ok (), m1)"
    by (simp add: migrate_account_identity_def bnd_def query_def lift_result_def db_get_def db_apply_def mem_apply_def
        old_store_def from_bytes_to_vec [of "PublicKey 1", simplified] put_bytes_def)
  then obtain m1 where m1: "migrate_account_identity mem_ext (old_store, old_store) = (Ok (), m1)"
    by blast
  have sy: "mem_view m1 (utf8 SYMBOLS_ROOT) = Some (SSymbols [(Subresource 1 0, ''T'')])"
    by (rule migrate_account_identity_Ok [OF mem_laws m1]) (simp add: old_store_def)
  have "\<exists>m'. token_initialize mem_ext plain_mig_ext token_extra (old_store, old_store) = (Ok (), m')"
    using sy by (simp add: token_initialize_def m1 migrate_token_def bnd_def query_def lift_result_def
        db_get_def db_apply_def mem_apply_def p addr i put_bytes_def)
  then obtain m' where m: "token_initialize mem_ext plain_mig_ext token_extra (old_store, old_store) = (Ok (), m')"
    by blast
  let ?t = "?s\<lparr>persistent_store := m', migrations := ?mig\<rparr>"
  have st: "token_initialize mem_ext plain_mig_ext token_extra (persistent_store ?s) = (Ok (), persistent_store ?t)"
    using m by (simp add: ledger_new_def)
  have act: "\<not> token_migration_active ?s" "token_migration_active ?t"
    by (simp_all add: ledger_new_def ms_is_active_def migration_is_active_def)
  have "get_identity mem_ext IDENTITY_ROOT ?s = Ok (PublicKey 1)"
    by (simp add: get_identity_def store_get_def db_get_def ledger_new_def old_store_def from_bytes_to_vec [of "PublicKey 1", simplified])
  then have "identity_or_root mem_ext ACCOUNT_IDENTITY_ROOT ?t = Ok (PublicKey 1) \<and>
     identity_or_root mem_ext TOKEN_IDENTITY_ROOT ?t = Ok (PublicKey 2) \<and> get_subresource_counter mem_ext (PublicKey 2) ?t = Ok 3"
    using token_migration_identities [OF mem_laws mem_reliable st act] p addr by auto
  then show ?thesis
    using m act(2) by (intro exI [of _ m'] exI [of _ ?t]) simp
qed

end
