(* ===== verification/Blocks.thy ===== *)
theory Blocks
  imports Ledger_Migrations
begin

text \<open>
  The life of a ledger over blocks: opening a store (\<open>load\<close> and \<open>with_migrations\<close> of
  \<open>src/src/many-ledger/src/storage.rs\<close> and \<open>storage/migrations.rs\<close>), the end of a block (\<open>commit\<close> of
  \<open>storage/abci.rs\<close>) and the ABCI interface of the ledger module (\<open>module/abci.rs\<close>).
\<close>

section \<open>Opening a ledger\<close>

text \<open>The migrations of a configuration at a height; without a configuration there are none.\<close>

definition load_migrations ::
  "('m, 'v) ext \<Rightarrow> mig_ext \<Rightarrow> migration_config option \<Rightarrow> u64 \<Rightarrow> string + ('m, 'v) migration_set" where
  "load_migrations E X config h = (case config of None \<Rightarrow> Inr [] | Some c \<Rightarrow> ms_load (MIGRATIONS E X) c h)"

definition saturating_pred :: "u64 \<Rightarrow> u64" where
  "saturating_pred h = (if h = 0 then 0 else h - 1)"

text \<open>The outcome of \<open>merk::Merk::open\<close> on the path is an argument.\<close>

definition ledger_load ::
  "('m, 'v) ext \<Rightarrow> mig_ext \<Rightarrow> string + 'm \<Rightarrow> bool \<Rightarrow> migration_config option \<Rightarrow> ('m, 'v) ledger_storage result" where
  "ledger_load E X opened is_blockchain migration_config =
    res_bind (from_sum storage_open_failed opened) (\<lambda>store.
    res_bind (db_get E storage_get_failed (utf8 HEIGHT_ROOT) store) (\<lambda>x.
    res_bind (case x of None \<Rightarrow> Ok 0 | Some v \<Rightarrow> read_u64 (val_bytes E v)) (\<lambda>height.
    res_bind (from_sum unable_to_load_migrations (load_migrations E X migration_config height)) (\<lambda>ms.
    Ok \<lparr>persistent_store = store, blockchain = is_blockchain,
      latest_tid = event_id_from_u64 (push_bit HEIGHT_EVENTID_SHIFT (saturating_pred height)),
      current_time = None, current_hash = None, migrations = ms\<rparr>))))"

definition with_migrations ::
  "('m, 'v) ext \<Rightarrow> mig_ext \<Rightarrow> migration_config option \<Rightarrow> ('m, 'v, unit) led" where
  "with_migrations E X migration_config =
    bnd (lift_result (from_sum unknown (load_migrations E X migration_config 0))) (\<lambda>ms.
    modify (\<lambda>s. s\<lparr>migrations := ms\<rparr>))"

section \<open>The end of a block\<close>

record abci_commit_info =
  retain_height :: u64
  commit_hash :: bytes

text \<open>\<open>expect\<close>: an error is a panic.\<close>

definition expect :: "string \<Rightarrow> ('s, 'a) act \<Rightarrow> ('s, 'a) act" where
  "expect msg a s = (case a s of (Err e, t) \<Rightarrow> (Panic msg, t) | r \<Rightarrow> r)"

definition run_migrations :: "u64 \<Rightarrow> ('m, 'v, unit) led" where
  "run_migrations h s =
    (case update_at_height h (migrations s) (persistent_store s) of
       (r, ms, m) \<Rightarrow> (r, s\<lparr>migrations := ms, persistent_store := m\<rparr>))"

definition ledger_commit :: "('m, 'v) ext \<Rightarrow> ('m, 'v, abci_commit_info) led" where
  "ledger_commit E =
    bnd (attempt (check_timed_out_multisig_transactions E)) (\<lambda>_.
    bnd (expect ''Unable to increment height.'' (inc_height E)) (\<lambda>height.
    bnd (expect ''Unable to commit to storage.'' (commit_storage E)) (\<lambda>_.
    bnd (expect ''Unable to run migrations'' (run_migrations (height + 1))) (\<lambda>_.
    bnd (expect ''Unable to commit to storage.'' (commit_storage E)) (\<lambda>_.
    bnd (query (\<lambda>s. Ok (merk_root_hash E (persistent_store s)))) (\<lambda>hash.
    bnd (modify (\<lambda>s. s\<lparr>current_hash := Some hash,
      latest_tid := event_id_from_u64 (push_bit HEIGHT_EVENTID_SHIFT height)\<rparr>)) (\<lambda>_.
    ret \<lparr>retain_height = 0, commit_hash = hash\<rparr>)))))))"

section \<open>The ABCI interface\<close>

record abci_info =
  info_height :: u64
  info_hash :: bytes

text \<open>The endpoints, and which of them are commands.\<close>

definition abci_init :: "(string \<times> bool) list" where
  "abci_init =
    [(''ledger.info'', False), (''ledger.balance'', False), (''ledger.send'', True),
     (''events.info'', False), (''events.list'', False),
     (''idstore.store'', True), (''idstore.getFromRecallPhrase'', False), (''idstore.getFromAddress'', False),
     (''account.create'', True), (''account.setDescription'', True), (''account.listRoles'', False),
     (''account.getRoles'', False), (''account.addRoles'', True), (''account.removeRoles'', True),
     (''account.info'', False), (''account.disable'', True), (''account.addFeatures'', True),
     (''account.multisigSetDefaults'', True), (''account.multisigSubmitTransaction'', True),
     (''account.multisigInfo'', False), (''account.multisigApprove'', True), (''account.multisigRevoke'', True),
     (''account.multisigExecute'', True), (''account.multisigWithdraw'', True),
     (''data.info'', False), (''data.getInfo'', False), (''data.query'', False),
     (''tokens.create'', True), (''tokens.update'', True), (''tokens.info'', False),
     (''tokens.addExtendedInfo'', True), (''tokens.removeExtendedInfo'', True),
     (''tokens.mint'', True), (''tokens.burn'', True)]"

definition begin_block :: "('m, 'v) ext \<Rightarrow> u64 option \<Rightarrow> ('m, 'v, unit) led" where
  "begin_block E time =
    bnd (query (get_height E)) (\<lambda>_.
    case time of None \<Rightarrow> ret () | Some t \<Rightarrow> modify (set_time t))"

definition abci_info_of :: "('m, 'v) ext \<Rightarrow> ('m, 'v) ledger_storage \<Rightarrow> abci_info result" where
  "abci_info_of E s = res_bind (get_height E s) (\<lambda>h. Ok \<lparr>info_height = h, info_hash = ledger_hash E s\<rparr>)"

section \<open>Steps of a commit\<close>

lemma expect_Ok [act_simps]: "expect msg a s = (Ok x, t) \<longleftrightarrow> a s = (Ok x, t)"
  by (auto simp: expect_def split: prod.splits result.splits)

lemma timed_out_batch_step:
  assumes "timed_out_batch E now' (Inr (k, v) # items) acc = Ok batch"
  shows "batch = acc \<or> (\<exists>acc'. timed_out_batch E now' items acc' = Ok batch \<and> (acc' = acc \<or> (\<exists>w. acc' = acc @ [(k, Put w)])))"
proof -
  obtain tx where tx: "dec (multisig_codec E) v = Inr tx"
    using assms by (auto simp: act_simps)
  show ?thesis
  proof (cases "mi_timeout (ms_info tx) \<le> now'")
    case True
    then show ?thesis
      using assms tx by (cases "enc (multisig_codec E) (ms_disable Expired tx)"; cases "ms_disabled tx") auto
  next
    case False
    then obtain t where "as_system_time now' = Ok t"
      using assms tx by (auto simp: act_simps)
    then show ?thesis
      using assms tx False by (auto split: if_splits)
  qed
qed

text \<open>The batch of expired transactions lists keys of the iterator in its order.\<close>

lemma timed_out_batch_keys:
  assumes "timed_out_batch E now' (map Inr es) acc = Ok batch"
  obtains zs where "batch = acc @ zs" "fst ` set zs \<subseteq> fst ` set es" "sorted_wrt (>) (map fst es) \<longrightarrow> sorted_wrt (>) (map fst zs)"
    "\<forall>k. (k, Delete) \<notin> set zs"
proof -
  have "\<exists>zs. batch = acc @ zs \<and> fst ` set zs \<subseteq> fst ` set es \<and> (\<forall>k. (k, Delete) \<notin> set zs) \<and>
      (sorted_wrt (>) (map fst es) \<longrightarrow> sorted_wrt (>) (map fst zs))"
    using assms
  proof (induction es arbitrary: acc)
    case (Cons e es)
    obtain k v where e: "e = (k, v)" by (cases e)
    have "timed_out_batch E now' (Inr (k, v) # map Inr es) acc = Ok batch"
      using Cons.prems e by simp
    then consider "batch = acc" | acc' where "timed_out_batch E now' (map Inr es) acc' = Ok batch" "acc' = acc \<or> (\<exists>w. acc' = acc @ [(k, Put w)])"
      by (rule timed_out_batch_step [THEN disjE]) blast+
    then show ?case
    proof cases
      case 1
      then show ?thesis by (intro exI [of _ "[]"]) simp
    next
      case 2
      obtain zs where zs: "batch = acc' @ zs" "fst ` set zs \<subseteq> fst ` set es" "\<forall>k. (k, Delete) \<notin> set zs"
        "sorted_wrt (>) (map fst es) \<longrightarrow> sorted_wrt (>) (map fst zs)"
        using Cons.IH [OF 2(1)] by blast
      from 2(2) show ?thesis
      proof
        assume "acc' = acc"
        then show ?thesis
          using zs e by (intro exI [of _ zs]) auto
      next
        assume "\<exists>w. acc' = acc @ [(k, Put w)]"
        then obtain w where "acc' = acc @ [(k, Put w)]" by blast
        then have "batch = acc @ (k, Put w) # zs"
          using zs(1) by simp
        moreover have "sorted_wrt (>) (map fst ((k, Put w) # zs))" if "sorted_wrt (>) (map fst (e # es))"
          using that zs(2,4) e by (simp add: image_subset_iff) (metis imageE)
        moreover have "fst ` set ((k, Put w) # zs) \<subseteq> fst ` set (e # es)" "\<forall>j. (j, Delete) \<notin> set ((k, Put w) # zs)"
          using zs(2,3) e by auto
        ultimately show ?thesis
          by blast
      qed
    qed
  qed simp
  then show thesis
    using that by blast
qed

text \<open>Whatever the check for expired transactions returns, it touches multisig entries only.\<close>

lemma check_timed_out_frame:
  assumes "merk_laws E V C" "merk_reliable E V C" "attempt (check_timed_out_multisig_transactions E) s = (Ok x, t)"
  shows "ctx t = ctx s" "latest_tid t = latest_tid s" "\<not> in_iter_range multisig_range k \<Longrightarrow> sv V t k = sv V s k"
proof -
  obtain es where it: "iter_multisig E Descending s = map Inr (rev es)" and so: "keys_sorted es"
    and es: "\<And>k. map_of es k = (if in_iter_range multisig_range k then sv C s k else None)"
    using assms(2) unfolding merk_reliable_def iter_multisig_def all_multisig_def order_mode_def by (simp, meson)
  have "ctx t = ctx s \<and> latest_tid t = latest_tid s \<and> (\<forall>k. \<not> in_iter_range multisig_range k \<longrightarrow> sv V t k = sv V s k)"
  proof (cases "timed_out_batch E (now E s) (map Inr (rev es)) []")
    case (Ok batch)
    obtain zs where zs: "batch = [] @ zs" "fst ` set zs \<subseteq> fst ` set (rev es)" "sorted_wrt (>) (map fst (rev es)) \<longrightarrow> sorted_wrt (>) (map fst zs)"
      "\<forall>k. (k, Delete) \<notin> set zs"
      by (rule timed_out_batch_keys [OF Ok])
    have kb: "keys_sorted (rev zs)"
      using zs(3) so by (simp add: sorted_wrt_rev flip: rev_map)
    obtain s1 where s1: "(if batch \<noteq> [] then store_apply E storage_apply_failed (rev batch) else ret ()) s = (Ok (), s1)"
      and f: "sv V s1 = apply_ops (sv V s) (rev zs)" "ctx s1 = ctx s" "latest_tid s1 = latest_tid s"
    proof (cases "zs = []")
      case True
      then show ?thesis
        using that [of s] zs(1) by (simp add: ret_def)
    next
      case False
      obtain s1 where a: "store_apply E storage_apply_failed (rev zs) s = (Ok (), s1)"
        by (rule store_apply_reliable [OF assms(2) kb]) (use zs(4) in auto)
      show ?thesis
        using that [of s1] False a zs(1) store_apply_Ok [OF assms(1) a] by simp
    qed
    obtain t' where t': "maybe_commit E s1 = (Ok (), t')"
      by (rule maybe_commit_reliable [OF assms(2)])
    have "t = t'"
      using assms(3) Ok s1 t' it by (simp add: attempt_def check_timed_out_multisig_transactions_def bnd_def query_def)
    moreover have "sv V t' k = sv V s k" if "\<not> in_iter_range multisig_range k" for k
    proof -
      have "k \<notin> fst ` set zs"
        using zs(2) es [of k] that by (auto simp: map_of_eq_None_iff)
      then show ?thesis
        using maybe_commit_Ok(1) [OF assms(1) t'] f(1) apply_ops_at [OF keys_sorted_distinct [OF kb]]
        by (simp add: map_of_eq_None_iff [THEN iffD2])
    qed
    ultimately show ?thesis
      using f maybe_commit_Ok [OF assms(1) t'] by simp
  qed (use assms(3) it in \<open>simp_all add: attempt_def check_timed_out_multisig_transactions_def bnd_def query_def\<close>)
  then show "ctx t = ctx s" "latest_tid t = latest_tid s" "\<not> in_iter_range multisig_range k \<Longrightarrow> sv V t k = sv V s k"
    by blast+
qed

abbreviation height_at :: "('m, 'v) ext \<Rightarrow> ('m \<Rightarrow> bytes \<Rightarrow> 'v option) \<Rightarrow> ('m, 'v) ledger_storage \<Rightarrow> u64" where
  "height_at E V s \<equiv> u64_at E (utf8 HEIGHT_ROOT) (sv V s)"

text \<open>A successful commit, step by step.\<close>

lemma ledger_commit_Ok:
  assumes "merk_laws E V C" "merk_reliable E V C" "ledger_commit E s = (Ok info, t)"
  obtains m m' where
    "\<And>k. \<not> in_iter_range multisig_range k \<Longrightarrow> k \<noteq> utf8 HEIGHT_ROOT \<Longrightarrow> V m k = sv V s k"
    "V m (utf8 HEIGHT_ROOT) = Some (val_of_bytes E (u64_to_be_bytes (height_at E V s + 1)))" "C m = V m"
    "update_at_height (height_at E V s + 1) (migrations s) m = (Ok (), migrations t, m')"
    "sv V t = V m'" "sv C t = V m'" "latest_tid t = event_id_from_u64 (push_bit HEIGHT_EVENTID_SHIFT (height_at E V s))"
    "blockchain t = blockchain s" "current_time t = current_time s" "current_hash t = Some (commit_hash info)"
proof -
  obtain x s1 h s2 s3 s4 s5 where a: "attempt (check_timed_out_multisig_transactions E) s = (Ok x, s1)"
    and b: "inc_height E s1 = (Ok h, s2)" and c: "commit_storage E s2 = (Ok (), s3)"
    and d: "run_migrations (h + 1) s3 = (Ok (), s4)" and e: "commit_storage E s4 = (Ok (), s5)"
    and t: "t = s5\<lparr>current_hash := Some (commit_hash info), latest_tid := event_id_from_u64 (push_bit HEIGHT_EVENTID_SHIFT h)\<rparr>"
    using assms(3) by (auto simp: ledger_commit_def act_simps)
  note fr = check_timed_out_frame [OF assms(1,2) a]
  obtain h' where g: "get_height E s1 = Ok h" and ap: "store_apply E storage_apply_failed
      [(utf8 HEIGHT_ROOT, put_bytes E (u64_to_be_bytes (h + 1)))] s1 = (Ok h', s2)"
    using b by (auto simp: inc_height_def act_simps)
  have h: "h = height_at E V s"
    using get_height_Ok [OF assms(1) g] fr(3) [OF ranges(6)] by (simp add: u64_at_def)
  note ap = store_apply_Ok [OF assms(1) ap] and c = commit_storage_Ok [OF assms(1) c] and e = commit_storage_Ok [OF assms(1) e]
  have ctx3: "ctx s3 = ctx s"
    using c(3) ap(4) fr(1) by simp
  obtain ms m' where u: "update_at_height (h + 1) (migrations s3) (persistent_store s3) = (Ok (), ms, m')"
    and s4: "s4 = s3\<lparr>migrations := ms, persistent_store := m'\<rparr>"
    using d by (auto simp: run_migrations_def split: prod.splits)
  have c5: "blockchain s5 = blockchain s" "current_time s5 = current_time s" "migrations s5 = ms"
    using ctx_eqD [OF e(3)] ctx_eqD [OF ctx3] s4 by simp_all
  show thesis
  proof (rule that [of "persistent_store s3" m'])
    show "sv V s3 k = sv V s k" if "\<not> in_iter_range multisig_range k" "k \<noteq> utf8 HEIGHT_ROOT" for k
      using that fr(3) ap(2) c(1) by (simp add: put_bytes_def)
    show "sv V s3 (utf8 HEIGHT_ROOT) = Some (val_of_bytes E (u64_to_be_bytes (height_at E V s + 1)))"
      using ap(2) c(1) h by (simp add: put_bytes_def)
    show "sv C s3 = sv V s3"
      using c(1,2) by simp
    show "update_at_height (height_at E V s + 1) (migrations s) (persistent_store s3) = (Ok (), migrations t, m')"
      using u h ctx_eqD(4) [OF ctx3] t c5(3) by simp
    show "sv V t = V m'" "sv C t = V m'"
      using e(1,2) t s4 by simp_all
  qed (use t h c5 in simp_all)
qed

section \<open>Restarts\<close>

lemma load_configs_registry:
  assumes "load_configs (registry_map reg) cs s = Inr s'" "\<forall>e\<in>set s. mig_inner (snd e) \<in> set reg"
  shows "\<forall>e\<in>set s'. mig_inner (snd e) \<in> set reg"
  using assms
proof (induction cs arbitrary: s)
  case (Cons c cs)
  obtain i where i: "map_of (registry_map reg) (smc_name c) = Some i"
    and l: "load_configs (registry_map reg) cs (bt_insert (smc_name c) (migration_new i (smc_metadata c)) s) = Inr s'"
    using Cons.prems(1) by (auto split: option.splits)
  have ins: "set (bt_insert k x m) \<subseteq> insert (k, x) (set m)" for k :: string and x :: "('a, 'b) inner_migration" and m
    by (auto simp: bt_insert_def)
  have reg: "e \<in> set m \<or> snd e \<in> set xs" if "e \<in> set (foldl (\<lambda>m i. bt_insert (im_name i) i m) m xs)"
    for e m and xs :: "('a, 'b) inner_migration list"
    using that
  proof (induction xs arbitrary: m)
    case (Cons x xs)
    then have "e \<in> set (bt_insert (im_name x) x m) \<or> snd e \<in> set xs"
      by (intro Cons.IH) simp
    then show ?case
      using ins [of "im_name x" x m] by auto
  qed simp
  have "i \<in> set reg"
    using reg [of _ "[]" reg] map_of_SomeD [OF i] by (auto simp: registry_map_def)
  then have "\<forall>e\<in>set (bt_insert (smc_name c) (migration_new i (smc_metadata c)) s). mig_inner (snd e) \<in> set reg"
    using Cons.prems(2) by (auto simp: bt_insert_def migration_new_def)
  then show ?case
    by (rule Cons.IH [OF l])
qed simp

lemma effects_height:
  assumes "merk_laws E V C" "\<forall>e\<in>set s. mig_inner (snd e) \<in> set (MIGRATIONS E X)" "effects_at h s m = (Ok u, m')"
  shows "V m' (utf8 HEIGHT_ROOT) = V m (utf8 HEIGHT_ROOT)"
  using assms(2,3)
proof (induction s arbitrary: m)
  case (Cons e s)
  obtain m1 where a: "effect_at (snd e) h m = (Ok (), m1)" and b: "effects_at h s m1 = (Ok u, m')"
    using Cons.prems(2) by (auto simp: act_simps)
  have "mig_inner (snd e) \<in> set (MIGRATIONS E X)"
    using Cons.prems(1) by simp
  then have "V m1 (utf8 HEIGHT_ROOT) = V m (utf8 HEIGHT_ROOT)"
    using a registry_height [OF assms(1), of "mig_inner (snd e)" X "md_extra (mig_metadata (snd e))" m "()" m1]
    by (auto simp: effect_at_def ret_def split: if_splits)
  then show ?case
    using Cons.IH [OF _ b] Cons.prems(1) by simp
qed (simp add: ret_def)

text \<open>C31: A restart after a block is transparent: a store reopened with what a commit left on disk loads,
  with the same configuration, as a ledger with the height, the migrations and the next event
  identifier of the ledger that went on running.\<close>

theorem restart_after_commit:
  assumes "merk_laws E V C" "merk_reliable E V C" "ledger_commit E s = (Ok info, t)"
    and "load_migrations E X config (height_at E V s) = Inr (migrations s)" "unat (height_at E V s) + 1 < 2 ^ 64"
    and "V reopened = sv C t"
  shows "\<exists>r. ledger_load E X (Inr reopened) (blockchain t) config = Ok r \<and> sv V r = sv V t \<and> migrations r = migrations t \<and>
    latest_tid r = latest_tid t \<and> blockchain r = blockchain t \<and> get_height E r = Ok (height_at E V s + 1)"
proof -
  let ?h = "height_at E V s"
  obtain m m' where hm: "V m (utf8 HEIGHT_ROOT) = Some (val_of_bytes E (u64_to_be_bytes (?h + 1)))"
    and u: "update_at_height (?h + 1) (migrations s) m = (Ok (), migrations t, m')"
    and t: "sv V t = V m'" "sv C t = V m'" "latest_tid t = event_id_from_u64 (push_bit HEIGHT_EVENTID_SHIFT ?h)"
    by (rule ledger_commit_Ok [OF assms(1-3)]) (rule that)
  have lt: "?h < ?h + 1"
    by (rule no_wrap(1) [of _ 0]) (use assms(5) in simp)
  have pred: "saturating_pred (?h + 1) = ?h"
    using lt by (auto simp: saturating_pred_def)
  have "V m' (utf8 HEIGHT_ROOT) = V m (utf8 HEIGHT_ROOT) \<and> load_migrations E X config (?h + 1) = Inr (migrations t)"
  proof (cases config)
    case None
    then show ?thesis
      using assms(4) u by (simp add: load_migrations_def)
  next
    case (Some c)
    obtain s0 where s0: "load_configs (registry_map (MIGRATIONS E X)) (mc_migrations c) [] = Inr s0"
      "\<not> (is_strict c \<and> missing_migrations (registry_map (MIGRATIONS E X)) s0 \<noteq> [])" "migrations s = set_at ?h s0"
      using assms(4) Some by (auto simp: load_migrations_def ms_load_eq)
    note ef = update_at_height_effects [OF lt, of s0 m]
    have "effects_at (?h + 1) s0 m = (Ok (), m')" "migrations t = set_at (?h + 1) s0"
      using ef u s0(3) by (auto simp: prod_eq_iff)
    then show ?thesis
      using effects_height [OF assms(1) load_configs_registry [OF s0(1)]] s0 Some by (auto simp: load_migrations_def ms_load_eq)
  qed
  then have "V reopened (utf8 HEIGHT_ROOT) = Some (val_of_bytes E (u64_to_be_bytes (?h + 1)))"
    "load_migrations E X config (?h + 1) = Inr (migrations t)"
    using hm t(2) assms(6) by simp_all
  then show ?thesis
    using t pred assms(6) by (simp add: ledger_load_def db_get_reliable [OF assms(2)] merk_laws_val [OF assms(1)]
        get_height_def store_get_reliable [OF assms(2)])
qed

section \<open>Event identifiers over blocks\<close>

lemma registry_update: "i \<in> set (MIGRATIONS E X) \<Longrightarrow> inner_update i x m = (Ok (), m)"
  by (auto simp: MIGRATIONS_def new_hotfix_def new_initialize_def new_trigger_def inner_update_def ret_def)

text \<open>No migration starts at a height.\<close>

definition quiet_at :: "u64 \<Rightarrow> ('m, 'v) migration_set \<Rightarrow> bool" where
  "quiet_at h s \<longleftrightarrow> (\<forall>e\<in>set s. mig_enabled (snd e) \<longrightarrow> md_block_height (mig_metadata (snd e)) \<noteq> h)"

lemma effects_quiet:
  assumes "\<forall>e\<in>set s. mig_inner (snd e) \<in> set (MIGRATIONS E X)" "quiet_at h s"
  shows "effects_at h s m = (Ok (), m)"
  using assms by (induction s) (auto simp: quiet_at_def effect_at_def registry_update ret_def bnd_def)

lemma quiet_set_at [simp]: "quiet_at h (set_at h' s) = quiet_at h s"
  by (simp add: quiet_at_def at_height_def)

text \<open>A commit at which no migration starts changes the height and multisig entries only.\<close>

lemma quiet_commit:
  assumes "merk_laws E V C" "merk_reliable E V C" "ledger_commit E s = (Ok info, t)"
    and "load_migrations E X config (height_at E V s) = Inr (migrations s)" "unat (height_at E V s) + 1 < 2 ^ 64"
    and "quiet_at (height_at E V s + 1) (migrations s)"
  shows "\<not> in_iter_range multisig_range k \<Longrightarrow> k \<noteq> utf8 HEIGHT_ROOT \<Longrightarrow> sv V t k = sv V s k"
    and "height_at E V t = height_at E V s + 1"
    and "latest_tid t = event_id_from_u64 (push_bit HEIGHT_EVENTID_SHIFT (height_at E V s))"
proof -
  let ?h = "height_at E V s"
  obtain m m' where fr: "\<And>k. \<not> in_iter_range multisig_range k \<Longrightarrow> k \<noteq> utf8 HEIGHT_ROOT \<Longrightarrow> V m k = sv V s k"
    and hm: "V m (utf8 HEIGHT_ROOT) = Some (val_of_bytes E (u64_to_be_bytes (?h + 1)))"
    and u: "update_at_height (?h + 1) (migrations s) m = (Ok (), migrations t, m')"
    and t: "sv V t = V m'" "latest_tid t = event_id_from_u64 (push_bit HEIGHT_EVENTID_SHIFT ?h)"
    by (rule ledger_commit_Ok [OF assms(1-3)]) (rule that)
  have "m' = m"
  proof (cases config)
    case None
    then show ?thesis
      using assms(4) u by (simp add: load_migrations_def)
  next
    case (Some c)
    obtain s0 where s0: "load_configs (registry_map (MIGRATIONS E X)) (mc_migrations c) [] = Inr s0" "migrations s = set_at ?h s0"
      using assms(4) Some by (auto simp: load_migrations_def ms_load_eq)
    have lt: "?h < ?h + 1"
      by (rule no_wrap(1) [of _ 0]) (use assms(5) in simp)
    show ?thesis
      using update_at_height_effects [OF lt, of s0 m] u s0(2) assms(6)
        effects_quiet [OF load_configs_registry [OF s0(1)], of "?h + 1" m] by simp
  qed
  then have V: "sv V t = V m"
    using t(1) by simp
  show "\<not> in_iter_range multisig_range k \<Longrightarrow> k \<noteq> utf8 HEIGHT_ROOT \<Longrightarrow> sv V t k = sv V s k"
    using fr V by simp
  show "height_at E V t = ?h + 1" "latest_tid t = event_id_from_u64 (push_bit HEIGHT_EVENTID_SHIFT ?h)"
    using hm V t(2) by (simp_all add: u64_at_def merk_laws_val [OF assms(1)])
qed

text \<open>Event identifiers restart at every block from the number of the previous block. After the first
  block, as long as a block has fewer than two to the 32 events, the identifiers given out after a
  commit are larger than all that are in use.\<close>

theorem commit_keeps_events_below:
  assumes "merk_laws E V C" "merk_reliable E V C" "ledger_commit E s = (Ok info, t)"
    and "load_migrations E X config (height_at E V s) = Inr (migrations s)" "quiet_at (height_at E V s + 1) (migrations s)"
    and "events_below V s" "nat_be (latest_tid s) \<le> unat (height_at E V s) * 2 ^ 32" "unat (height_at E V s) < 2 ^ 32"
  shows "events_below V t \<and> nat_be (latest_tid t) = unat (height_at E V s) * 2 ^ 32 \<and> height_at E V t = height_at E V s + 1"
proof -
  let ?h = "height_at E V s"
  have "unat ?h + 1 < 2 ^ 64"
    using assms(8) by simp
  note q = quiet_commit [OF assms(1-4) this assms(5)]
  have "unat (push_bit 32 ?h) = unat ?h * 2 ^ 32"
    using assms(8) by (simp add: push_bit_eq_mult unat_word_ariths)
  then have tid: "nat_be (latest_tid t) = unat ?h * 2 ^ 32"
    using q(3) by (simp add: event_id_from_u64_def HEIGHT_EVENTID_SHIFT_def nat_be_u64)
  have "sv V t (key_for_event i) = sv V s (key_for_event i)" for i
    using q(1) ranges(4) by simp
  then have "events_below V t"
    using assms(6,7) tid unfolding events_below_def by fastforce
  then show ?thesis
    using tid q(2) by simp
qed

text \<open>C32: The first two blocks share their event identifiers: the first event of the second block
  replaces the first event of the first block, although both are counted.\<close>

theorem second_block_overwrites_events:
  assumes "merk_laws E V C" "merk_reliable E V C" "codec_ok (event_codec E)"
    and "height_at E V s = 0" "nat_be (latest_tid s) = 0"
    and "log_event E a s = (Ok (), s1)" "ledger_commit E s1 = (Ok info, s2)" "log_event E b s2 = (Ok (), s3)"
    and "load_migrations E X config 0 = Inr (migrations s)" "quiet_at 1 (migrations s)"
  shows "latest_tid s3 = latest_tid s1 \<and> sv V s1 (key_for_event (latest_tid s1)) \<noteq> None \<and>
    (\<exists>v. sv V s3 (key_for_event (latest_tid s1)) = Some v \<and>
      dec (event_codec E) v = Inr \<lparr>el_id = latest_tid s1, el_time = now E s2, el_content = b\<rparr>) \<and>
    u64_at E EVENT_COUNT_ROOT (sv V s3) = u64_at E EVENT_COUNT_ROOT (sv V s) + 2"
proof -
  obtain v where t1: "sv V s1 = (sv V s)(key_for_event (next_id E s) := Some v,
       EVENT_COUNT_ROOT := Some (val_of_bytes E (u64_to_be_bytes (u64_at E EVENT_COUNT_ROOT (sv V s) + 1))))"
    and l1: "latest_tid s1 = next_id E s" "ctx s1 = ctx s"
    using log_event_Ok [OF assms(1,6)] by metis
  have h1: "height_at E V s1 = 0"
    using assms(4) by (simp add: t1 u64_at_def)
  note q = quiet_commit [OF assms(1,2,7), of X config, unfolded h1 ctx_eqD(4) [OF l1(2)], simplified, OF assms(9,10)]
  obtain w where w: "enc (event_codec E) \<lparr>el_id = next_id E s2, el_time = now E s2, el_content = b\<rparr> = Inr w"
    and t3: "sv V s3 = (sv V s2)(key_for_event (next_id E s2) := Some w,
       EVENT_COUNT_ROOT := Some (val_of_bytes E (u64_to_be_bytes (u64_at E EVENT_COUNT_ROOT (sv V s2) + 1))))"
    and l3: "latest_tid s3 = next_id E s2"
    using log_event_Ok [OF assms(1,8)] by metis
  have "nat_be (latest_tid s2) = 0"
    using q(3) by (simp add: event_id_from_u64_def nat_be_u64)
  then have same: "next_id E s2 = next_id E s"
    using merk_laws_num [OF assms(1)] assms(5) by (simp add: event_id_add_def num_laws_def)
  have "\<not> in_iter_range multisig_range EVENT_COUNT_ROOT"
    by (simp add: in_iter_range.simps MULTISIG_TRANSACTIONS_ROOT_def EVENT_COUNT_ROOT_def utf8_def)
  then have "u64_at E EVENT_COUNT_ROOT (sv V s2) = u64_at E EVENT_COUNT_ROOT (sv V s) + 1"
    using q(1) [of EVENT_COUNT_ROOT] by (simp add: u64_at_def t1 merk_laws_val [OF assms(1)])
  then have "u64_at E EVENT_COUNT_ROOT (sv V s3) = u64_at E EVENT_COUNT_ROOT (sv V s) + 2"
    by (simp add: t3 u64_at_def merk_laws_val [OF assms(1)])
  then show ?thesis
    using l1 l3 same codec_okD [OF assms(3) w] by (simp add: t1 t3)
qed

section \<open>A concrete chain\<close>

lemma empty_ledger_height: "height_at mem_ext mem_view empty_ledger = 0" "migrations empty_ledger = []" "nat_be (latest_tid empty_ledger) = 0"
  by (simp_all add: empty_ledger_def ledger_new_def u64_at_def nat_be_Cons)

lemma no_config: "load_migrations E X None h = Inr []" "quiet_at h []"
  by (simp_all add: load_migrations_def quiet_at_def)

lemma empty_log:
  obtains t where "log_event mem_ext a empty_ledger = (Ok (), t)" "fst (persistent_store t) = []" "migrations t = []"
    "map_of (snd (persistent_store t)) (utf8 HEIGHT_ROOT) = None"
proof -
  have "\<exists>t. log_event mem_ext a empty_ledger = (Ok (), t) \<and> fst (persistent_store t) = [] \<and> migrations t = [] \<and>
      map_of (snd (persistent_store t)) (utf8 HEIGHT_ROOT) = None"
    by (simp add: log_event_def nb_events_def new_event_id_def bnd_def query_def lift_result_def modify_def ret_def
        store_get_def db_get_def store_apply_def with_store_def db_apply_def mem_apply_def maybe_commit_def now_def
        empty_ledger_def ledger_new_def put_bytes_def map_of_bt_insert Let_def)
  then show thesis
    using that by blast
qed

lemma mem_commit:
  assumes "fst (persistent_store s) = []" "migrations s = []" "map_of (snd (persistent_store s)) (utf8 HEIGHT_ROOT) = None"
  obtains info t where "ledger_commit mem_ext s = (Ok info, t)"
proof -
  have it: "iter_multisig mem_ext Descending s = []"
    using assms(1) by (simp add: iter_multisig_def all_multisig_def order_mode_def mem_iter_def bt_of_def)
  have "\<exists>info t. ledger_commit mem_ext s = (Ok info, t)"
    using assms(2,3) by (cases "blockchain s") (simp_all add: ledger_commit_def attempt_def check_timed_out_multisig_transactions_def it
        bnd_def query_def ret_def modify_def maybe_commit_def expect_def inc_height_def get_height_def
        commit_storage_def db_commit_def store_get_def db_get_def store_apply_def with_store_def db_apply_def mem_apply_def
        put_bytes_def run_migrations_def)
  then show thesis
    using that by blast
qed

theorem restart_after_commit_witness:
  "\<exists>info t r. ledger_commit mem_ext empty_ledger = (Ok info, t) \<and>
     ledger_load mem_ext plain_mig_ext (Inr (fst (persistent_store t), fst (persistent_store t))) True None = Ok r \<and>
     latest_tid r = latest_tid t \<and> get_height mem_ext r = Ok 1"
proof -
  obtain info t where c: "ledger_commit mem_ext empty_ledger = (Ok info, t)"
    by (rule mem_commit [of empty_ledger]) (simp_all add: empty_ledger_def ledger_new_def)
  have l: "load_migrations mem_ext plain_mig_ext None (height_at mem_ext mem_view empty_ledger) = Inr (migrations empty_ledger)"
    by (simp add: no_config empty_ledger_height)
  have b: "blockchain t = True"
    by (rule ledger_commit_Ok [OF mem_laws mem_reliable c]) (simp add: empty_ledger_def ledger_new_def)
  show ?thesis
    using restart_after_commit [OF mem_laws mem_reliable c l, of "(fst (persistent_store t), fst (persistent_store t))"] c b
    by (auto simp: empty_ledger_height)
qed

theorem second_block_overwrites_events_witness:
  "\<exists>s1 info s2 s3. log_event mem_ext (EvAccountDisable Anonymous) empty_ledger = (Ok (), s1) \<and>
     ledger_commit mem_ext s1 = (Ok info, s2) \<and> log_event mem_ext (EvAccountDisable (PublicKey 1)) s2 = (Ok (), s3) \<and>
     latest_tid s3 = latest_tid s1"
proof -
  obtain s1 where a: "log_event mem_ext (EvAccountDisable Anonymous) empty_ledger = (Ok (), s1)"
    and s1: "fst (persistent_store s1) = []" "migrations s1 = []" "map_of (snd (persistent_store s1)) (utf8 HEIGHT_ROOT) = None"
    by (rule empty_log)
  obtain info s2 where c: "ledger_commit mem_ext s1 = (Ok info, s2)"
    by (rule mem_commit [OF s1])
  have "\<not> in_iter_range multisig_range EVENT_COUNT_ROOT"
    by (simp add: in_iter_range.simps MULTISIG_TRANSACTIONS_ROOT_def EVENT_COUNT_ROOT_def utf8_def)
  then have "sv mem_view s2 EVENT_COUNT_ROOT = sv mem_view s1 EVENT_COUNT_ROOT"
    using quiet_commit(1) [OF mem_laws mem_reliable c, of plain_mig_ext None EVENT_COUNT_ROOT] s1 by (simp add: no_config u64_at_def)
  moreover have "u64_slot mem_ext EVENT_COUNT_ROOT (sv mem_view s1)"
    by (rule log_event_Ok [OF mem_laws a]) (simp add: u64_slot_def)
  ultimately have "u64_slot mem_ext EVENT_COUNT_ROOT (sv mem_view s2)"
    by (simp add: u64_slot_def)
  from this obtain s3 where b: "log_event mem_ext (EvAccountDisable (PublicKey 1)) s2 = (Ok (), s3)"
    by (rule log_event_reliable [OF mem_reliable mem_codecs_total(5)]) (rule that)
  show ?thesis
    using second_block_overwrites_events [OF mem_laws mem_reliable mem_codecs_ok(5) empty_ledger_height(1,3) a c b, of plain_mig_ext None] a b c
    by (auto simp: no_config empty_ledger_height)
qed

theorem commit_keeps_events_below_witness:
  "\<exists>info t. ledger_commit mem_ext empty_ledger = (Ok info, t) \<and> events_below mem_view empty_ledger \<and>
     events_below mem_view t \<and> height_at mem_ext mem_view t = 1"
proof -
  obtain info t where c: "ledger_commit mem_ext empty_ledger = (Ok info, t)"
    by (rule mem_commit [of empty_ledger]) (simp_all add: empty_ledger_def ledger_new_def)
  have l: "load_migrations mem_ext plain_mig_ext None (height_at mem_ext mem_view empty_ledger) = Inr (migrations empty_ledger)"
    by (simp add: no_config empty_ledger_height)
  have e: "events_below mem_view empty_ledger"
    by (simp add: events_below_def empty_ledger_def ledger_new_def)
  show ?thesis
    using commit_keeps_events_below [OF mem_laws mem_reliable c l _ e] c e by (simp add: empty_ledger_height no_config)
qed

end
