(* ===== verification/Ledger_Module.thy ===== *)
theory Ledger_Module
  imports Token_Supply Blocks
begin

text \<open>
  The endpoints of the ledger, \<open>src/src/many-ledger/src/module/*.rs\<close>: who may call what, in front of the
  operations of the storage. The endpoints of multisig transactions hand their arguments to the storage
  and have no definitions of their own.
\<close>

section \<open>Transfers\<close>

text \<open>\<open>Result::or_else\<close>.\<close>

definition or_else :: "'a result \<Rightarrow> (many_error \<Rightarrow> 'a result) \<Rightarrow> 'a result" where
  "or_else r f = (case r of Ok x \<Rightarrow> Ok x | Err e \<Rightarrow> f e | Panic p \<Rightarrow> Panic p)"

definition module_send :: "('m, 'v) ext \<Rightarrow> address \<Rightarrow> send_args \<Rightarrow> ('m, 'v, unit) led" where
  "module_send E sender args =
    (let sfrom = (case sa_from args of Some a \<Rightarrow> a | None \<Rightarrow> sender) in
     bnd (fail_if (is_illegal sfrom) unauthorized) (\<lambda>_.
     bnd (if sfrom \<noteq> sender then
            bnd (query (\<lambda>s. map_err (\<lambda>_. unauthorized) (get_account E sfrom s))) (\<lambda>(account, _).
            lift_result (verify_account_role account sender AccountLedger_ID [CanLedgerTransact]))
          else ret ()) (\<lambda>_.
     bnd (send E sfrom (sa_to args) (sa_symbol args) (sa_amount args) (sa_memo args)) (\<lambda>_. ret ()))))"

section \<open>Tokens\<close>

definition check_ticker_length :: "string \<Rightarrow> unit result" where
  "check_ticker_length ticker =
    fails_if (\<not> (3 \<le> length ticker \<and> length ticker \<le> 5)) (invalid_ticker_length ticker)"

abbreviation migration_active :: "('m, 'v) ledger_storage \<Rightarrow> string \<Rightarrow> bool" where
  "migration_active s name \<equiv> ms_is_active (migrations s) name"

abbreviation minting_identity :: "('m, 'v) ext \<Rightarrow> ('m, 'v) ledger_storage \<Rightarrow> address result" where
  "minting_identity E s \<equiv> or_else (get_identity E TOKEN_IDENTITY_ROOT s) (\<lambda>_. get_identity E IDENTITY_ROOT s)"

text \<open>The guards of the token endpoints only read the storage.\<close>

definition token_create_allowed ::
  "('m, 'v) ext \<Rightarrow> address \<Rightarrow> token_create_args \<Rightarrow> ('m, 'v) ledger_storage \<Rightarrow> unit result" where
  "token_create_allowed E sender args s =
    res_bind (fails_if (\<not> token_migration_active s) (invalid_method_name ''tokens.create'')) (\<lambda>_.
    res_bind (fails_if (migration_active s DISABLE_TOKEN_CREATE_MIGRATION)
      (unknown ''Token creation is disabled on this network'')) (\<lambda>_.
    res_bind (if \<not> migration_active s TOKEN_CREATE_MIGRATION
              then res_bind (minting_identity E s) (verify_tokens_sender sender) else Ok ()) (\<lambda>_.
    res_bind (case tca_owner args of
        Some (Inl addr) \<Rightarrow> res_bind (verify_acl E sender addr [CanTokensCreate] TokenAccountLedger_ID s) (\<lambda>_. Ok ())
      | _ \<Rightarrow> Ok ()) (\<lambda>_.
    let ticker = tis_ticker (tca_summary args) in
    res_bind (check_ticker_length ticker) (\<lambda>_.
    res_bind (get_symbols_and_tickers E s) (\<lambda>m.
    fails_if (ticker \<in> snd ` set m) (unknown (''The ticker '' @ ticker @ '' already exists on this network''))))))))"

definition module_token_create :: "('m, 'v) ext \<Rightarrow> address \<Rightarrow> token_create_args \<Rightarrow> ('m, 'v, token_info) led" where
  "module_token_create E sender args =
    bnd (query (token_create_allowed E sender args)) (\<lambda>_.
    bnd (create_token E sender args) (\<lambda>(result, _). ret result))"

definition module_token_info ::
  "('m, 'v) ext \<Rightarrow> token_info_args \<Rightarrow> ('m, 'v) ledger_storage \<Rightarrow> (token_info \<times> token_extended_info) result" where
  "module_token_info E args s =
    res_bind (fails_if (\<not> token_migration_active s) (invalid_method_name ''tokens.info'')) (\<lambda>_.
    res_bind (get_symbols E s) (\<lambda>symbols.
    res_bind (fails_if (tia_symbol args \<notin> set symbols)
      (unknown (''The symbol '' @ to_string E (tia_symbol args) @ '' was not found''))) (\<lambda>_.
    info_token E args s)))"

text \<open>The guard that the update and the two endpoints for extended information share.\<close>

definition owner_allows ::
  "('m, 'v) ext \<Rightarrow> string \<Rightarrow> role \<Rightarrow> address \<Rightarrow> symbol \<Rightarrow> ('m, 'v) ledger_storage \<Rightarrow> unit result" where
  "owner_allows E endpoint role sender symbol s =
    res_bind (fails_if (\<not> token_migration_active s) (invalid_method_name endpoint)) (\<lambda>_.
    res_bind (get_owner E symbol s) (\<lambda>(current_owner, _).
    case current_owner of
      Some addr \<Rightarrow> res_bind (verify_acl E sender addr [role] TokenAccountLedger_ID s) (\<lambda>_. Ok ())
    | None \<Rightarrow> Err (unknown ''Unable to update, this token is immutable'')))"

definition module_token_update :: "('m, 'v) ext \<Rightarrow> address \<Rightarrow> token_update_args \<Rightarrow> ('m, 'v, unit) led" where
  "module_token_update E sender args =
    bnd (query (owner_allows E ''tokens.update'' CanTokensUpdate sender (tua_symbol args))) (\<lambda>_.
    bnd (query (get_symbols E)) (\<lambda>symbols.
    bnd (fail_if (tua_symbol args \<notin> set symbols)
      (unknown (''The symbol '' @ to_string E (tua_symbol args) @ '' was not found''))) (\<lambda>_.
    bnd (lift_result (case tua_ticker args of Some ticker \<Rightarrow> check_ticker_length ticker | None \<Rightarrow> Ok ())) (\<lambda>_.
    bnd (update_token E sender args) (\<lambda>_. ret ())))))"

definition module_add_extended_info ::
  "('m, 'v) ext \<Rightarrow> address \<Rightarrow> token_add_extended_info_args \<Rightarrow> ('m, 'v, unit) led" where
  "module_add_extended_info E sender args =
    bnd (query (owner_allows E ''tokens.addExtendedInfo'' CanTokensAddExtendedInfo sender (taei_symbol args))) (\<lambda>_.
    bnd (add_extended_info E args) (\<lambda>_. ret ()))"

definition module_remove_extended_info ::
  "('m, 'v) ext \<Rightarrow> address \<Rightarrow> token_remove_extended_info_args \<Rightarrow> ('m, 'v, unit) led" where
  "module_remove_extended_info E sender args =
    bnd (query (owner_allows E ''tokens.removeExtendedInfo'' CanTokensRemoveExtendedInfo sender (trei_symbol args))) (\<lambda>_.
    bnd (remove_extended_info E args) (\<lambda>_. ret ()))"

section \<open>Minting and burning\<close>

definition check_symbol_exists :: "('m, 'v) ext \<Rightarrow> symbol \<Rightarrow> symbol list \<Rightarrow> unit result" where
  "check_symbol_exists E symbol symbols = fails_if (symbol \<notin> set symbols) (symbol_not_found (to_string E symbol))"

definition verify_mint_burn_identity ::
  "('m, 'v) ext \<Rightarrow> address \<Rightarrow> symbol \<Rightarrow> ('m, 'v) ledger_storage \<Rightarrow> unit result" where
  "verify_mint_burn_identity E sender symbol s =
    res_bind (minting_identity E s) (\<lambda>identity.
    or_else (verify_tokens_sender sender identity) (\<lambda>_.
      case get_owner E symbol s of
        Ok (Some token_owner, _) \<Rightarrow> verify_tokens_sender sender token_owner
      | Panic p \<Rightarrow> Panic p
      | _ \<Rightarrow> Err no_token_owner))"

definition module_mint :: "('m, 'v) ext \<Rightarrow> address \<Rightarrow> token_mint_args \<Rightarrow> ('m, 'v, unit) led" where
  "module_mint E sender args =
    bnd (query (\<lambda>s. fails_if (\<not> token_migration_active s) (invalid_method_name ''tokens.mint''))) (\<lambda>_.
    bnd (query (\<lambda>s. fails_if (migration_active s DISABLE_TOKEN_MINT_MIGRATION)
      (unknown ''Token minting is disabled on this network''))) (\<lambda>_.
    bnd (query (verify_mint_burn_identity E sender (tma_symbol args))) (\<lambda>_.
    bnd (query (get_symbols E)) (\<lambda>symbols.
    bnd (lift_result (check_symbol_exists E (tma_symbol args) symbols)) (\<lambda>_.
    bnd (mint_token E (tma_symbol args) (tma_distribution args)) (\<lambda>_.
    log_event E (EvTokenMint (tma_symbol args) (tma_distribution args) (tma_memo args))))))))"

definition module_burn :: "('m, 'v) ext \<Rightarrow> address \<Rightarrow> token_burn_args \<Rightarrow> ('m, 'v, ledger_tokens_address_map) led" where
  "module_burn E sender args =
    bnd (query (\<lambda>s. fails_if (\<not> token_migration_active s) (invalid_method_name ''tokens.burn''))) (\<lambda>_.
    bnd (query (verify_mint_burn_identity E sender (tba_symbol args))) (\<lambda>_.
    bnd (query (get_symbols E)) (\<lambda>symbols.
    bnd (lift_result (check_symbol_exists E (tba_symbol args) symbols)) (\<lambda>_.
    bnd (fail_if (tba_error_on_under_burn args = Some False) partial_burn_disabled) (\<lambda>_.
    bnd (burn_token E (tba_symbol args) (tba_distribution args)) (\<lambda>_.
    bnd (log_event E (EvTokenBurn (tba_symbol args) (tba_distribution args) (tba_memo args))) (\<lambda>_.
    ret (tba_distribution args))))))))"

section \<open>Accounts\<close>

definition module_account_create :: "('m, 'v) ext \<Rightarrow> address \<Rightarrow> create_args \<Rightarrow> ('m, 'v, address) led" where
  "module_account_create E sender args =
    bnd (fail_if (ca_features args = []) empty_feature) (\<lambda>_.
    let account = account_create sender args in
    bnd (lift_result (validate_account account)) (\<lambda>_.
    bnd (add_account E account) (\<lambda>(i, _). ret i)))"

definition module_set_description :: "('m, 'v) ext \<Rightarrow> address \<Rightarrow> set_description_args \<Rightarrow> ('m, 'v, unit) led" where
  "module_set_description E sender args =
    bnd (query (get_account E (sda_account args))) (\<lambda>(account, _).
    bnd (fail_if (\<not> has_role account sender Owner) (user_needs_role ''owner'')) (\<lambda>_.
    bnd (set_description E account args) (\<lambda>_. ret ())))"

definition module_add_roles :: "('m, 'v) ext \<Rightarrow> address \<Rightarrow> add_roles_args \<Rightarrow> ('m, 'v, unit) led" where
  "module_add_roles E sender args =
    bnd (query (get_account E (ara_account args))) (\<lambda>(account, _).
    bnd (fail_if (\<not> has_role account sender Owner) (user_needs_role ''owner'')) (\<lambda>_.
    bnd (add_roles E account args) (\<lambda>_. ret ())))"

definition module_remove_roles :: "('m, 'v) ext \<Rightarrow> address \<Rightarrow> remove_roles_args \<Rightarrow> ('m, 'v, unit) led" where
  "module_remove_roles E sender args =
    bnd (query (get_account E (rra_account args))) (\<lambda>(account, _).
    bnd (fail_if (\<not> has_role account sender Owner) (user_needs_role (role_str Owner))) (\<lambda>_.
    bnd (remove_roles E account args) (\<lambda>_. ret ())))"

definition module_disable :: "('m, 'v) ext \<Rightarrow> address \<Rightarrow> disable_args \<Rightarrow> ('m, 'v, unit) led" where
  "module_disable E sender args =
    bnd (query (get_account E (da_account args))) (\<lambda>(account, _).
    bnd (fail_if (\<not> has_role account sender Owner) (user_needs_role (role_str Owner))) (\<lambda>_.
    bnd (disable_account E (da_account args)) (\<lambda>_. ret ())))"

definition module_add_features :: "('m, 'v) ext \<Rightarrow> address \<Rightarrow> add_features_args \<Rightarrow> ('m, 'v, unit) led" where
  "module_add_features E sender args =
    bnd (fail_if (afa_features args = []) empty_feature) (\<lambda>_.
    bnd (query (get_account E (afa_account args))) (\<lambda>(account, _).
    bnd (lift_result (needs_role account sender [Owner])) (\<lambda>_.
    bnd (add_features E account args) (\<lambda>_. ret ()))))"

section \<open>Queries\<close>

text \<open>
  A query sends a proof of the keys it read through the channel of the request. Whether that works depends
  on the channel only, so the model has what the channel answers as a parameter \<open>send_proof\<close>.
\<close>

definition prove_state :: "(bytes list \<Rightarrow> string + unit) \<Rightarrow> bytes list \<Rightarrow> unit result" where
  "prove_state send_proof keys = from_sum unknown (send_proof keys)"

record balance_args =
  ba_account :: "address option"
  ba_symbols :: "symbol list option"

definition module_balance ::
  "('m, 'v) ext \<Rightarrow> (bytes list \<Rightarrow> string + unit) \<Rightarrow> address \<Rightarrow> balance_args \<Rightarrow> ('m, 'v) ledger_storage \<Rightarrow>
   (symbol, token_amount) btree_map result" where
  "module_balance E send_proof sender args s =
    (let identity = (case ba_account args of Some a \<Rightarrow> a | None \<Rightarrow> sender);
         symbols = (case ba_symbols args of Some l \<Rightarrow> l | None \<Rightarrow> [])
     in
     res_bind (get_multiple_balances E identity (bs_from symbols) s) (\<lambda>(balances, keys).
     res_bind (prove_state send_proof keys) (\<lambda>_. Ok balances)))"

definition module_list_roles ::
  "('m, 'v) ext \<Rightarrow> (bytes list \<Rightarrow> string + unit) \<Rightarrow> address \<Rightarrow> ('m, 'v) ledger_storage \<Rightarrow> role list result" where
  "module_list_roles E send_proof account s =
    res_bind (get_account E account s) (\<lambda>(account, keys).
    res_bind (prove_state send_proof keys) (\<lambda>_. Ok (get_roles_for_account account)))"

definition module_get_roles ::
  "('m, 'v) ext \<Rightarrow> (bytes list \<Rightarrow> string + unit) \<Rightarrow> address \<Rightarrow> address list \<Rightarrow> ('m, 'v) ledger_storage \<Rightarrow> address_role_map result" where
  "module_get_roles E send_proof account identities s =
    res_bind (get_account E account s) (\<lambda>(account, keys).
    res_bind (prove_state send_proof keys) (\<lambda>_.
    Ok (foldl (\<lambda>m i. bt_insert i (account_get_roles account i) m) [] identities)))"

definition module_account_info ::
  "('m, 'v) ext \<Rightarrow> (bytes list \<Rightarrow> string + unit) \<Rightarrow> address \<Rightarrow> ('m, 'v) ledger_storage \<Rightarrow> account result" where
  "module_account_info E send_proof account s =
    res_bind (get_account_even_disabled E account s) (\<lambda>(account, keys).
    res_bind (prove_state send_proof keys) (\<lambda>_. Ok account))"

definition module_data_query ::
  "('m, 'v) ext \<Rightarrow> (bytes list \<Rightarrow> string + unit) \<Rightarrow> attribute_related_index list \<Rightarrow> ('m, 'v) ledger_storage \<Rightarrow>
   (attribute_related_index \<times> data_value) list result" where
  "module_data_query E send_proof ixs s =
    res_bind (data_attributes E s) (\<lambda>a.
    res_bind (prove_state send_proof [DATA_ATTRIBUTES_KEY]) (\<lambda>_.
    Ok (filter (\<lambda>e. fst e \<in> set ixs) (case a of Some l \<Rightarrow> l | None \<Rightarrow> []))))"

section \<open>Entries an operation leaves alone\<close>

text \<open>A successful run of the action does not change the entry under the key.\<close>

definition frames :: "('m \<Rightarrow> bytes \<Rightarrow> 'v option) \<Rightarrow> bytes \<Rightarrow> ('m, 'v, 'a) led \<Rightarrow> bool" where
  "frames V k m \<longleftrightarrow> (\<forall>s x t. m s = (Ok x, t) \<longrightarrow> sv V t k = sv V s k)"

named_theorems frame_intros \<open>actions that leave an entry alone\<close>

lemma framesD: "frames V k m \<Longrightarrow> m s = (Ok x, t) \<Longrightarrow> sv V t k = sv V s k"
  by (simp add: frames_def)

lemma frames_pure [frame_intros]:
  "frames V k (ret x)" "frames V k (fail e)" "frames V k (fail_if b e)" "frames V k (query r)" "frames V k (lift_result r')"
  by (auto simp: frames_def act_simps)

lemma frames_bnd [frame_intros]:
  assumes "frames V k m" "\<And>x. frames V k (f x)"
  shows "frames V k (bnd m f)"
  using assms unfolding frames_def by (fastforce simp: bnd_Ok)

lemma frames_cases [frame_intros]:
  "frames V k a \<Longrightarrow> frames V k b \<Longrightarrow> frames V k (if c then a else b)"
  "frames V k a \<Longrightarrow> (\<And>y. frames V k (f y)) \<Longrightarrow> frames V k (case z of None \<Rightarrow> a | Some y \<Rightarrow> f y)"
  "(\<And>x y. frames V k (g x y)) \<Longrightarrow> frames V k (case p of (x, y) \<Rightarrow> g x y)"
  by (simp_all split: option.splits prod.splits)

lemma frames_store:
  assumes "merk_laws E V C"
  shows "k \<notin> fst ` set ops \<Longrightarrow> frames V k (store_apply E f ops)" "frames V k (maybe_commit E)"
    "(\<And>i. k \<noteq> key_for_event i) \<Longrightarrow> k \<noteq> EVENT_COUNT_ROOT \<Longrightarrow> frames V k (log_event E content)"
    "k \<noteq> key_for_account E i \<Longrightarrow> frames V k (commit_account E i a)"
proof -
  show ap: "frames V k (store_apply E f ops)" if "k \<notin> fst ` set ops" for f ops
    unfolding frames_def using store_apply_Ok(2) [OF assms] apply_ops_other [OF that] by metis
  show mc: "frames V k (maybe_commit E)"
    unfolding frames_def using maybe_commit_Ok(1) [OF assms] by metis
  show "frames V k (log_event E content)" if "\<And>i. k \<noteq> key_for_event i" "k \<noteq> EVENT_COUNT_ROOT"
    unfolding frames_def using that by (auto elim!: log_event_Ok [OF assms])
  show "frames V k (commit_account E i a)" if "k \<noteq> key_for_account E i"
    unfolding commit_account_def using that by (intro frame_intros ap mc) simp
qed

text \<open>No account or token operation below touches a balance, no token operation an account.\<close>

lemma frames_subresource:
  assumes "merk_laws E V C" "root \<in> {ACCOUNT_IDENTITY_ROOT, TOKEN_IDENTITY_ROOT}"
    and "\<And>i b. k \<noteq> key_for_subresource_counter E i b"
  shows "frames V k (get_next_subresource E root)"
  unfolding frames_def using assms(3) by (auto elim!: get_next_subresource_Ok [OF assms(1,2)])

lemma frames_account:
  assumes "merk_laws E V C"
  shows "frames V (key_for_account_balance E a sy) (add_account E acc)"
    "frames V (key_for_account_balance E a sy) (disable_account E i)"
    "frames V (key_for_account_balance E a sy) (set_description E acc sargs)"
    "frames V (key_for_account_balance E a sy) (add_roles E acc aargs)"
    "frames V (key_for_account_balance E a sy) (remove_roles E acc rargs)"
    "frames V (key_for_account_balance E a sy) (add_features E acc fargs)"
  unfolding add_account_def add_account_inner_def disable_account_def set_description_def add_roles_def remove_roles_def
    add_features_def Let_def
  by (intro frame_intros frames_store [OF assms] frames_subresource [OF assms]; simp)+

lemma frames_token:
  assumes "merk_laws E V C" "k = key_for_account_balance E a sy \<or> k = key_for_account E a"
  shows "frames V k (update_token E sender uargs)" "frames V k (add_extended_info E eargs)"
    "frames V k (remove_extended_info E rargs)"
proof -
  have neq: "k \<noteq> key_for_event i" "k \<noteq> EVENT_COUNT_ROOT" "k \<noteq> utf8 (key_for_symbol E y)" "k \<noteq> key_for_ext_info E y"
    "k \<noteq> utf8 ''/config/symbols''" for i y
    using assms(2) keys_neq by (auto simp: SYMBOLS_ROOT_def [symmetric])
  show "frames V k (update_token E sender uargs)" "frames V k (add_extended_info E eargs)"
    "frames V k (remove_extended_info E rargs)"
    unfolding update_token_def update_symbols_def add_extended_info_def remove_extended_info_def Let_def
    by (intro frame_intros frames_store [OF assms(1)]; simp add: neq)+
qed

section \<open>Who can reduce a balance\<close>

text \<open>The calls of the endpoints above that succeed. Role tables come decoded, as maps with sorted keys.\<close>

inductive ledger_call :: "('m, 'v) ext \<Rightarrow> address \<Rightarrow> ('m, 'v) ledger_storage \<Rightarrow> ('m, 'v) ledger_storage \<Rightarrow> bool"
  for E sender where
  call_send: "module_send E sender sargs s = (Ok (), t) \<Longrightarrow> ledger_call E sender s t"
| call_token_create: "module_token_create E sender cargs s = (Ok info, t) \<Longrightarrow> ledger_call E sender s t"
| call_token_update: "module_token_update E sender uargs s = (Ok (), t) \<Longrightarrow> ledger_call E sender s t"
| call_add_extended_info: "module_add_extended_info E sender xargs s = (Ok (), t) \<Longrightarrow> ledger_call E sender s t"
| call_remove_extended_info: "module_remove_extended_info E sender yargs s = (Ok (), t) \<Longrightarrow> ledger_call E sender s t"
| call_mint: "module_mint E sender margs s = (Ok (), t) \<Longrightarrow> ledger_call E sender s t"
| call_burn: "module_burn E sender bargs s = (Ok d, t) \<Longrightarrow> ledger_call E sender s t"
| call_account_create: "module_account_create E sender nargs s = (Ok i, t) \<Longrightarrow> ledger_call E sender s t"
| call_set_description: "module_set_description E sender dargs s = (Ok (), t) \<Longrightarrow> ledger_call E sender s t"
| call_add_roles: "module_add_roles E sender aargs s = (Ok (), t) \<Longrightarrow> ledger_call E sender s t"
| call_remove_roles: "bt_wf (rra_roles rargs) \<Longrightarrow> module_remove_roles E sender rargs s = (Ok (), t) \<Longrightarrow> ledger_call E sender s t"
| call_disable: "module_disable E sender iargs s = (Ok (), t) \<Longrightarrow> ledger_call E sender s t"
| call_add_features: "module_add_features E sender fargs s = (Ok (), t) \<Longrightarrow> ledger_call E sender s t"

definition may_spend ::
  "('m, 'v) ext \<Rightarrow> (bytes \<Rightarrow> 'v option) \<Rightarrow> address \<Rightarrow> address \<Rightarrow> bool" where
  "may_spend E f sender a \<longleftrightarrow> sender = a \<or> (\<exists>acc. account_at E f a = Some acc \<and> is_enabled acc \<and>
    (has_role acc sender Owner \<or> fs_has_id (acc_features acc) AccountLedger_ID \<and> has_role acc sender CanLedgerTransact))"

definition may_mint ::
  "('m, 'v) ext \<Rightarrow> (bytes \<Rightarrow> 'v option) \<Rightarrow> address \<Rightarrow> symbol \<Rightarrow> bool" where
  "may_mint E f sender symbol \<longleftrightarrow>
    (\<exists>root\<in>{TOKEN_IDENTITY_ROOT, IDENTITY_ROOT}. \<exists>v. f (utf8 root) = Some v \<and> from_bytes (val_bytes E v) = Ok sender) \<or>
    (\<exists>info. token_at E f symbol = Some info \<and> ti_owner info = Some sender)"

lemma or_else_Ok: "or_else r f = Ok x \<longleftrightarrow> r = Ok x \<or> (\<exists>e. r = Err e \<and> f e = Ok x)"
  by (cases r) (simp_all add: or_else_def)

lemma get_identity_Ok:
  assumes "merk_laws E V C" "get_identity E root s = Ok i"
  shows "\<exists>v. sv V s (utf8 root) = Some v \<and> from_bytes (val_bytes E v) = Ok i"
  using assms(2) by (auto simp: get_identity_def act_simps dest!: store_get_Ok [OF assms(1)])

lemma get_owner_Ok:
  assumes "merk_laws E V C" "get_owner E symbol s = Ok (o', k)"
  shows "\<exists>info. token_at E (sv V s) symbol = Some info \<and> ti_owner info = o'"
  using assms(2) by (auto simp: get_owner_def act_simps token_at_def dest!: store_get_Ok [OF assms(1)])

lemma verify_mint_burn_identity_Ok:
  assumes "merk_laws E V C" "verify_mint_burn_identity E sender symbol s = Ok ()"
  shows "may_mint E (sv V s) sender symbol"
proof -
  obtain i where i: "minting_identity E s = Ok i"
    and v: "verify_tokens_sender sender i = Ok () \<or> (\<exists>k. get_owner E symbol s = Ok (Some sender, k))"
    using assms(2) by (auto simp: verify_mint_burn_identity_def act_simps or_else_Ok verify_tokens_sender_def
        split: result.splits option.splits if_splits prod.splits)
  from v show ?thesis
  proof
    assume "verify_tokens_sender sender i = Ok ()"
    then have "i = sender"
      by (simp add: verify_tokens_sender_def split: if_splits)
    with i show ?thesis
      using get_identity_Ok [OF assms(1)] unfolding may_mint_def or_else_Ok by blast
  next
    assume "\<exists>k. get_owner E symbol s = Ok (Some sender, k)"
    then show ?thesis
      using get_owner_Ok [OF assms(1)] unfolding may_mint_def by blast
  qed
qed

lemma module_send_Ok:
  assumes "merk_laws E V C" "module_send E sender args s = (Ok (), t)"
  obtains a keys where "may_spend E (sv V s) sender a" "a = (case sa_from args of Some a \<Rightarrow> a | None \<Rightarrow> sender)"
    "send E a (sa_to args) (sa_symbol args) (sa_amount args) (sa_memo args) s = (Ok keys, t)"
proof -
  let ?a = "case sa_from args of Some a \<Rightarrow> a | None \<Rightarrow> sender"
  obtain keys where "send E ?a (sa_to args) (sa_symbol args) (sa_amount args) (sa_memo args) s = (Ok keys, t)"
    and r: "?a \<noteq> sender \<longrightarrow> (\<exists>acc k. get_account E ?a s = Ok (acc, k) \<and>
      verify_account_role acc sender AccountLedger_ID [CanLedgerTransact] = Ok ())"
    using assms(2) unfolding module_send_def Let_def by (auto simp: act_simps split: if_splits)
  moreover have "may_spend E (sv V s) sender ?a"
    using r get_account_Ok [OF assms(1)] unfolding may_spend_def
    by (fastforce simp: verify_account_role_def needs_role_def needs_role_loop_Ok split: if_splits)
  ultimately show thesis
    using that by blast
qed

lemma module_mint_Ok:
  assumes "merk_laws E V C" "module_mint E sender args s = (Ok (), t)"
  obtains symbols keys s1 where "may_mint E (sv V s) sender (tma_symbol args)" "get_symbols E s = Ok symbols"
    "tma_symbol args \<in> set symbols" "mint_token E (tma_symbol args) (tma_distribution args) s = (Ok keys, s1)"
    "log_event E (EvTokenMint (tma_symbol args) (tma_distribution args) (tma_memo args)) s1 = (Ok (), t)"
  using assms(2) verify_mint_burn_identity_Ok [OF assms(1)]
  by (auto simp: module_mint_def check_symbol_exists_def act_simps)

lemma module_burn_Ok:
  assumes "merk_laws E V C" "module_burn E sender args s = (Ok d, t)"
  obtains symbols keys s1 where "may_mint E (sv V s) sender (tba_symbol args)" "get_symbols E s = Ok symbols"
    "tba_symbol args \<in> set symbols" "burn_token E (tba_symbol args) (tba_distribution args) s = (Ok keys, s1)"
    "log_event E (EvTokenBurn (tba_symbol args) (tba_distribution args) (tba_memo args)) s1 = (Ok (), t)"
  using assms(2) verify_mint_burn_identity_Ok [OF assms(1)]
  by (auto simp: module_burn_def check_symbol_exists_def act_simps)

lemma module_token_create_Ok:
  assumes "module_token_create E sender args s = (Ok info, t)"
  obtains keys where "token_migration_active s" "create_token E sender args s = (Ok (info, keys), t)"
  using assms by (auto simp: module_token_create_def token_create_allowed_def act_simps)

lemma frames_endpoints:
  assumes "merk_laws E V C"
  shows "k = key_for_account_balance E a sy \<or> k = key_for_account E a \<Longrightarrow> frames V k (module_token_update E sender uargs)"
    "k = key_for_account_balance E a sy \<or> k = key_for_account E a \<Longrightarrow> frames V k (module_add_extended_info E sender xargs)"
    "k = key_for_account_balance E a sy \<or> k = key_for_account E a \<Longrightarrow> frames V k (module_remove_extended_info E sender yargs)"
    "frames V (key_for_account_balance E a sy) (module_account_create E sender nargs)"
    "frames V (key_for_account_balance E a sy) (module_set_description E sender dargs)"
    "frames V (key_for_account_balance E a sy) (module_add_roles E sender aargs)"
    "frames V (key_for_account_balance E a sy) (module_remove_roles E sender rargs)"
    "frames V (key_for_account_balance E a sy) (module_disable E sender iargs)"
    "frames V (key_for_account_balance E a sy) (module_add_features E sender fargs)"
  unfolding module_token_update_def module_add_extended_info_def module_remove_extended_info_def
    module_account_create_def module_set_description_def module_add_roles_def module_remove_roles_def
    module_disable_def module_add_features_def Let_def
  by (intro frame_intros frames_account [OF assms] frames_token [OF assms]; assumption?)+

text \<open>Minting and burning change balances of their token only; the event they log changes none.\<close>

lemma supply_change_other:
  assumes "merk_laws E V C" "log_event E ev s1 = (Ok (), t)" "sy \<noteq> symbol"
    and "sv V s1 = (with_amounts E symbol d (sv V s))(utf8 (key_for_symbol E symbol) := Some v)"
  shows "balance_at E (sv V t) a sy = balance_at E (sv V s) a sy"
proof -
  have "sv V t (key_for_account_balance E a sy) = sv V s1 (key_for_account_balance E a sy)"
    by (rule framesD [OF frames_store(3) [OF assms(1)] assms(2)]) simp_all
  then show ?thesis
    using balance_with_amounts [OF assms(1), of symbol d "sv V s" a sy] assms(3,4) by (simp add: amount_at_def)
qed

lemma module_mint_changes:
  assumes "merk_laws E V C" "module_mint E sender args s = (Ok (), t)"
    and "balance_at E (sv V t) a sy \<noteq> balance_at E (sv V s) a sy"
  shows "may_mint E (sv V s) sender sy"
proof -
  obtain symbols keys s1 where m: "may_mint E (sv V s) sender (tma_symbol args)" "get_symbols E s = Ok symbols"
    "tma_symbol args \<in> set symbols" "mint_token E (tma_symbol args) (tma_distribution args) s = (Ok keys, s1)"
    and l: "log_event E (EvTokenMint (tma_symbol args) (tma_distribution args) (tma_memo args)) s1 = (Ok (), t)"
    by (rule module_mint_Ok [OF assms(1,2)])
  have "sy = tma_symbol args"
    by (rule mint_token_Ok [OF assms(1) m(2-4)], rule ccontr) (use supply_change_other [OF assms(1) l] assms(3) in simp)
  with m(1) show ?thesis by simp
qed

lemma module_burn_changes:
  assumes "merk_laws E V C" "module_burn E sender args s = (Ok d, t)"
    and "balance_at E (sv V t) a sy \<noteq> balance_at E (sv V s) a sy"
  shows "may_mint E (sv V s) sender sy"
proof -
  obtain symbols keys s1 where m: "may_mint E (sv V s) sender (tba_symbol args)" "get_symbols E s = Ok symbols"
    "tba_symbol args \<in> set symbols" "burn_token E (tba_symbol args) (tba_distribution args) s = (Ok keys, s1)"
    and l: "log_event E (EvTokenBurn (tba_symbol args) (tba_distribution args) (tba_memo args)) s1 = (Ok (), t)"
    by (rule module_burn_Ok [OF assms(1,2)])
  have "sy = tba_symbol args"
    by (rule burn_token_Ok [OF assms(1) m(2-4)], rule ccontr) (use supply_change_other [OF assms(1) l] assms(3) in simp)
  with m(1) show ?thesis by simp
qed

lemma module_token_create_balance:
  assumes "supply_inv E V C s" "module_token_create E sender args s = (Ok info, t)"
  shows "balance_at E (sv V s) a sy \<le> balance_at E (sv V t) a sy"
proof -
  have L: "merk_laws E V C" "merk_reliable E V C" "\<And>sy. supply_ok E (sv V s) sy" "symbols_reserved E V C s"
    using assms(1) by (simp_all add: supply_inv_def)
  obtain keys where c: "token_migration_active s" "create_token E sender args s = (Ok (info, keys), t)"
    by (rule module_token_create_Ok [OF assms(2)])
  have "balance_at E (sv V s) a (ti_symbol info) = 0"
    using L(3) [of "ti_symbol info"] created_symbol_new [OF L(1,2) c(1) L(4) c(2)]
    by (auto simp: supply_ok_def holders_def)
  then show ?thesis
    by (simp add: create_balances [OF L(1) c(2)])
qed

text \<open>A call changes no balance or is one of the four calls that do.\<close>

lemma ledger_call_balance_cases:
  assumes "ledger_call E sender s t" "merk_laws E V C"
  obtains (call_send) sargs where "module_send E sender sargs s = (Ok (), t)"
  | (call_token_create) cargs info where "module_token_create E sender cargs s = (Ok info, t)"
  | (call_mint) margs where "module_mint E sender margs s = (Ok (), t)"
  | (call_burn) bargs d where "module_burn E sender bargs s = (Ok d, t)"
  | (other_call) "\<forall>a sy. sv V t (key_for_account_balance E a sy) = sv V s (key_for_account_balance E a sy)"
proof -
  note frames = frames_endpoints(1-3) [OF assms(2) disjI1 [OF refl]] frames_endpoints(4-9) [OF assms(2)]
  from assms(1) show thesis
  proof cases
    case call_token_update
    show thesis by (intro other_call allI) (rule framesD [OF frames(1) call_token_update])
  next
    case call_add_extended_info
    show thesis by (intro other_call allI) (rule framesD [OF frames(2) call_add_extended_info])
  next
    case call_remove_extended_info
    show thesis by (intro other_call allI) (rule framesD [OF frames(3) call_remove_extended_info])
  next
    case call_account_create
    show thesis by (intro other_call allI) (rule framesD [OF frames(4) call_account_create])
  next
    case call_set_description
    show thesis by (intro other_call allI) (rule framesD [OF frames(5) call_set_description])
  next
    case call_add_roles
    show thesis by (intro other_call allI) (rule framesD [OF frames(6) call_add_roles])
  next
    case call_remove_roles
    show thesis by (intro other_call allI) (rule framesD [OF frames(7) call_remove_roles(2)])
  next
    case call_disable
    show thesis by (intro other_call allI) (rule framesD [OF frames(8) call_disable])
  next
    case call_add_features
    show thesis by (intro other_call allI) (rule framesD [OF frames(9) call_add_features])
  qed (fact that)+
qed


section \<open>Accounts stay in the hands of their owners\<close>

text \<open>The endpoints of tokens and transfers do not write accounts.\<close>

lemma token_calls_accounts:
  assumes "merk_laws E V C"
  shows "module_send E sender sargs s = (Ok (), t) \<Longrightarrow> sv V t (key_for_account E i) = sv V s (key_for_account E i)"
    "module_token_create E sender cargs s = (Ok info, t) \<Longrightarrow> sv V t (key_for_account E i) = sv V s (key_for_account E i)"
    "module_mint E sender margs s = (Ok (), t) \<Longrightarrow> sv V t (key_for_account E i) = sv V s (key_for_account E i)"
    "module_burn E sender bargs s = (Ok d, t) \<Longrightarrow> sv V t (key_for_account E i) = sv V s (key_for_account E i)"
proof -
  have c: "key_for_account E i \<noteq> key_for_subresource_counter E j b" for j b
    by (cases b) simp_all
  have lg: "sv V t' (key_for_account E i) = sv V s' (key_for_account E i)" if "log_event E ev s' = (Ok (), t')" for ev s' t'
    by (rule framesD [OF frames_store(3) [OF assms] that]) simp_all
  show "sv V t (key_for_account E i) = sv V s (key_for_account E i)" if "module_send E sender sargs s = (Ok (), t)"
    by (rule module_send_Ok [OF assms that], erule send_Ok [OF assms]) (simp add: counted_other)
  show "sv V t (key_for_account E i) = sv V s (key_for_account E i)" if "module_token_create E sender cargs s = (Ok info, t)"
    by (rule module_token_create_Ok [OF that], erule create_token_Ok [OF assms]) (simp add: with_amounts_other c)
  show "sv V t (key_for_account E i) = sv V s (key_for_account E i)" if "module_mint E sender margs s = (Ok (), t)"
    by (rule module_mint_Ok [OF assms that], erule (2) mint_token_Ok [OF assms]) (simp add: lg with_amounts_other)
  show "sv V t (key_for_account E i) = sv V s (key_for_account E i)" if "module_burn E sender bargs s = (Ok d, t)"
    by (rule module_burn_Ok [OF assms that], erule (2) burn_token_Ok [OF assms]) (simp add: lg with_amounts_other)
qed

text \<open>The account operations write one account.\<close>

lemma frames_other_account:
  assumes "merk_laws E V C"
  shows "j \<noteq> sda_account dargs \<Longrightarrow> frames V (key_for_account E j) (set_description E acc dargs)"
    "j \<noteq> ara_account aargs \<Longrightarrow> frames V (key_for_account E j) (add_roles E acc aargs)"
    "j \<noteq> rra_account rargs \<Longrightarrow> frames V (key_for_account E j) (remove_roles E acc rargs)"
    "j \<noteq> i \<Longrightarrow> frames V (key_for_account E j) (disable_account E i)"
    "j \<noteq> afa_account fargs \<Longrightarrow> frames V (key_for_account E j) (add_features E acc fargs)"
  unfolding set_description_def add_roles_def remove_roles_def disable_account_def add_features_def Let_def
  by (intro frame_intros frames_store [OF assms]; simp add: address_key_inject [OF merk_laws_addr [OF assms]])+

lemma owner_call:
  assumes "merk_laws E V C" "get_account E i s = Ok (acc, keys)" "has_role acc sender Owner"
    and "j \<noteq> i \<Longrightarrow> frames V (key_for_account E j) m" "m s = (Ok x, t)"
    and "sv V t (key_for_account E j) \<noteq> sv V s (key_for_account E j)"
  shows "\<exists>acc. account_at E (sv V s) j = Some acc \<and> is_enabled acc \<and> has_role acc sender Owner"
  using assms(2-6) get_account_Ok [OF assms(1,2)] framesD [of V "key_for_account E j" m s x t] by blast

lemma module_account_create_Ok:
  assumes "merk_laws E V C" "module_account_create E sender args s = (Ok i, t)"
  obtains keys where "add_account_inner E (account_create sender args) True s = (Ok (i, keys), t)"
  using assms(2) by (auto simp: module_account_create_def add_account_def Let_def act_simps)

lemma account_create_other:
  assumes "merk_laws E V C" "module_account_create E sender args s = (Ok i, t)" "j \<noteq> i"
  shows "sv V t (key_for_account E j) = sv V s (key_for_account E j)"
proof -
  have c: "key_for_account E j \<noteq> key_for_subresource_counter E l b" for l b
    by (cases b) simp_all
  show ?thesis
    by (rule module_account_create_Ok [OF assms(1,2)], erule add_account_inner_Ok [OF assms(1)])
      (use assms(3) c in \<open>simp add: address_key_inject [OF merk_laws_addr [OF assms(1)]]\<close>)
qed

text \<open>A call writes no account or is one of the six calls that do.\<close>

lemma ledger_call_account_cases:
  assumes "ledger_call E sender s t" "merk_laws E V C"
  obtains (call_account_create) args i where "module_account_create E sender args s = (Ok i, t)"
  | (call_set_description) dargs where "module_set_description E sender dargs s = (Ok (), t)"
  | (call_add_roles) aargs where "module_add_roles E sender aargs s = (Ok (), t)"
  | (call_remove_roles) rargs where "bt_wf (rra_roles rargs)" "module_remove_roles E sender rargs s = (Ok (), t)"
  | (call_disable) iargs where "module_disable E sender iargs s = (Ok (), t)"
  | (call_add_features) fargs where "module_add_features E sender fargs s = (Ok (), t)"
  | (token_call) "\<forall>i. sv V t (key_for_account E i) = sv V s (key_for_account E i)"
proof -
  note frames = frames_endpoints(1-3) [OF assms(2) disjI2 [OF refl]]
  from assms(1) show thesis
  proof cases
    case call_send
    show thesis by (intro token_call allI) (rule token_calls_accounts(1) [OF assms(2) call_send])
  next
    case call_token_create
    show thesis by (intro token_call allI) (rule token_calls_accounts(2) [OF assms(2) call_token_create])
  next
    case call_mint
    show thesis by (intro token_call allI) (rule token_calls_accounts(3) [OF assms(2) call_mint])
  next
    case call_burn
    show thesis by (intro token_call allI) (rule token_calls_accounts(4) [OF assms(2) call_burn])
  next
    case call_token_update
    show thesis by (intro token_call allI) (rule framesD [OF frames(1) call_token_update])
  next
    case call_add_extended_info
    show thesis by (intro token_call allI) (rule framesD [OF frames(2) call_add_extended_info])
  next
    case call_remove_extended_info
    show thesis by (intro token_call allI) (rule framesD [OF frames(3) call_remove_extended_info])
  qed (fact that)+
qed

text \<open>The calls on an existing account.\<close>

lemma account_call_owner:
  assumes L: "merk_laws E V C" and ch: "sv V t (key_for_account E i) \<noteq> sv V s (key_for_account E i)"
    and call: "module_set_description E sender dargs s = (Ok (), t) \<or> module_add_roles E sender aargs s = (Ok (), t) \<or>
      module_remove_roles E sender rargs s = (Ok (), t) \<or> module_disable E sender iargs s = (Ok (), t) \<or>
      module_add_features E sender fargs s = (Ok (), t)"
  shows "\<exists>acc. account_at E (sv V s) i = Some acc \<and> is_enabled acc \<and> has_role acc sender Owner"
proof -
  note own = owner_call [OF L _ _ _ _ ch] and frames = frames_other_account [OF L]
  from call consider
      acc k x where "get_account E (sda_account dargs) s = Ok (acc, k)" "has_role acc sender Owner" "set_description E acc dargs s = (Ok x, t)"
    | acc k x where "get_account E (ara_account aargs) s = Ok (acc, k)" "has_role acc sender Owner" "add_roles E acc aargs s = (Ok x, t)"
    | acc k x where "get_account E (rra_account rargs) s = Ok (acc, k)" "has_role acc sender Owner" "remove_roles E acc rargs s = (Ok x, t)"
    | acc k x where "get_account E (da_account iargs) s = Ok (acc, k)" "has_role acc sender Owner" "disable_account E (da_account iargs) s = (Ok x, t)"
    | acc k x where "get_account E (afa_account fargs) s = Ok (acc, k)" "has_role acc sender Owner" "add_features E acc fargs s = (Ok x, t)"
    by (elim disjE) (auto simp: module_set_description_def module_add_roles_def module_remove_roles_def module_disable_def
        module_add_features_def needs_role_def act_simps split: if_splits)
  then show ?thesis
    by cases (blast intro: own [OF _ _ frames(1)] own [OF _ _ frames(2)] own [OF _ _ frames(3)] own [OF _ _ frames(4)] own [OF _ _ frames(5)])+
qed


definition accounts_inv ::
  "('m, 'v) ext \<Rightarrow> ('m \<Rightarrow> bytes \<Rightarrow> 'v option) \<Rightarrow> ('m \<Rightarrow> bytes \<Rightarrow> 'v option) \<Rightarrow> ('m, 'v) ledger_storage \<Rightarrow> bool" where
  "accounts_inv E V C s \<longleftrightarrow> merk_laws E V C \<and> codec_ok (account_codec E) \<and> owns_itself E (sv V s)"

abbreviation some_call :: "('m, 'v) ext \<Rightarrow> ('m, 'v) ledger_storage \<Rightarrow> ('m, 'v) ledger_storage \<Rightarrow> bool" where
  "some_call E s t \<equiv> \<exists>sender. ledger_call E sender s t"

lemma accounts_inv_step:
  assumes "some_call E s t" "accounts_inv E V C s"
  shows "accounts_inv E V C t"
proof -
  have L: "merk_laws E V C" "codec_ok (account_codec E)" "owns_itself E (sv V s)"
    using assms(2) by (simp_all add: accounts_inv_def)
  obtain sender where "ledger_call E sender s t"
    using assms(1) by blast
  from this L(1) have "owns_itself E (sv V t)"
  proof (cases rule: ledger_call_account_cases)
    case call_account_create
    then show ?thesis
      by (rule module_account_create_Ok [OF L(1)]) (rule add_account_owns [OF L])
  next
    case call_set_description
    then show ?thesis
      using set_description_owns [OF L] by (auto simp: module_set_description_def act_simps)
  next
    case call_add_roles
    then show ?thesis
      using add_roles_owns [OF L] by (auto simp: module_add_roles_def act_simps)
  next
    case call_remove_roles
    then show ?thesis
      using remove_roles_owns [OF L] by (auto simp: module_remove_roles_def act_simps)
  next
    case call_disable
    then show ?thesis
      using disable_account_owns [OF L] by (auto simp: module_disable_def act_simps)
  next
    case call_add_features
    then show ?thesis
      using add_features_owns [OF L] by (auto simp: module_add_features_def act_simps)
  next
    case token_call
    with L(3) show ?thesis
      using owns_itself_cong [of "sv V t" E "sv V s"] by simp
  qed
  then show ?thesis
    using L by (simp add: accounts_inv_def)
qed

interpretation account_life: transition_invariant "some_call E" "accounts_inv E V C" for E V C
  by unfold_locales (rule accounts_inv_step)


section \<open>Instances\<close>

text \<open>The holder of a treasury sends tokens.\<close>

definition some_transfer :: send_args where
  "some_transfer = \<lparr>sa_from = None, sa_to = PublicKey 2, sa_amount = 30, sa_symbol = Subresource 1 0, sa_memo = None\<rparr>"


text \<open>An owner disables the account of the vault.\<close>

lemma commit_account_reliable:
  assumes "merk_reliable E V C" "codec_total (account_codec E)"
  obtains key t where "commit_account E i a s = (Ok key, t)"
proof -
  obtain v where v: "enc (account_codec E) a = Inr v"
    using assms(2) by (auto simp: codec_total_def)
  obtain s1 where s1: "store_apply E unknown [(key_for_account E i, Put v)] s = (Ok (), s1)"
    by (rule store_apply_reliable [OF assms(1)]) auto
  obtain t where "maybe_commit E s1 = (Ok (), t)"
    by (rule maybe_commit_reliable [OF assms(1)])
  then show thesis
    using that by (simp add: commit_account_def bnd_def lift_result_def ret_def v s1)
qed

lemma vault_disable:
  obtains t where "ledger_call mem_ext (PublicKey 1) vault t"
    "account_at mem_ext (sv mem_view t) (Subresource 1 1) = Some (vault_account\<lparr>acc_disabled := Some (Inl True)\<rparr>)"
proof -
  let ?a = "vault_account\<lparr>acc_disabled := Some (Inl True)\<rparr>"
  have g: "get_account_even_disabled mem_ext (Subresource 1 1) vault = Ok (vault_account, [key_for_account mem_ext (Subresource 1 1)])"
    by (simp add: get_account_even_disabled_def store_get_or_none_def vault_def vault_store_def ledger_new_def)
  obtain key s1 where c: "commit_account mem_ext (Subresource 1 1) ?a vault = (Ok key, s1)"
    by (rule commit_account_reliable [OF mem_reliable mem_codecs_total(1)])
  obtain v where v: "enc (account_codec mem_ext) ?a = Inr v"
    "sv mem_view s1 = (sv mem_view vault)(key_for_account mem_ext (Subresource 1 1) := Some v)"
    by (rule commit_account_Ok [OF mem_laws c]) (rule that)
  have "u64_slot mem_ext EVENT_COUNT_ROOT (sv mem_view s1)"
    by (simp add: v(2) u64_slot_def vault_def vault_store_def ledger_new_def)
  then obtain s2 where l: "log_event mem_ext (EvAccountDisable (Subresource 1 1)) s1 = (Ok (), s2)"
    by (rule log_event_reliable [OF mem_reliable mem_codecs_total(5)])
  obtain t where t: "maybe_commit mem_ext s2 = (Ok (), t)"
    by (rule maybe_commit_reliable [OF mem_reliable])
  have "module_disable mem_ext (PublicKey 1) \<lparr>da_account = Subresource 1 1\<rparr> vault = (Ok (), t)"
    by (simp add: module_disable_def disable_account_def get_account_def bnd_def query_def fail_if_def ret_def g vault_roles c l t)
  then have "ledger_call mem_ext (PublicKey 1) vault t"
    by (rule call_disable)
  moreover have "sv mem_view t (key_for_account mem_ext (Subresource 1 1)) = sv mem_view s1 (key_for_account mem_ext (Subresource 1 1))"
    using framesD [OF frames_store(3) [OF mem_laws] l] maybe_commit_Ok(1) [OF mem_laws t] by simp
  ultimately show thesis
    using that v by (auto simp: account_at_def)
qed



end
