(* ===== verification/Event_List.thy ===== *)
theory Event_List
  imports Storage
begin

text \<open>
  Listing events, \<open>src/src/many-ledger/src/module/event.rs\<close>: filters over the iterator of the event log,
  and what a page of the log contains.
\<close>

section \<open>The endpoint\<close>

datatype event_filter_attribute_specific = FilterMultisigTransactionState "multisig_transaction_state list"

record event_filter =
  ef_account :: "address list option"
  ef_kind :: "event_kind list option"
  ef_symbol :: "address list option"
  ef_id_range :: "event_id cbor_range option"
  ef_date_range :: "timestamp cbor_range option"
  ef_specific :: "event_filter_attribute_specific list"

definition event_filter_default :: event_filter where
  "event_filter_default = \<lparr>ef_account = None, ef_kind = None, ef_symbol = None, ef_id_range = None,
     ef_date_range = None, ef_specific = []\<rparr>"

record list_args =
  la_count :: "u64 option"
  la_order :: "sort_order option"
  la_filter :: "event_filter option"

definition MAXIMUM_EVENT_COUNT :: nat where
  "MAXIMUM_EVENT_COUNT = 100"

text \<open>The filters let errors pass.\<close>

definition keep_event :: "(event_log \<Rightarrow> bool) \<Rightarrow> event_log result \<Rightarrow> bool" where
  "keep_event p r = (case r of Ok l \<Rightarrow> p l | _ \<Rightarrow> True)"

definition filter_account :: "address list option \<Rightarrow> event_log result list \<Rightarrow> event_log result list" where
  "filter_account account it =
    (case account of Some ids \<Rightarrow> filter (keep_event (\<lambda>l. \<exists>i\<in>set ids. event_log_is_about l i)) it | None \<Rightarrow> it)"

definition filter_event_kind :: "event_kind list option \<Rightarrow> event_log result list \<Rightarrow> event_log result list" where
  "filter_event_kind kind it =
    (case kind of Some k \<Rightarrow> filter (keep_event (\<lambda>l. event_log_kind l \<in> set k)) it | None \<Rightarrow> it)"

definition filter_date :: "timestamp cbor_range \<Rightarrow> event_log result list \<Rightarrow> event_log result list" where
  "filter_date rng it = filter (keep_event (\<lambda>l. range_contains rng (el_time l))) it"

fun has_multisig_state :: "multisig_transaction_state list \<Rightarrow> event_info \<Rightarrow> bool" where
  "has_multisig_state state (EvAccountMultisigSubmit _ _ _ _ _ _ _ _ _ _) = (Pending \<in> set state)"
| "has_multisig_state state (EvAccountMultisigApprove _ _ _) = (Pending \<in> set state)"
| "has_multisig_state state (EvAccountMultisigExecute _ _ _ _) =
    (ExecutedAutomatically \<in> set state \<or> ExecutedManually \<in> set state)"
| "has_multisig_state state (EvAccountMultisigWithdraw _ _ _) = (Withdrawn \<in> set state)"
| "has_multisig_state state (EvAccountMultisigExpired _ _ _) = (Expired \<in> set state)"
| "has_multisig_state state _ = False"

definition filter_attribute_specific ::
  "event_filter_attribute_specific list \<Rightarrow> event_log result list \<Rightarrow> event_log result list" where
  "filter_attribute_specific specific it =
    foldl (\<lambda>it x. case x of FilterMultisigTransactionState state \<Rightarrow>
      filter (keep_event (\<lambda>l. has_multisig_state state (el_content l))) it) it specific"

text \<open>\<open>collect::<Result<Vec<_>, _>>\<close>: the first error, or all values.\<close>

definition collect_results :: "'a result list \<Rightarrow> 'a list result" where
  "collect_results rs = res_fold (\<lambda>r l. res_bind r (\<lambda>x. Ok (l @ [x]))) rs []"

definition module_events_list ::
  "('m, 'v) ext \<Rightarrow> list_args \<Rightarrow> ('m, 'v) ledger_storage \<Rightarrow> (u64 \<times> event_log list) result" where
  "module_events_list E args s =
    (let flt = (case la_filter args of Some f \<Rightarrow> f | None \<Rightarrow> event_filter_default);
         count = (case la_count args of None \<Rightarrow> MAXIMUM_EVENT_COUNT | Some c \<Rightarrow> min (unat c) MAXIMUM_EVENT_COUNT)
     in
     res_bind (nb_events E s) (\<lambda>nb.
     let it = iter_events E (case ef_id_range flt of Some r \<Rightarrow> r | None \<Rightarrow> range_default)
           (case la_order args of Some o' \<Rightarrow> o' | None \<Rightarrow> Indeterminate) s;
         it = map (\<lambda>item. res_bind (from_sum unknown item) (\<lambda>(_, v).
           from_sum deserialization_error (dec (event_codec E) v))) it;
         it = filter_account (ef_account flt) it;
         it = filter_event_kind (ef_kind flt) it;
         it = filter_date (case ef_date_range flt of Some r \<Rightarrow> r | None \<Rightarrow> range_default) it;
         it = filter_attribute_specific (ef_specific flt) it
     in res_bind (collect_results (take count it)) (\<lambda>events. Ok (nb, events))))"

section \<open>What a page contains\<close>

text \<open>The filter as one predicate. The symbol of a filter is not looked at.\<close>

definition event_matches :: "event_filter \<Rightarrow> event_log \<Rightarrow> bool" where
  "event_matches flt l \<longleftrightarrow>
    (\<forall>ids. ef_account flt = Some ids \<longrightarrow> (\<exists>i\<in>set ids. event_log_is_about l i)) \<and>
    (\<forall>k. ef_kind flt = Some k \<longrightarrow> event_log_kind l \<in> set k) \<and>
    (\<forall>r. ef_date_range flt = Some r \<longrightarrow> range_contains r (el_time l)) \<and>
    list_all (\<lambda>x. case x of FilterMultisigTransactionState state \<Rightarrow> has_multisig_state state (el_content l)) (ef_specific flt)"

lemma filter_keep_event: "filter (keep_event p) (map Ok ls) = map Ok (filter p ls)"
  by (induction ls) (simp_all add: keep_event_def)

lemma filter_attribute_specific_Ok:
  "filter_attribute_specific specific (map Ok ls) = map Ok (filter (\<lambda>l. list_all (\<lambda>x. case x of
      FilterMultisigTransactionState state \<Rightarrow> has_multisig_state state (el_content l)) specific) ls)"
proof (induction specific arbitrary: ls)
  case (Cons x specific)
  obtain state where x: "x = FilterMultisigTransactionState state"
    by (cases x)
  have "filter_attribute_specific (x # specific) (map Ok ls) =
      filter_attribute_specific specific (map Ok (filter (\<lambda>l. has_multisig_state state (el_content l)) ls))"
    by (simp add: filter_attribute_specific_def x filter_keep_event)
  then show ?case
    unfolding Cons.IH by (simp add: x)
qed (simp add: filter_attribute_specific_def)

lemma filters_Ok:
  "filter_attribute_specific (ef_specific flt)
     (filter_date (case ef_date_range flt of Some r \<Rightarrow> r | None \<Rightarrow> range_default)
       (filter_event_kind (ef_kind flt) (filter_account (ef_account flt) (map Ok ls)))) = map Ok (filter (event_matches flt) ls)"
proof -
  have "filter_account (ef_account flt) (map Ok ls) =
      map Ok (filter (\<lambda>l. \<forall>ids. ef_account flt = Some ids \<longrightarrow> (\<exists>i\<in>set ids. event_log_is_about l i)) ls)" for ls
    by (simp add: filter_account_def filter_keep_event split: option.splits)
  moreover have "filter_event_kind (ef_kind flt) (map Ok ls) =
      map Ok (filter (\<lambda>l. \<forall>k. ef_kind flt = Some k \<longrightarrow> event_log_kind l \<in> set k) ls)" for ls
    by (simp add: filter_event_kind_def filter_keep_event split: option.splits)
  moreover have "filter_date (case ef_date_range flt of Some r \<Rightarrow> r | None \<Rightarrow> range_default) (map Ok ls) =
      map Ok (filter (\<lambda>l. \<forall>r. ef_date_range flt = Some r \<longrightarrow> range_contains r (el_time l)) ls)" for ls
    by (simp add: filter_date_def filter_keep_event range_contains_def range_default_def split: option.splits)
  ultimately show ?thesis
    by (simp add: filter_attribute_specific_Ok event_matches_def conj_ac cong: filter_cong)
qed

lemma collect_results_Ok: "collect_results (map Ok xs) = Ok xs"
proof -
  have "res_fold (\<lambda>r l. res_bind r (\<lambda>x. Ok (l @ [x]))) (map Ok xs) acc = Ok (acc @ xs)" for acc
    by (induction xs arbitrary: acc) simp_all
  then show ?thesis
    by (simp add: collect_results_def)
qed

text \<open>The range of identifiers of a request, on the identifiers themselves.\<close>

definition id_in_range :: "event_id cbor_range \<Rightarrow> event_id \<Rightarrow> bool" where
  "id_in_range r i \<longleftrightarrow>
    (case range_start r of Included x \<Rightarrow> nat_be x \<le> nat_be i | Excluded x \<Rightarrow> nat_be x < nat_be i | Unbounded \<Rightarrow> True) \<and>
    (case range_end r of Included x \<Rightarrow> nat_be i \<le> nat_be x | Excluded x \<Rightarrow> nat_be i < nat_be x | Unbounded \<Rightarrow> True)"

definition short_range :: "event_id cbor_range \<Rightarrow> bool" where
  "short_range r \<longleftrightarrow> (\<forall>x. range_start r \<in> {Included x, Excluded x} \<or> range_end r \<in> {Included x, Excluded x} \<longrightarrow> length x \<le> 31)"

definition id_bounds :: "('m, 'v) ext \<Rightarrow> event_id cbor_range \<Rightarrow> iter_range" where
  "id_bounds E rng = BoundRange
      (case range_start rng of
         Included x \<Rightarrow> key_for_event x
       | Excluded x \<Rightarrow> key_for_event (event_id_add E x 1)
       | Unbounded \<Rightarrow> EVENTS_ROOT)
      (case range_end rng of
         Included x \<Rightarrow> key_for_event (event_id_add E x 1)
       | Excluded x \<Rightarrow> key_for_event x
       | Unbounded \<Rightarrow> EVENTS_ROOT[length EVENTS_ROOT - 1 := EVENTS_ROOT ! (length EVENTS_ROOT - 1) + 1])"

lemma events_root_bounds:
  "EVENTS_ROOT \<le> key_for_event i" "key_for_event i < EVENTS_ROOT[length EVENTS_ROOT - 1 := EVENTS_ROOT ! (length EVENTS_ROOT - 1) + 1]"
  by (simp_all add: key_for_event_def EVENTS_ROOT_def utf8_def)

lemma event_id_succ:
  assumes "num_laws E" "length x \<le> 31"
  shows "nat_be (event_id_add E x 1) = nat_be x + 1" "length (event_id_add E x 1) \<le> 32"
proof -
  have "nat_be x < 256 ^ 31"
    using nat_be_less [of x] power_increasing [OF assms(2), of "256 :: nat"] by simp
  then have "nat_be x + unat (1 :: u32) < 256 ^ 32"
    by simp
  then show "nat_be (event_id_add E x 1) = nat_be x + 1" "length (event_id_add E x 1) \<le> 32"
    using event_id_add_facts [OF assms(1)] by (metis unat_1, blast)
qed

lemma id_bounds_iff:
  assumes "num_laws E" "short_range rng" "length i \<le> 32"
  shows "in_iter_range (id_bounds E rng) (key_for_event i) \<longleftrightarrow> id_in_range rng i"
proof -
  have le: "key_for_event x \<le> key_for_event i \<longleftrightarrow> nat_be x \<le> nat_be i" if "length x \<le> 32" for x
    using key_for_event_less_iff [OF assms(3) that] by (simp add: linorder_not_less [symmetric])
  have s: "length x \<le> 31" if "range_start rng \<in> {Included x, Excluded x} \<or> range_end rng \<in> {Included x, Excluded x}" for x
    using assms(2) that unfolding short_range_def by blast
  have "(case range_start rng of Included x \<Rightarrow> key_for_event x | Excluded x \<Rightarrow> key_for_event (event_id_add E x 1)
      | Unbounded \<Rightarrow> EVENTS_ROOT) \<le> key_for_event i \<longleftrightarrow>
    (case range_start rng of Included x \<Rightarrow> nat_be x \<le> nat_be i | Excluded x \<Rightarrow> nat_be x < nat_be i | Unbounded \<Rightarrow> True)"
    using s event_id_succ [OF assms(1)] le events_root_bounds(1)
    by (cases "range_start rng") (fastforce simp: Suc_le_eq)+
  moreover have "key_for_event i < (case range_end rng of Included x \<Rightarrow> key_for_event (event_id_add E x 1)
      | Excluded x \<Rightarrow> key_for_event x | Unbounded \<Rightarrow> EVENTS_ROOT[length EVENTS_ROOT - 1 := EVENTS_ROOT ! (length EVENTS_ROOT - 1) + 1]) \<longleftrightarrow>
    (case range_end rng of Included x \<Rightarrow> nat_be i \<le> nat_be x | Excluded x \<Rightarrow> nat_be i < nat_be x | Unbounded \<Rightarrow> True)"
    using s event_id_succ [OF assms(1)] key_for_event_less_iff [OF assms(3)] events_root_bounds(2)
    by (cases "range_end rng") (fastforce simp: less_Suc_eq_le)+
  ultimately show ?thesis
    by (simp add: id_bounds_def in_iter_range.simps id_in_range_def)
qed

text \<open>What is on disk in the range of events: entries that decode, under keys of identifiers.\<close>

definition event_log_wf :: "('m, 'v) ext \<Rightarrow> (bytes \<Rightarrow> 'v option) \<Rightarrow> bool" where
  "event_log_wf E f \<longleftrightarrow> (\<forall>k v. in_iter_range (id_bounds E range_default) k \<longrightarrow> f k = Some v \<longrightarrow>
    (\<exists>i. length i \<le> 32 \<and> k = key_for_event i) \<and> (\<exists>l. dec (event_codec E) v = Inr l))"

lemma id_bounds_default: "in_iter_range (id_bounds E rng) k \<Longrightarrow> in_iter_range (id_bounds E range_default) k"
proof -
  assume k: "in_iter_range (id_bounds E rng) k"
  have lo: "EVENTS_ROOT \<le> (case range_start rng of Included x \<Rightarrow> key_for_event x | Excluded x \<Rightarrow> key_for_event (event_id_add E x 1)
      | Unbounded \<Rightarrow> EVENTS_ROOT)"
    by (cases "range_start rng") (simp_all add: events_root_bounds)
  have hi: "(case range_end rng of Included x \<Rightarrow> key_for_event (event_id_add E x 1) | Excluded x \<Rightarrow> key_for_event x
      | Unbounded \<Rightarrow> EVENTS_ROOT[length EVENTS_ROOT - 1 := EVENTS_ROOT ! (length EVENTS_ROOT - 1) + 1])
    \<le> EVENTS_ROOT[length EVENTS_ROOT - 1 := EVENTS_ROOT ! (length EVENTS_ROOT - 1) + 1]"
    using events_root_bounds(2) by (cases "range_end rng") (simp_all add: less_imp_le)
  show ?thesis
    using k lo hi unfolding id_bounds_def in_iter_range.simps range_default_def by (auto intro: order_trans less_le_trans)
qed

lemma iter_events_decoded:
  assumes "merk_reliable E V C" "event_log_wf E (sv C s)"
  obtains es where
    "map (\<lambda>item. res_bind (from_sum unknown item) (\<lambda>(_, v). from_sum deserialization_error (dec (event_codec E) v)))
       (iter_events E rng o' s) = map Ok (map snd es)"
    "\<forall>k l. (k, l) \<in> set es \<longleftrightarrow>
      in_iter_range (id_bounds E rng) k \<and> (\<exists>v. sv C s k = Some v \<and> dec (event_codec E) v = Inr l)"
proof -
  obtain xs where xs: "merk_iter E (persistent_store s) IterStart (id_bounds E rng) = map Inr xs"
    "merk_iter E (persistent_store s) IterEnd (id_bounds E rng) = map Inr (rev xs)" "keys_sorted xs"
    "\<forall>k. map_of xs k = (if in_iter_range (id_bounds E rng) k then sv C s k else None)"
    using assms(1) unfolding merk_reliable_def by blast
  have "\<exists>ys. iter_events E rng o' s = map Inr ys \<and> set ys = set xs"
    using xs(1,2) by (cases o') (auto simp: iter_events_def events_scoped_by_id_def id_bounds_def [symmetric] order_mode_def)
  then obtain ys where ys: "iter_events E rng o' s = map Inr ys" "set ys = set xs"
    by blast
  have m: "(k, v) \<in> set ys \<longleftrightarrow> in_iter_range (id_bounds E rng) k \<and> sv C s k = Some v" for k v
    using xs(4) map_of_eq_Some_iff [OF keys_sorted_distinct [OF xs(3)], of k v] unfolding ys(2) by (auto split: if_splits)
  have "\<forall>e\<in>set ys. \<exists>l. dec (event_codec E) (snd e) = Inr l"
    using assms(2) m id_bounds_default unfolding event_log_wf_def by fastforce
  then obtain d where d: "\<forall>e\<in>set ys. dec (event_codec E) (snd e) = Inr (d e)"
    using bchoice [of "set ys" "\<lambda>e l. dec (event_codec E) (snd e) = Inr l"] by blast
  show thesis
  proof (rule that [of "map (\<lambda>e. (fst e, d e)) ys"])
    show "map (\<lambda>item. res_bind (from_sum unknown item) (\<lambda>(_, v). from_sum deserialization_error (dec (event_codec E) v)))
       (iter_events E rng o' s) = map Ok (map snd (map (\<lambda>e. (fst e, d e)) ys))"
      unfolding ys(1) using d by auto
    show "\<forall>k l. (k, l) \<in> set (map (\<lambda>e. (fst e, d e)) ys) \<longleftrightarrow>
      in_iter_range (id_bounds E rng) k \<and> (\<exists>v. sv C s k = Some v \<and> dec (event_codec E) v = Inr l)"
    proof (intro allI iffI)
      fix k l assume "(k, l) \<in> set (map (\<lambda>e. (fst e, d e)) ys)"
      then obtain v where "(k, v) \<in> set ys" "l = d (k, v)" by auto
      with d m show "in_iter_range (id_bounds E rng) k \<and> (\<exists>v. sv C s k = Some v \<and> dec (event_codec E) v = Inr l)"
        by fastforce
    next
      fix k l assume "in_iter_range (id_bounds E rng) k \<and> (\<exists>v. sv C s k = Some v \<and> dec (event_codec E) v = Inr l)"
      then obtain v where v: "(k, v) \<in> set ys" "dec (event_codec E) v = Inr l"
        using m by blast
      then have "d (k, v) = l"
        using d by fastforce
      with v(1) show "(k, l) \<in> set (map (\<lambda>e. (fst e, d e)) ys)"
        by force
    qed
  qed
qed


text \<open>A log with one event.\<close>

definition some_event :: event_log where
  "some_event = \<lparr>el_id = [1], el_time = 7, el_content = EvAccountDisable (PublicKey 1)\<rparr>"

definition small_log :: "(mem, stored) ledger_storage" where
  "small_log = ledger_new ([(key_for_event [1], SEvent some_event)], [(key_for_event [1], SEvent some_event)]) True"


end
