(* ===== verification/Idstore.thy ===== *)
theory Idstore
  imports Storage
begin

text \<open>
  The identity store of the ledger, \<open>src/src/many-ledger/src/storage/idstore.rs\<close> and
  \<open>module/idstore.rs\<close>: WebAuthn credentials under a recall phrase and under an address. The phrase is
  made from a counter, the seed.
\<close>

section \<open>Storage\<close>

text \<open>Genesis entries are given in base64; a malformed one is a panic.\<close>

definition decode_entry :: "('m, 'v) ext \<Rightarrow> string \<times> string \<Rightarrow> (bytes, bytes) btree_map \<Rightarrow> (bytes, bytes) btree_map result" where
  "decode_entry E e acc =
    res_bind (unwrap_sum (base64_decode E (fst e))) (\<lambda>k.
    res_bind (unwrap_sum (base64_decode E (snd e))) (\<lambda>v.
    Ok (bt_insert k v acc)))"

definition with_idstore ::
  "('m, 'v) ext \<Rightarrow> u64 option \<Rightarrow> (string, string) btree_map option \<Rightarrow> ('m, 'v, unit) led" where
  "with_idstore E maybe_seed maybe_keys =
    bnd (lift_result (case maybe_keys of None \<Rightarrow> Ok [] | Some keys \<Rightarrow> res_fold (decode_entry E) keys [])) (\<lambda>keys.
    bnd (case maybe_seed of
        None \<Rightarrow> ret ()
      | Some seed \<Rightarrow> store_apply E storage_apply_failed [(IDSTORE_SEED_ROOT, put_bytes E (u64_to_be_bytes seed))]) (\<lambda>_.
    for_each (\<lambda>(k, v) _. store_apply E storage_apply_failed [(k, put_bytes E v)]) keys ()))"

definition inc_idstore_seed :: "('m, 'v) ext \<Rightarrow> ('m, 'v, u64) led" where
  "inc_idstore_seed E =
    bnd (query (store_get E storage_get_failed IDSTORE_SEED_ROOT)) (\<lambda>x.
    bnd (lift_result (case x of None \<Rightarrow> Ok 0 | Some v \<Rightarrow> read_u64 (val_bytes E v))) (\<lambda>idstore_seed.
    bnd (store_apply E storage_apply_failed [(IDSTORE_SEED_ROOT, put_bytes E (u64_to_be_bytes (idstore_seed + 1)))]) (\<lambda>_.
    bnd (maybe_commit E) (\<lambda>_.
    ret idstore_seed))))"

definition idstore_store ::
  "('m, 'v) ext \<Rightarrow> string list \<Rightarrow> address \<Rightarrow> bytes \<Rightarrow> bytes \<Rightarrow> ('m, 'v, bytes list) led" where
  "idstore_store E recall_phrase address cred_id public_key =
    bnd (lift_result (from_sum serialization_error (recall_phrase_cbor E recall_phrase))) (\<lambda>phrase.
    bnd (query (store_get E storage_get_failed phrase)) (\<lambda>x.
    bnd (fail_if (x \<noteq> None) existing_entry) (\<lambda>_.
    bnd (lift_result (from_sum serialization_error
          (enc (credential_codec E) \<lparr>cs_cred_id = cred_id, cs_public_key = public_key\<rparr>))) (\<lambda>v.
    bnd (store_apply E storage_apply_failed
          [(idstore_key SepRecallPhrase phrase, Put v), (idstore_key SepAddress (to_vec address), Put v)]) (\<lambda>_.
    bnd (maybe_commit E) (\<lambda>_.
    ret [phrase, idstore_key SepRecallPhrase phrase, idstore_key SepAddress (to_vec address)]))))))"

definition get_from_storage ::
  "('m, 'v) ext \<Rightarrow> bytes \<Rightarrow> id_store_root_separator \<Rightarrow> ('m, 'v) ledger_storage \<Rightarrow> ('v option \<times> bytes) result" where
  "get_from_storage E k sep s =
    res_bind (store_get E storage_get_failed (idstore_key sep k) s) (\<lambda>x. Ok (x, idstore_key sep k))"

text \<open>\<open>recall_phrase.join(" ")\<close>.\<close>

fun join_words :: "string list \<Rightarrow> string" where
  "join_words [] = []"
| "join_words [w] = w"
| "join_words (w # v # ws) = w @ '' '' @ join_words (v # ws)"

definition get_from_recall_phrase ::
  "('m, 'v) ext \<Rightarrow> string list \<Rightarrow> ('m, 'v) ledger_storage \<Rightarrow> (bytes \<times> bytes \<times> bytes) result" where
  "get_from_recall_phrase E recall_phrase s =
    res_bind (from_sum serialization_error (recall_phrase_cbor E recall_phrase)) (\<lambda>phrase.
    res_bind (get_from_storage E phrase SepRecallPhrase s) (\<lambda>(x, storage_key).
    case x of
      Some v \<Rightarrow> res_bind (from_sum deserialization_error (dec (credential_codec E) v)) (\<lambda>c.
        Ok (cs_cred_id c, cs_public_key c, storage_key))
    | None \<Rightarrow> Err (entry_not_found (join_words recall_phrase))))"

definition get_from_address ::
  "('m, 'v) ext \<Rightarrow> address \<Rightarrow> ('m, 'v) ledger_storage \<Rightarrow> (bytes \<times> bytes \<times> bytes) result" where
  "get_from_address E address s =
    res_bind (get_from_storage E (to_vec address) SepAddress s) (\<lambda>(x, storage_key).
    case x of
      Some v \<Rightarrow> res_bind (from_sum deserialization_error (dec (credential_codec E) v)) (\<lambda>c.
        Ok (cs_cred_id c, cs_public_key c, storage_key))
    | None \<Rightarrow> Err (entry_not_found (to_string E address)))"

section \<open>Recall phrases\<close>

text \<open>
  Third-party code of the module: \<open>bip39_dict\<close>, which makes \<open>w\<close> words from a slice and returns nothing
  when the slice does not have the length that goes with \<open>w\<close>, \<open>CoseKey::from_slice\<close>, and \<open>hex::encode\<close>.
\<close>

record id_ext =
  mnemonic :: "nat \<Rightarrow> bytes \<Rightarrow> string list option"
  cose_key_check :: "bytes \<Rightarrow> string + unit"
  id_hex :: "bytes \<Rightarrow> string"

definition generate_recall_phrase :: "id_ext \<Rightarrow> nat \<Rightarrow> bytes \<Rightarrow> string list result" where
  "generate_recall_phrase X w seed = ok_or (unknown ''Unable to generate entropy'') (mnemonic X w seed)"

definition phrase_of_seed :: "id_ext \<Rightarrow> u64 \<Rightarrow> string list result" where
  "phrase_of_seed X seed =
    (if seed \<le> 0xFFFF then generate_recall_phrase X 2 (drop 6 (u64_to_be_bytes seed))
     else if seed \<le> 0xFFFFFF then generate_recall_phrase X 3 (drop 4 (u64_to_be_bytes seed))
     else if seed \<le> 0xFFFFFFFF then generate_recall_phrase X 4 (drop 3 (u64_to_be_bytes seed))
     else if seed \<le> 0xFFFFFFFFFF then generate_recall_phrase X 5 (drop 2 (u64_to_be_bytes seed))
     else Panic ''not implemented'')"

text \<open>The loop of \<open>store\<close>, with the number of tries that are left.\<close>

primrec unused_phrase :: "('m, 'v) ext \<Rightarrow> id_ext \<Rightarrow> nat \<Rightarrow> ('m, 'v, string list) led" where
  "unused_phrase E X 0 = fail recall_phrase_generation_failed"
| "unused_phrase E X (Suc tries) =
    bnd (inc_idstore_seed E) (\<lambda>seed.
    bnd (lift_result (phrase_of_seed X seed)) (\<lambda>recall_phrase.
    bnd (attempt (query (get_from_recall_phrase E recall_phrase))) (\<lambda>r.
    case r of Inr _ \<Rightarrow> unused_phrase E X tries | Inl _ \<Rightarrow> ret recall_phrase)))"

record store_args =
  sa_address :: address
  sa_cred_id :: bytes
  sa_public_key :: bytes

definition module_store :: "('m, 'v) ext \<Rightarrow> id_ext \<Rightarrow> address \<Rightarrow> store_args \<Rightarrow> ('m, 'v, string list) led" where
  "module_store E X sender args =
    bnd (fail_if (is_anonymous sender) invalid_identity) (\<lambda>_.
    bnd (fail_if (\<not> is_public_key (sa_address args)) (invalid_address (to_string E (sa_address args)))) (\<lambda>_.
    bnd (fail_if (\<not> (16 \<le> length (sa_cred_id args) \<and> length (sa_cred_id args) \<le> 1023))
          (invalid_credential_id (id_hex X (sa_cred_id args)))) (\<lambda>_.
    bnd (lift_result (from_sum deserialization_error (cose_key_check X (sa_public_key args)))) (\<lambda>_.
    bnd (unused_phrase E X 8) (\<lambda>recall_phrase.
    bnd (idstore_store E recall_phrase (sa_address args) (sa_cred_id args) (sa_public_key args)) (\<lambda>_.
    ret recall_phrase))))))"

section \<open>Phrases of different seeds\<close>

text \<open>What \<open>bip39_dict\<close> documents: a phrase for every slice of the right length, of the right number of words,
  different for different slices.\<close>

definition mnemonic_laws :: "id_ext \<Rightarrow> bool" where
  "mnemonic_laws X \<longleftrightarrow>
    (\<forall>(w, n)\<in>{(2, 2), (3, 4), (4, 5), (5, 6)}. \<forall>b. length b = n \<longrightarrow>
      (\<exists>p. mnemonic X w b = Some p \<and> length p = w) \<and> (\<forall>b'. length b' = n \<longrightarrow> mnemonic X w b = mnemonic X w b' \<longrightarrow> b = b'))"

lemma nat_be_drop_zeros:
  assumes "nat_be b < 256 ^ (length b - k)" "k \<le> length b"
  shows "nat_be (drop k b) = nat_be b"
proof -
  have "nat_be b = nat_be (take k b) * 256 ^ (length b - k) + nat_be (drop k b)"
    using nat_be_append [of "take k b" "drop k b"] by simp
  moreover have "nat_be (take k b) = 0"
  proof (rule ccontr)
    assume "nat_be (take k b) \<noteq> 0"
    then have "256 ^ (length b - k) \<le> nat_be (take k b) * 256 ^ (length b - k)" by simp
    then show False
      using calculation assms(1) by linarith
  qed
  ultimately show ?thesis
    by simp
qed

lemma phrase_of_seed_cases:
  assumes "mnemonic_laws X" "seed \<le> 0xFFFFFFFFFF"
  obtains w k p where "(w, k) \<in> {(2, 6), (3, 4), (4, 3), (5, 2)}" "unat seed < 256 ^ (8 - k)" "length p = w"
    "phrase_of_seed X seed = Ok p" "mnemonic X w (drop k (u64_to_be_bytes seed)) = Some p"
proof -
  note goal = that
  have le: "seed \<le> 0xFFFF \<longleftrightarrow> unat seed < 256 ^ (8 - 6)" "seed \<le> 0xFFFFFF \<longrightarrow> unat seed < 256 ^ (8 - 4)"
    "seed \<le> 0xFFFFFFFF \<longrightarrow> unat seed < 256 ^ (8 - 3)" "unat seed < 256 ^ (8 - 2)"
    using assms(2) by (auto simp: word_le_nat_alt)
  have mn: "\<exists>p. mnemonic X w (drop k (u64_to_be_bytes seed)) = Some p \<and> length p = w" if "(w, k) \<in> {(2, 6), (3, 4), (4, 3), (5, 2)}" for w k
    using assms(1) that unfolding mnemonic_laws_def by auto
  have ok: thesis if g: "phrase_of_seed X seed = generate_recall_phrase X w (drop k (u64_to_be_bytes seed))"
    "(w, k) \<in> {(2, 6), (3, 4), (4, 3), (5, 2)}" "unat seed < 256 ^ (8 - k)" for w k
  proof -
    obtain p where p: "mnemonic X w (drop k (u64_to_be_bytes seed)) = Some p" "length p = w"
      using mn [OF g(2)] by blast
    show thesis
      by (rule goal [OF g(2,3) p(2) _ p(1)]) (simp add: g(1) generate_recall_phrase_def ok_or_def p(1))
  qed
  show thesis
  proof (cases "seed \<le> 0xFFFF")
    case True
    show thesis
      by (rule ok [of 2 6]) (use True le in \<open>simp_all add: phrase_of_seed_def\<close>)
  next
    case a: False
    show thesis
    proof (cases "seed \<le> 0xFFFFFF")
      case True
      show thesis
        by (rule ok [of 3 4]) (use a True le in \<open>simp_all add: phrase_of_seed_def\<close>)
    next
      case b: False
      show thesis
      proof (cases "seed \<le> 0xFFFFFFFF")
        case True
        show thesis
          by (rule ok [of 4 3]) (use a b True le in \<open>simp_all add: phrase_of_seed_def\<close>)
      next
        case c: False
        show thesis
          by (rule ok [of 5 2]) (use a b c le assms(2) in \<open>simp_all add: phrase_of_seed_def\<close>)
      qed
    qed
  qed
qed

lemma phrase_of_seed_inject:
  assumes "mnemonic_laws X" "m \<le> 0xFFFFFFFFFF" "n \<le> 0xFFFFFFFFFF" "phrase_of_seed X m = phrase_of_seed X n"
  shows "m = n"
proof -
  obtain w k p where m: "(w, k) \<in> {(2, 6), (3, 4), (4, 3), (5, 2)}" "unat m < 256 ^ (8 - k)" "length p = w"
    "phrase_of_seed X m = Ok p" "mnemonic X w (drop k (u64_to_be_bytes m)) = Some p"
    by (rule phrase_of_seed_cases [OF assms(1,2)])
  obtain w' k' p' where n: "(w', k') \<in> {(2, 6), (3, 4), (4, 3), (5, 2)}" "unat n < 256 ^ (8 - k')" "length p' = w'"
    "phrase_of_seed X n = Ok p'" "mnemonic X w' (drop k' (u64_to_be_bytes n)) = Some p'"
    by (rule phrase_of_seed_cases [OF assms(1,3)])
  have same: "w' = w" "k' = k" "p' = p"
    using m(1,3,4) n(1,3,4) assms(4) by auto
  have "(w, 8 - k) \<in> {(2, 2), (3, 4), (4, 5), (5, 6)}" "k \<le> 8"
    using m(1) by auto
  then have "drop k (u64_to_be_bytes m) = drop k (u64_to_be_bytes n)"
    using assms(1) m(5) n(5) same unfolding mnemonic_laws_def by fastforce
  then have "nat_be (u64_to_be_bytes m) = nat_be (u64_to_be_bytes n)"
    using nat_be_drop_zeros [of "u64_to_be_bytes m" k] nat_be_drop_zeros [of "u64_to_be_bytes n" k] m(2) n(2) same(2) \<open>k \<le> 8\<close>
    by (simp add: nat_be_u64 word_unat_eq_iff)
  then show ?thesis
    by (simp add: nat_be_u64 word_unat_eq_iff)
qed

section \<open>Entries\<close>

text \<open>
  What \<open>minicbor\<close> documents of the encoding of a phrase, an array of strings: it always succeeds, it is
  injective, and its first byte has the major type of arrays.
\<close>

definition phrase_cbor_laws :: "('m, 'v) ext \<Rightarrow> bool" where
  "phrase_cbor_laws E \<longleftrightarrow>
    (\<forall>p. \<exists>b. recall_phrase_cbor E p = Inr b \<and> b \<noteq> [] \<and> 0x80 \<le> hd b) \<and>
    (\<forall>p q. recall_phrase_cbor E p = recall_phrase_cbor E q \<longrightarrow> p = q)"

abbreviation seed_of :: "('m, 'v) ext \<Rightarrow> ('m \<Rightarrow> bytes \<Rightarrow> 'v option) \<Rightarrow> ('m, 'v) ledger_storage \<Rightarrow> u64" where
  "seed_of E V s \<equiv> u64_at E IDSTORE_SEED_ROOT (sv V s)"

text \<open>The entries of the store: phrases of seeds that have been used, and nothing under a bare phrase.\<close>

definition idstore_inv ::
  "('m, 'v) ext \<Rightarrow> id_ext \<Rightarrow> ('m \<Rightarrow> bytes \<Rightarrow> 'v option) \<Rightarrow> ('m, 'v) ledger_storage \<Rightarrow> bool" where
  "idstore_inv E X V s \<longleftrightarrow>
    u64_slot E IDSTORE_SEED_ROOT (sv V s) \<and>
    (\<forall>p b. recall_phrase_cbor E p = Inr b \<longrightarrow> sv V s b = None \<and>
      (sv V s (idstore_key SepRecallPhrase b) \<noteq> None \<longrightarrow> (\<exists>m < seed_of E V s. phrase_of_seed X m = Ok p)))"

lemma phrase_not_key:
  assumes "phrase_cbor_laws E" "recall_phrase_cbor E p = Inr b"
  shows "b \<noteq> IDSTORE_SEED_ROOT" "b \<noteq> idstore_key sep k"
proof -
  have "0x80 \<le> hd b"
    using assms unfolding phrase_cbor_laws_def by (metis sum.inject(2))
  then show "b \<noteq> IDSTORE_SEED_ROOT" "b \<noteq> idstore_key sep k"
    by (auto simp: key_defs utf8_Cons)
qed

lemma inc_idstore_seed_Ok:
  assumes "merk_laws E V C" "inc_idstore_seed E s = (Ok n, t)"
  shows "n = seed_of E V s" "ctx t = ctx s" "latest_tid t = latest_tid s"
    "sv V t = (sv V s)(IDSTORE_SEED_ROOT := Some (val_of_bytes E (u64_to_be_bytes (n + 1))))"
proof -
  obtain x s1 where x: "store_get E storage_get_failed IDSTORE_SEED_ROOT s = Ok x"
    "(case x of None \<Rightarrow> Ok 0 | Some v \<Rightarrow> read_u64 (val_bytes E v)) = Ok n"
    and a: "store_apply E storage_apply_failed [(IDSTORE_SEED_ROOT, put_bytes E (u64_to_be_bytes (n + 1)))] s = (Ok (), s1)"
    and c: "maybe_commit E s1 = (Ok (), t)"
    using assms(2) by (auto simp: inc_idstore_seed_def act_simps)
  show "n = seed_of E V s"
    using x store_get_Ok [OF assms(1) x(1)] by (auto simp: u64_at_def read_u64_Ok split: option.splits)
  show "sv V t = (sv V s)(IDSTORE_SEED_ROOT := Some (val_of_bytes E (u64_to_be_bytes (n + 1))))"
    "ctx t = ctx s" "latest_tid t = latest_tid s"
    using store_apply_Ok [OF assms(1) a] maybe_commit_Ok [OF assms(1) c] by (simp_all add: put_bytes_def)
qed

lemma inc_idstore_seed_reliable:
  assumes "merk_reliable E V C" "u64_slot E IDSTORE_SEED_ROOT (sv V s)"
  obtains t where "inc_idstore_seed E s = (Ok (seed_of E V s), t)"
proof -
  have n: "(case sv V s IDSTORE_SEED_ROOT of None \<Rightarrow> Ok 0 | Some v \<Rightarrow> read_u64 (val_bytes E v)) = Ok (seed_of E V s)"
    using assms(2) by (auto simp: u64_slot_def u64_at_def read_u64_def split: option.splits)
  obtain s1 where s1: "store_apply E storage_apply_failed
      [(IDSTORE_SEED_ROOT, put_bytes E (u64_to_be_bytes (seed_of E V s + 1)))] s = (Ok (), s1)"
    by (rule store_apply_reliable [OF assms(1)]) (auto simp: put_bytes_def)
  obtain t where t: "maybe_commit E s1 = (Ok (), t)"
    by (rule maybe_commit_reliable [OF assms(1)])
  have "inc_idstore_seed E s = (Ok (seed_of E V s), t)"
    unfolding inc_idstore_seed_def
    by (simp add: bnd_def query_def lift_result_def ret_def store_get_reliable [OF assms(1)] n s1 t)
  then show thesis by (rule that)
qed

lemma idstore_store_Ok:
  assumes "merk_laws E V C" "idstore_store E p a c k s = (Ok ks, t)"
  obtains b v where "recall_phrase_cbor E p = Inr b" "sv V s b = None"
    "enc (credential_codec E) \<lparr>cs_cred_id = c, cs_public_key = k\<rparr> = Inr v" "ctx t = ctx s"
    "sv V t = (sv V s)(idstore_key SepRecallPhrase b := Some v, idstore_key SepAddress (to_vec a) := Some v)"
proof -
  obtain b v s1 where b: "recall_phrase_cbor E p = Inr b" "store_get E storage_get_failed b s = Ok None"
    and v: "enc (credential_codec E) \<lparr>cs_cred_id = c, cs_public_key = k\<rparr> = Inr v"
    and ap: "store_apply E storage_apply_failed
        [(idstore_key SepRecallPhrase b, Put v), (idstore_key SepAddress (to_vec a), Put v)] s = (Ok (), s1)"
    and co: "maybe_commit E s1 = (Ok (), t)"
    using assms(2) by (auto simp: idstore_store_def act_simps)
  show thesis
    using that [OF b(1) _ v] store_get_Ok [OF assms(1) b(2)] store_apply_Ok [OF assms(1) ap] maybe_commit_Ok [OF assms(1) co]
    by simp
qed

lemma idstore_store_reliable:
  assumes "merk_reliable E V C" "codec_total (credential_codec E)" "recall_phrase_cbor E p = Inr b" "sv V s b = None"
  obtains t where "idstore_store E p a c k s =
    (Ok [b, idstore_key SepRecallPhrase b, idstore_key SepAddress (to_vec a)], t)"
proof -
  obtain v where v: "enc (credential_codec E) \<lparr>cs_cred_id = c, cs_public_key = k\<rparr> = Inr v"
    using assms(2) by (auto simp: codec_total_def)
  obtain s1 where s1: "store_apply E storage_apply_failed
      [(idstore_key SepRecallPhrase b, Put v), (idstore_key SepAddress (to_vec a), Put v)] s = (Ok (), s1)"
    by (rule store_apply_reliable [OF assms(1)]) auto
  obtain t where t: "maybe_commit E s1 = (Ok (), t)"
    by (rule maybe_commit_reliable [OF assms(1)])
  show thesis
    by (rule that) (simp add: idstore_store_def bnd_def query_def lift_result_def fail_if_def ret_def
        store_get_reliable [OF assms(1)] assms(3,4) v s1 t)
qed

text \<open>Lookups of a stored credential.\<close>

lemma get_credential:
  assumes "merk_reliable E V C" "codec_ok (credential_codec E)"
    and "enc (credential_codec E) \<lparr>cs_cred_id = c, cs_public_key = k\<rparr> = Inr v"
  shows "recall_phrase_cbor E p = Inr b \<Longrightarrow> sv V s (idstore_key SepRecallPhrase b) = Some v \<Longrightarrow>
      get_from_recall_phrase E p s = Ok (c, k, idstore_key SepRecallPhrase b)"
    and "sv V s (idstore_key SepAddress (to_vec a)) = Some v \<Longrightarrow>
      get_from_address E a s = Ok (c, k, idstore_key SepAddress (to_vec a))"
proof -
  have "dec (credential_codec E) v = Inr \<lparr>cs_cred_id = c, cs_public_key = k\<rparr>"
    using assms(2,3) by (auto simp: codec_ok_def)
  then show "recall_phrase_cbor E p = Inr b \<Longrightarrow> sv V s (idstore_key SepRecallPhrase b) = Some v \<Longrightarrow>
      get_from_recall_phrase E p s = Ok (c, k, idstore_key SepRecallPhrase b)"
    and "sv V s (idstore_key SepAddress (to_vec a)) = Some v \<Longrightarrow>
      get_from_address E a s = Ok (c, k, idstore_key SepAddress (to_vec a))"
    by (simp_all add: get_from_recall_phrase_def get_from_address_def get_from_storage_def store_get_reliable [OF assms(1)])
qed

lemma unused_phrase_first:
  assumes "merk_laws E V C" "merk_reliable E V C" "phrase_cbor_laws E" "mnemonic_laws X"
    and "idstore_inv E X V s" "seed_of E V s \<le> 0xFFFFFFFFFF"
  obtains p b t where "unused_phrase E X (Suc n) s = (Ok p, t)" "phrase_of_seed X (seed_of E V s) = Ok p"
    "recall_phrase_cbor E p = Inr b" "sv V s b = None"
    "sv V t = (sv V s)(IDSTORE_SEED_ROOT := Some (val_of_bytes E (u64_to_be_bytes (seed_of E V s + 1))))"
proof -
  obtain t where t: "inc_idstore_seed E s = (Ok (seed_of E V s), t)"
    by (rule inc_idstore_seed_reliable [OF assms(2), of s]) (use assms(5) in \<open>simp add: idstore_inv_def\<close>)
  note v = inc_idstore_seed_Ok(4) [OF assms(1) t]
  obtain p where p: "phrase_of_seed X (seed_of E V s) = Ok p"
    by (rule phrase_of_seed_cases [OF assms(4,6)]) (rule that)
  obtain b where b: "recall_phrase_cbor E p = Inr b"
    using assms(3) unfolding phrase_cbor_laws_def by blast
  have "sv V s (idstore_key SepRecallPhrase b) = None"
  proof (rule ccontr)
    assume "sv V s (idstore_key SepRecallPhrase b) \<noteq> None"
    then obtain m where m: "m < seed_of E V s" "phrase_of_seed X m = Ok p"
      using assms(5) b unfolding idstore_inv_def by blast
    then have "m = seed_of E V s"
      by (intro phrase_of_seed_inject [OF assms(4) _ assms(6)]) (use assms(6) p in auto)
    with m(1) show False by simp
  qed
  then have "get_from_recall_phrase E p t = Err (entry_not_found (join_words p))"
    by (simp add: get_from_recall_phrase_def get_from_storage_def store_get_reliable [OF assms(2)] b v)
  then have "unused_phrase E X (Suc n) s = (Ok p, t)"
    by (simp add: bnd_def query_def lift_result_def attempt_def ret_def t p)
  moreover have "sv V s b = None"
    using assms(5) b unfolding idstore_inv_def by blast
  ultimately show thesis
    using that p b v by blast
qed

lemma idstore_inv_step:
  assumes "merk_laws E V C" "phrase_cbor_laws E" "idstore_inv E X V s" "seed_of E V s \<le> 0xFFFFFFFFFF"
    and "phrase_of_seed X (seed_of E V s) = Ok p" "recall_phrase_cbor E p = Inr b"
    and t: "sv V t = (sv V s)(IDSTORE_SEED_ROOT := Some (val_of_bytes E (u64_to_be_bytes (seed_of E V s + 1))),
      idstore_key SepRecallPhrase b := Some v, idstore_key SepAddress a := Some v)"
  shows "idstore_inv E X V t \<and> seed_of E V t = seed_of E V s + 1"
proof -
  have seed: "seed_of E V t = seed_of E V s + 1"
    by (simp add: t u64_at_def merk_laws_val [OF assms(1)])
  have less: "seed_of E V s < seed_of E V s + 1"
    using assms(4) by (simp add: word_less_nat_alt word_le_nat_alt unat_word_ariths)
  have "\<exists>m < seed_of E V t. phrase_of_seed X m = Ok q"
    if d: "recall_phrase_cbor E q = Inr d" "sv V t (idstore_key SepRecallPhrase d) \<noteq> None" for q d
  proof (cases "d = b")
    case True
    then have "q = p"
      using assms(2,6) d(1) unfolding phrase_cbor_laws_def by metis
    with less seed assms(5) show ?thesis by auto
  next
    case False
    then obtain m where "m < seed_of E V s" "phrase_of_seed X m = Ok q"
      using assms(3) d unfolding idstore_inv_def by (auto simp: t)
    with less seed show ?thesis by (metis less_trans)
  qed
  moreover have "sv V t d = None" if "recall_phrase_cbor E q = Inr d" for q d
    using phrase_not_key [OF assms(2) that] assms(3) that by (auto simp: t idstore_inv_def)
  moreover have "u64_slot E IDSTORE_SEED_ROOT (sv V t)"
    by (simp add: t u64_slot_def merk_laws_val [OF assms(1)])
  ultimately show ?thesis
    using seed unfolding idstore_inv_def by blast
qed

lemma module_store_reliable:
  assumes "merk_laws E V C" "merk_reliable E V C" "codec_total (credential_codec E)"
    and "phrase_cbor_laws E" "mnemonic_laws X" "idstore_inv E X V s" "seed_of E V s \<le> 0xFFFFFFFFFF"
    and "\<not> is_anonymous sender" "is_public_key (sa_address args)"
    and "16 \<le> length (sa_cred_id args)" "length (sa_cred_id args) \<le> 1023"
    and "cose_key_check X (sa_public_key args) = Inr ()"
  obtains p b v t where "module_store E X sender args s = (Ok p, t)" "phrase_of_seed X (seed_of E V s) = Ok p"
    "recall_phrase_cbor E p = Inr b"
    "enc (credential_codec E) \<lparr>cs_cred_id = sa_cred_id args, cs_public_key = sa_public_key args\<rparr> = Inr v"
    "sv V t = (sv V s)(IDSTORE_SEED_ROOT := Some (val_of_bytes E (u64_to_be_bytes (seed_of E V s + 1))),
      idstore_key SepRecallPhrase b := Some v, idstore_key SepAddress (to_vec (sa_address args)) := Some v)"
proof -
  obtain p b s1 where p: "unused_phrase E X 8 s = (Ok p, s1)" "phrase_of_seed X (seed_of E V s) = Ok p"
    "recall_phrase_cbor E p = Inr b" "sv V s b = None"
    "sv V s1 = (sv V s)(IDSTORE_SEED_ROOT := Some (val_of_bytes E (u64_to_be_bytes (seed_of E V s + 1))))"
    by (rule unused_phrase_first [OF assms(1,2,4-7), of 7]) (simp add: numeral_eq_Suc)
  have "sv V s1 b = None"
    using p(4) phrase_not_key(1) [OF assms(4) p(3)] by (simp add: p(5))
  then obtain t where t: "idstore_store E p (sa_address args) (sa_cred_id args) (sa_public_key args) s1 =
      (Ok [b, idstore_key SepRecallPhrase b, idstore_key SepAddress (to_vec (sa_address args))], t)"
    by (rule idstore_store_reliable [OF assms(2,3) p(3)])
  obtain v where v: "enc (credential_codec E) \<lparr>cs_cred_id = sa_cred_id args, cs_public_key = sa_public_key args\<rparr> = Inr v"
    "sv V t = (sv V s1)(idstore_key SepRecallPhrase b := Some v, idstore_key SepAddress (to_vec (sa_address args)) := Some v)"
    by (rule idstore_store_Ok [OF assms(1) t]) (use p(3) in auto)
  have "module_store E X sender args s = (Ok p, t)"
    by (simp add: module_store_def bnd_def fail_if_def ret_def lift_result_def assms(8-12) p(1) t)
  then show thesis
    using that [OF _ p(2,3) v(1)] v(2) p(5) by simp
qed


text \<open>An instance of the third-party functions: the bytes as one word, followed by empty words.\<close>

definition plain_id_ext :: id_ext where
  "plain_id_ext = \<lparr>mnemonic = (\<lambda>w b. if (w, length b) \<in> {(2, 2), (3, 4), (4, 5), (5, 6)}
       then Some (map (\<lambda>x. char_of (unat x)) b # replicate (w - 1) []) else None),
     cose_key_check = (\<lambda>_. Inr ()), id_hex = (\<lambda>b. map (\<lambda>x. char_of (unat x)) b)\<rparr>"

lemma char_of_u8_inject: "(char_of (unat x) :: char) = char_of (unat y) \<longleftrightarrow> x = y" for x y :: u8
proof -
  have "of_char (char_of (unat z) :: char) = unat z" for z :: u8
    using unsigned_less [of z, where 'a = nat] by (simp add: of_char_of)
  then show ?thesis
    by (metis word_unat_eq_iff)
qed

lemma plain_mnemonic_laws: "mnemonic_laws plain_id_ext"
proof -
  have "map (\<lambda>x. char_of (unat x) :: char) b = map (\<lambda>x. char_of (unat x)) b' \<longleftrightarrow> b = b'" for b b' :: bytes
    by (rule inj_map_eq_map) (rule injI, simp only: char_of_u8_inject)
  then show ?thesis
    by (auto simp: mnemonic_laws_def plain_id_ext_def)
qed

lemma mem_phrase_cbor_laws: "phrase_cbor_laws mem_ext"
  using words_bytes_inject by (auto simp: phrase_cbor_laws_def)

definition some_credential :: store_args where
  "some_credential = \<lparr>sa_address = PublicKey 1, sa_cred_id = replicate 16 7, sa_public_key = [1, 2, 3]\<rparr>"

lemma empty_idstore:
  "idstore_inv mem_ext plain_id_ext mem_view empty_ledger" "seed_of mem_ext mem_view empty_ledger = 0"
  by (simp_all add: idstore_inv_def empty_ledger_def ledger_new_def u64_slot_def u64_at_def)


section \<open>What storing a credential leaves alone\<close>

lemma unused_phrase_Ok:
  assumes "merk_laws E V C"
  shows "unused_phrase E X n s = (Ok p, t) \<Longrightarrow> (\<forall>k. k \<noteq> IDSTORE_SEED_ROOT \<longrightarrow> sv V t k = sv V s k) \<and>
    (\<exists>e. get_from_recall_phrase E p t = Err e)"
proof (induction n arbitrary: s)
  case (Suc n)
  consider (free) m e where "inc_idstore_seed E s = (Ok m, t)" "get_from_recall_phrase E p t = Err e"
    | (again) m s1 where "inc_idstore_seed E s = (Ok m, s1)" "unused_phrase E X n s1 = (Ok p, t)"
    using Suc.prems by (auto simp: act_simps query_def)
  then show ?case
  proof cases
    case free
    then show ?thesis
      using inc_idstore_seed_Ok(4) [OF assms free(1)] by simp
  next
    case again
    then show ?thesis
      using inc_idstore_seed_Ok(4) [OF assms again(1)] Suc.IH [OF again(2)] by simp
  qed
qed (simp add: act_simps)

text \<open>The empty store after one request.\<close>

lemma one_credential:
  obtains p b t where "module_store mem_ext plain_id_ext (PublicKey 2) some_credential empty_ledger = (Ok p, t)"
    "recall_phrase_cbor mem_ext p = Inr b" "idstore_inv mem_ext plain_id_ext mem_view t"
    "get_from_recall_phrase mem_ext p t = Ok (replicate 16 7, [1, 2, 3], idstore_key SepRecallPhrase b)"
proof -
  have pre: "seed_of mem_ext mem_view empty_ledger \<le> 0xFFFFFFFFFF" "\<not> is_anonymous (PublicKey 2)"
    "is_public_key (sa_address some_credential)" "16 \<le> length (sa_cred_id some_credential)"
    "length (sa_cred_id some_credential) \<le> 1023" "cose_key_check plain_id_ext (sa_public_key some_credential) = Inr ()"
    by (simp_all add: empty_idstore some_credential_def plain_id_ext_def)
  obtain p b v t where p: "module_store mem_ext plain_id_ext (PublicKey 2) some_credential empty_ledger = (Ok p, t)"
    "phrase_of_seed plain_id_ext (seed_of mem_ext mem_view empty_ledger) = Ok p" "recall_phrase_cbor mem_ext p = Inr b"
    "enc (credential_codec mem_ext) \<lparr>cs_cred_id = sa_cred_id some_credential, cs_public_key = sa_public_key some_credential\<rparr> = Inr v"
    "sv mem_view t = (sv mem_view empty_ledger)(IDSTORE_SEED_ROOT :=
        Some (val_of_bytes mem_ext (u64_to_be_bytes (seed_of mem_ext mem_view empty_ledger + 1))),
      idstore_key SepRecallPhrase b := Some v, idstore_key SepAddress (to_vec (sa_address some_credential)) := Some v)"
    by (rule module_store_reliable [OF mem_laws mem_reliable mem_codecs_total(9) mem_phrase_cbor_laws plain_mnemonic_laws
          empty_idstore(1) pre])
  have "idstore_inv mem_ext plain_id_ext mem_view t"
    using idstore_inv_step [OF mem_laws mem_phrase_cbor_laws empty_idstore(1) pre(1) p(2,3,5)] by simp
  moreover have "get_from_recall_phrase mem_ext p t =
      Ok (sa_cred_id some_credential, sa_public_key some_credential, idstore_key SepRecallPhrase b)"
    by (rule get_credential(1) [OF mem_reliable mem_codecs_ok(9) p(4,3)]) (simp add: p(5))
  ultimately show thesis
    using that p(1,3) by (simp add: some_credential_def)
qed

text \<open>C33: Storing a credential never replaces one that can be read under the new phrase, and changes the
  entry of the phrase, the entry of the address and the seed only. The entry of the address is replaced
  whatever it was and whoever sends the request.\<close>

theorem store_credential_effect:
  assumes "merk_laws E V C" "merk_reliable E V C"
    and "module_store E X sender args s = (Ok p, t)" "recall_phrase_cbor E p = Inr b"
  shows "\<exists>v. enc (credential_codec E) \<lparr>cs_cred_id = sa_cred_id args, cs_public_key = sa_public_key args\<rparr> = Inr v \<and>
    (\<forall>old c. sv V s (idstore_key SepRecallPhrase b) = Some old \<longrightarrow> dec (credential_codec E) old \<noteq> Inr c) \<and>
    sv V t (idstore_key SepRecallPhrase b) = Some v \<and>
    sv V t (idstore_key SepAddress (to_vec (sa_address args))) = Some v \<and>
    (\<forall>k. k \<notin> {idstore_key SepRecallPhrase b, idstore_key SepAddress (to_vec (sa_address args)), IDSTORE_SEED_ROOT} \<longrightarrow>
      sv V t k = sv V s k)"
proof -
  obtain s1 ks where u: "unused_phrase E X 8 s = (Ok p, s1)"
    and i: "idstore_store E p (sa_address args) (sa_cred_id args) (sa_public_key args) s1 = (Ok ks, t)"
    using assms(3) by (auto simp: module_store_def act_simps)
  obtain b' v where v: "recall_phrase_cbor E p = Inr b'"
    "enc (credential_codec E) \<lparr>cs_cred_id = sa_cred_id args, cs_public_key = sa_public_key args\<rparr> = Inr v"
    "sv V t = (sv V s1)(idstore_key SepRecallPhrase b' := Some v, idstore_key SepAddress (to_vec (sa_address args)) := Some v)"
    by (rule idstore_store_Ok [OF assms(1) i]) blast
  have s1: "sv V s1 k = sv V s k" if "k \<noteq> IDSTORE_SEED_ROOT" for k
    using unused_phrase_Ok [OF assms(1) u] that by blast
  obtain e where "get_from_recall_phrase E p s1 = Err e"
    using unused_phrase_Ok [OF assms(1) u] by blast
  then have "dec (credential_codec E) old \<noteq> Inr c" if "sv V s (idstore_key SepRecallPhrase b) = Some old" for old c
    using that s1 assms(4)
    by (auto simp: get_from_recall_phrase_def get_from_storage_def store_get_reliable [OF assms(2)])
  with v s1 assms(4) show ?thesis by auto
qed

theorem store_credential_effect_witness:
  "\<exists>p b t. module_store mem_ext plain_id_ext (PublicKey 2) some_credential empty_ledger = (Ok p, t) \<and>
    sv mem_view t (idstore_key SepRecallPhrase b) =
      Some (SCredential \<lparr>cs_cred_id = replicate 16 7, cs_public_key = [1, 2, 3]\<rparr>)"
proof -
  obtain p b t where "module_store mem_ext plain_id_ext (PublicKey 2) some_credential empty_ledger = (Ok p, t)"
    "recall_phrase_cbor mem_ext p = Inr b"
    by (rule one_credential)
  with store_credential_effect [OF mem_laws mem_reliable this] show ?thesis
    by (auto simp: some_credential_def)
qed

text \<open>C34: \<open>LedgerStorage::store\<close> looks for an existing entry under the encoded phrase itself, while entries
  are kept under the phrase with the prefix of the identity store: a phrase that is in use is not refused,
  its credential is replaced.\<close>

theorem existing_entry_not_found:
  assumes "merk_laws E V C" "merk_reliable E V C" "codec_ok (credential_codec E)" "codec_total (credential_codec E)"
    and "phrase_cbor_laws E" "idstore_inv E X V s"
    and "get_from_recall_phrase E p s = Ok (c0, k0, key0)"
  shows "\<exists>ks t. idstore_store E p a c k s = (Ok ks, t) \<and> get_from_recall_phrase E p t = Ok (c, k, key0)"
proof -
  obtain b where b: "recall_phrase_cbor E p = Inr b" "key0 = idstore_key SepRecallPhrase b"
    using assms(7) by (auto simp: get_from_recall_phrase_def get_from_storage_def act_simps split: option.splits)
  have "sv V s b = None"
    using assms(6) b(1) unfolding idstore_inv_def by blast
  then obtain ks t where t: "idstore_store E p a c k s = (Ok ks, t)"
    using idstore_store_reliable [OF assms(2,4) b(1)] by metis
  obtain v where v: "enc (credential_codec E) \<lparr>cs_cred_id = c, cs_public_key = k\<rparr> = Inr v"
    "sv V t (idstore_key SepRecallPhrase b) = Some v"
    by (rule idstore_store_Ok [OF assms(1) t]) (use b(1) in auto)
  then show ?thesis
    using t get_credential(1) [OF assms(2,3) v(1) b(1) v(2)] b(2) by blast
qed

theorem existing_entry_not_found_witness:
  "\<exists>p key s ks t. get_from_recall_phrase mem_ext p s = Ok (replicate 16 7, [1, 2, 3], key) \<and>
    idstore_store mem_ext p (PublicKey 3) (replicate 16 9) [4, 5] s = (Ok ks, t) \<and>
    get_from_recall_phrase mem_ext p t = Ok (replicate 16 9, [4, 5], key)"
proof -
  obtain p b s where "idstore_inv mem_ext plain_id_ext mem_view s"
    and g: "get_from_recall_phrase mem_ext p s = Ok (replicate 16 7, [1, 2, 3], idstore_key SepRecallPhrase b)"
    by (rule one_credential)
  then have "\<exists>ks t. idstore_store mem_ext p (PublicKey 3) (replicate 16 9) [4, 5] s = (Ok ks, t) \<and>
      get_from_recall_phrase mem_ext p t = Ok (replicate 16 9, [4, 5], idstore_key SepRecallPhrase b)"
    by (rule existing_entry_not_found [OF mem_laws mem_reliable mem_codecs_ok(9) mem_codecs_total(9) mem_phrase_cbor_laws])
  with g show ?thesis by blast
qed

end
