(* ===== verification/Kv_Store.thy ===== *)
theory Kv_Store
  imports Accounts_Store Blocks
begin

text \<open>
  The storage of the key-value store: \<open>src/src/many-kvstore/src/storage.rs\<close>, \<open>storage/account.rs\<close>,
  \<open>storage/event.rs\<close> and \<open>storage/iterator.rs\<close>. A key of the user has its value under the prefix
  \<open>s\<close> and its metadata under the prefix \<open>a\<close>; everything else the service keeps has keys that start
  with a slash. The keys of events, accounts, the height and the identity are those of the ledger.
\<close>

section \<open>Errors\<close>

datatype kvstore_error_kind =
    PermissionDenied
  | InvalidInitialHash string string
  | KeyDisabled
  | AnonAltDenied
  | SubresAltUnsupported
  | KeyNotFound
  | CannotDisableEmptyKey

fun kvstore_error :: "kvstore_error_kind \<Rightarrow> many_error" where
  "kvstore_error PermissionDenied = attribute_error 3 1 []"
| "kvstore_error (InvalidInitialHash expected actual) = attribute_error 3 2 [(''expected'', expected), (''actual'', actual)]"
| "kvstore_error KeyDisabled = attribute_error 3 3 []"
| "kvstore_error AnonAltDenied = attribute_error 3 4 []"
| "kvstore_error SubresAltUnsupported = attribute_error 3 5 []"
| "kvstore_error KeyNotFound = attribute_error 3 6 []"
| "kvstore_error CannotDisableEmptyKey = attribute_error 3 7 []"

declare kvstore_error.simps [simp del]

section \<open>State\<close>

definition KVSTORE_ROOT :: bytes where "KVSTORE_ROOT = utf8 ''s''"
definition KVSTORE_ACL_ROOT :: bytes where "KVSTORE_ACL_ROOT = utf8 ''a''"

abbreviation subresource_key :: bytes where "subresource_key \<equiv> utf8 ''/config/subresource_id''"
abbreviation latest_event_key :: bytes where "latest_event_key \<equiv> utf8 ''/latest_event_id''"

record 'm kv_storage =
  kv_persistent_store :: 'm
  kv_blockchain :: bool
  kv_latest_event_id :: event_id
  kv_current_time :: "timestamp option"
  kv_current_hash :: "bytes option"
  kv_next_subresource :: u32
  kv_root_identity :: address

type_synonym ('m, 'a) kvs = "'m kv_storage \<Rightarrow> 'a result \<times> 'm kv_storage"

abbreviation kv :: "('m \<Rightarrow> bytes \<Rightarrow> 'v option) \<Rightarrow> 'm kv_storage \<Rightarrow> bytes \<Rightarrow> 'v option" where
  "kv V s \<equiv> V (kv_persistent_store s)"

text \<open>
  The store calls; \<open>c\<close> is what the call site does with a failure, \<open>from_sum f\<close> for \<open>map_err(f)?\<close> and
  \<open>unwrap_sum\<close> for \<open>unwrap()\<close>.
\<close>

definition kv_apply :: "('m, 'v) ext \<Rightarrow> (string + unit \<Rightarrow> unit result) \<Rightarrow> (bytes \<times> 'v merk_op) list \<Rightarrow> ('m, unit) kvs" where
  "kv_apply E c ops s =
    (case merk_apply E (kv_persistent_store s) ops of (r, m) \<Rightarrow> (c r, s\<lparr>kv_persistent_store := m\<rparr>))"

definition kv_flush :: "('m, 'v) ext \<Rightarrow> (string + unit \<Rightarrow> unit result) \<Rightarrow> ('m, unit) kvs" where
  "kv_flush E c s =
    (case merk_commit E (kv_persistent_store s) of (r, m) \<Rightarrow> (c r, s\<lparr>kv_persistent_store := m\<rparr>))"

definition kv_maybe_flush :: "('m, 'v) ext \<Rightarrow> (string + unit \<Rightarrow> unit result) \<Rightarrow> ('m, unit) kvs" where
  "kv_maybe_flush E c s = (if kv_blockchain s then (Ok (), s) else kv_flush E c s)"

definition kv_set_time :: "timestamp \<Rightarrow> 'm kv_storage \<Rightarrow> 'm kv_storage" where
  "kv_set_time t s = s\<lparr>kv_current_time := Some t\<rparr>"

definition kv_now :: "('m, 'v) ext \<Rightarrow> 'm kv_storage \<Rightarrow> timestamp" where
  "kv_now E s = (case kv_current_time s of Some t \<Rightarrow> t | None \<Rightarrow> system_now E)"

text \<open>The counter is a \<open>u32\<close> and wraps as in a release build.\<close>

definition kv_new_subresource_id :: "('m, 'v) ext \<Rightarrow> ('m, address \<times> bytes) kvs" where
  "kv_new_subresource_id E =
    bnd (query (\<lambda>s. Ok (kv_next_subresource s))) (\<lambda>current_id.
    bnd (modify (\<lambda>s. s\<lparr>kv_next_subresource := current_id + 1\<rparr>)) (\<lambda>_.
    bnd (kv_apply E (from_sum storage_apply_failed) [(subresource_key, put_bytes E (u32_to_be_bytes (current_id + 1)))]) (\<lambda>_.
    bnd (query (\<lambda>s. with_subresource_id (kv_root_identity s) current_id)) (\<lambda>address.
    ret (address, subresource_key)))))"

section \<open>Opening and creating a store\<close>

text \<open>
  The errors of \<open>load\<close> and \<open>new\<close> are strings that the module wraps with \<open>ManyError::unknown\<close>;
  \<open>txt\<close> is \<open>to_string\<close> on errors and \<open>opened\<close> the outcome of \<open>merk::Merk::open\<close>.
\<close>

definition kv_load ::
  "('m, 'v) ext \<Rightarrow> (many_error \<Rightarrow> string) \<Rightarrow> string + 'm \<Rightarrow> bool \<Rightarrow> 'm kv_storage result" where
  "kv_load E txt opened is_blockchain =
    res_bind (from_sum unknown opened) (\<lambda>store.
    res_bind (unwrap_sum (merk_get E store subresource_key)) (\<lambda>x.
    res_bind (case x of None \<Rightarrow> Ok 0 | Some v \<Rightarrow> read_u32 (val_bytes E v)) (\<lambda>next.
    res_bind (unwrap_sum (merk_get E store (utf8 IDENTITY_ROOT))) (\<lambda>y.
    res_bind (case y of None \<Rightarrow> Panic ''Could not find key /config/identity in storage.'' | Some v \<Rightarrow> Ok v) (\<lambda>v.
    res_bind (map_err (\<lambda>e. unknown (txt e)) (from_bytes (val_bytes E v))) (\<lambda>root.
    res_bind (unwrap_sum (merk_get E store latest_event_key)) (\<lambda>z.
    res_bind (case z of None \<Rightarrow> Panic ''Could not find key /latest_event_id'' | Some w \<Rightarrow> Ok w) (\<lambda>w.
    res_bind (from_sum unknown (dec (event_id_codec E) w)) (\<lambda>i.
    Ok \<lparr>kv_persistent_store = store, kv_blockchain = is_blockchain, kv_latest_event_id = i, kv_current_time = None,
      kv_current_hash = None, kv_next_subresource = next, kv_root_identity = root\<rparr>)))))))))"

type_synonym acl_map = "(bytes, kv_metadata) btree_map"

definition acl_batch :: "('m, 'v) ext \<Rightarrow> acl_map \<Rightarrow> (bytes \<times> 'v merk_op) list \<Rightarrow> (bytes \<times> 'v merk_op) list result" where
  "acl_batch E =
    res_fold (\<lambda>(k, meta) batch.
      res_bind (from_sum unknown (enc (metadata_codec E) meta)) (\<lambda>v.
      Ok (batch @ [(KVSTORE_ACL_ROOT @ k, Put v)])))"

definition kv_new ::
  "('m, 'v) ext \<Rightarrow> acl_map \<Rightarrow> address \<Rightarrow> string + 'm \<Rightarrow> bool \<Rightarrow> 'm kv_storage result" where
  "kv_new E acl identity opened is_blockchain =
    res_bind (from_sum unknown opened) (\<lambda>store.
    res_bind (acl_batch E acl [(utf8 IDENTITY_ROOT, put_bytes E (to_vec identity))]) (\<lambda>batch.
    res_bind (unwrap_sum (enc (event_id_codec E) [0])) (\<lambda>v.
    let s = \<lparr>kv_persistent_store = store, kv_blockchain = is_blockchain, kv_latest_event_id = [0], kv_current_time = None,
      kv_current_hash = None, kv_next_subresource = 0, kv_root_identity = identity\<rparr> in
    case bnd (kv_apply E (from_sum unknown) batch) (\<lambda>_.
         bnd (kv_apply E unwrap_sum [(latest_event_key, Put v)]) (\<lambda>_.
         kv_flush E (from_sum unknown))) s of
      (Ok _, t) \<Rightarrow> Ok t | (Err e, _) \<Rightarrow> Err e | (Panic p, _) \<Rightarrow> Panic p)))"

section \<open>Blocks\<close>

definition kv_get_height :: "('m, 'v) ext \<Rightarrow> 'm kv_storage \<Rightarrow> u64 result" where
  "kv_get_height E s =
    res_bind (unwrap_sum (merk_get E (kv_persistent_store s) (utf8 HEIGHT_ROOT))) (\<lambda>x.
    case x of None \<Rightarrow> Ok 0 | Some v \<Rightarrow> read_u64 (val_bytes E v))"

definition kv_inc_height :: "('m, 'v) ext \<Rightarrow> ('m, u64) kvs" where
  "kv_inc_height E =
    bnd (query (kv_get_height E)) (\<lambda>current_height.
    bnd (kv_apply E unwrap_sum [(utf8 HEIGHT_ROOT, put_bytes E (u64_to_be_bytes (current_height + 1)))]) (\<lambda>_.
    ret current_height))"

definition kv_commit :: "('m, 'v) ext \<Rightarrow> ('m, abci_commit_info) kvs" where
  "kv_commit E =
    bnd (kv_inc_height E) (\<lambda>_.
    bnd (query (\<lambda>s. unwrap_sum (enc (event_id_codec E) (kv_latest_event_id s)))) (\<lambda>v.
    bnd (kv_apply E unwrap_sum [(latest_event_key, Put v)]) (\<lambda>_.
    bnd (kv_flush E unwrap_sum) (\<lambda>_.
    bnd (query (\<lambda>s. Ok (merk_root_hash E (kv_persistent_store s)))) (\<lambda>hash.
    bnd (modify (\<lambda>s. s\<lparr>kv_current_hash := Some hash\<rparr>)) (\<lambda>_.
    ret \<lparr>retain_height = 0, commit_hash = hash\<rparr>))))))"

definition kv_hash :: "('m, 'v) ext \<Rightarrow> 'm kv_storage \<Rightarrow> bytes" where
  "kv_hash E s = (case kv_current_hash s of None \<Rightarrow> merk_root_hash E (kv_persistent_store s) | Some x \<Rightarrow> x)"

section \<open>Events\<close>

definition kv_new_event_id :: "('m, 'v) ext \<Rightarrow> ('m, event_id) kvs" where
  "kv_new_event_id E s =
    (let i = event_id_add E (kv_latest_event_id s) 1 in (Ok i, s\<lparr>kv_latest_event_id := i\<rparr>))"

definition kv_nb_events :: "('m, 'v) ext \<Rightarrow> 'm kv_storage \<Rightarrow> u64 result" where
  "kv_nb_events E s =
    res_bind (unwrap_sum (merk_get E (kv_persistent_store s) EVENT_COUNT_ROOT)) (\<lambda>x.
    case x of None \<Rightarrow> Ok 0 | Some v \<Rightarrow> read_u64 (val_bytes E v))"

definition kv_log_event :: "('m, 'v) ext \<Rightarrow> event_info \<Rightarrow> ('m, unit) kvs" where
  "kv_log_event E content =
    bnd (query (kv_nb_events E)) (\<lambda>current_nb_events.
    bnd (kv_new_event_id E) (\<lambda>i.
    bnd (query (\<lambda>s. Ok (kv_now E s))) (\<lambda>t.
    bnd (lift_result (unwrap_sum (enc (event_codec E) \<lparr>el_id = i, el_time = t, el_content = content\<rparr>))) (\<lambda>v.
    bnd (kv_apply E unwrap_sum
          [(key_for_event i, Put v), (EVENT_COUNT_ROOT, put_bytes E (u64_to_be_bytes (current_nb_events + 1)))]) (\<lambda>_.
    kv_maybe_flush E unwrap_sum)))))"

section \<open>Keys\<close>

definition kv_get_raw :: "('m, 'v) ext \<Rightarrow> bytes \<Rightarrow> bytes \<Rightarrow> 'm kv_storage \<Rightarrow> 'v option result" where
  "kv_get_raw E key prefix s = from_sum unknown (merk_get E (kv_persistent_store s) (prefix @ key))"

fun filter_key :: "key_filter_type \<Rightarrow> kv_metadata \<Rightarrow> bool" where
  "filter_key (FilterOwner a) meta \<longleftrightarrow> kvm_owner meta = a"
| "filter_key (FilterPreviousOwner a) meta \<longleftrightarrow> eq_option a (kvm_previous_owner meta)"
| "filter_key (FilterDisabled b) meta \<longleftrightarrow>
     (if b then (case kvm_disabled meta of Some (Inl True) \<Rightarrow> True | Some (Inr _) \<Rightarrow> True | _ \<Rightarrow> False)
      else (case kvm_disabled meta of None \<Rightarrow> True | Some (Inl False) \<Rightarrow> True | _ \<Rightarrow> False))"

definition kv_get :: "('m, 'v) ext \<Rightarrow> bytes \<Rightarrow> 'm kv_storage \<Rightarrow> bytes option result" where
  "kv_get E key s =
    res_bind (kv_get_raw E key KVSTORE_ACL_ROOT s) (\<lambda>x.
    res_bind (case x of
        Some cbor \<Rightarrow>
          res_bind (from_sum deserialization_error (dec (metadata_codec E) cbor)) (\<lambda>meta.
          case kvm_disabled meta of
            None \<Rightarrow> Ok ()
          | Some either \<Rightarrow> (case either of Inl False \<Rightarrow> Ok () | _ \<Rightarrow> Err (kvstore_error KeyDisabled)))
      | None \<Rightarrow> Ok ()) (\<lambda>_.
    res_bind (kv_get_raw E key KVSTORE_ROOT s) (\<lambda>v.
    Ok (map_option (val_bytes E) v))))"

text \<open>The \<open>filter_map\<close> of \<open>list\<close>: entries that cannot be read or decoded are left out.\<close>

definition list_item :: "('m, 'v) ext \<Rightarrow> key_filter_type list option \<Rightarrow> string + bytes \<times> 'v \<Rightarrow> bytes option" where
  "list_item E filters item =
    (case item of
       Inl _ \<Rightarrow> None
     | Inr (k, v) \<Rightarrow>
         (case filters of
            Some (f # fs) \<Rightarrow>
              (case dec (metadata_codec E) v of
                 Inr meta \<Rightarrow> if list_all (\<lambda>f. filter_key f meta) (f # fs) then Some k else None
               | Inl _ \<Rightarrow> None)
          | _ \<Rightarrow> Some k))"

definition all_keys :: "('m, 'v) ext \<Rightarrow> 'm \<Rightarrow> sort_order \<Rightarrow> (string + bytes \<times> 'v) list" where
  "all_keys E m order = merk_iter E m (order_mode order) (PrefixRange KVSTORE_ACL_ROOT)"

definition kv_list :: "('m, 'v) ext \<Rightarrow> sort_order \<Rightarrow> key_filter_type list option \<Rightarrow> 'm kv_storage \<Rightarrow> bytes list" where
  "kv_list E order filters s =
    List.map_filter (list_item E filters) (all_keys E (kv_persistent_store s) order)"

definition kv_get_metadata :: "('m, 'v) ext \<Rightarrow> bytes \<Rightarrow> 'm kv_storage \<Rightarrow> 'v option result" where
  "kv_get_metadata E key s = kv_get_raw E key KVSTORE_ACL_ROOT s"

definition kv_put :: "('m, 'v) ext \<Rightarrow> kv_metadata \<Rightarrow> bytes \<Rightarrow> bytes \<Rightarrow> ('m, unit) kvs" where
  "kv_put E meta key value =
    bnd (lift_result (from_sum serialization_error (enc (metadata_codec E) meta))) (\<lambda>v.
    bnd (kv_apply E (from_sum unknown) [(KVSTORE_ACL_ROOT @ key, Put v), (KVSTORE_ROOT @ key, put_bytes E value)]) (\<lambda>_.
    bnd (kv_log_event E (EvKvStorePut key value (kvm_owner meta))) (\<lambda>_.
    kv_maybe_flush E unwrap_sum)))"

definition kv_disable :: "('m, 'v) ext \<Rightarrow> kv_metadata \<Rightarrow> bytes \<Rightarrow> ('m, unit) kvs" where
  "kv_disable E meta key =
    bnd (lift_result (from_sum serialization_error (enc (metadata_codec E) meta))) (\<lambda>v.
    bnd (kv_apply E (from_sum unknown) [(KVSTORE_ACL_ROOT @ key, Put v)]) (\<lambda>_.
    let reason = (case kvm_disabled meta of Some (Inr reason) \<Rightarrow> Some reason | _ \<Rightarrow> None) in
    bnd (kv_log_event E (EvKvStoreDisable key reason)) (\<lambda>_.
    kv_maybe_flush E unwrap_sum)))"

definition kv_transfer :: "('m, 'v) ext \<Rightarrow> bytes \<Rightarrow> address \<Rightarrow> kv_metadata \<Rightarrow> ('m, unit) kvs" where
  "kv_transfer E key previous_owner meta =
    bnd (lift_result (from_sum serialization_error (enc (metadata_codec E) meta))) (\<lambda>v.
    bnd (kv_apply E (from_sum unknown) [(KVSTORE_ACL_ROOT @ key, Put v)]) (\<lambda>_.
    bnd (kv_log_event E (EvKvStoreTransfer key previous_owner (kvm_owner meta))) (\<lambda>_.
    kv_maybe_flush E unwrap_sum)))"

section \<open>Accounts\<close>

definition kv_get_roles_for_account :: "account \<Rightarrow> role list" where
  "kv_get_roles_for_account account =
    (if fs_has_id (acc_features account) AccountKvStore_ID then AccountKvStore_roles else [])"

definition kv_validate_features :: "account \<Rightarrow> unit result" where
  "kv_validate_features account =
    feature_supported (fs_get (acc_features account) AccountKvStore_ID plain_try_create)"

definition kv_validate_roles :: "account \<Rightarrow> unit result" where
  "kv_validate_roles account =
    (let account_roles = bs_from (concat (map snd (acc_roles account)));
         allowed_roles = (if is_ok (fs_get (acc_features account) AccountKvStore_ID plain_try_create)
           then bs_union [Owner] AccountKvStore_roles else [Owner])
     in res_fold (\<lambda>r _. fails_if (r \<notin> set allowed_roles) (unknown_role (role_str r))) account_roles ())"

definition kv_validate_account :: "account \<Rightarrow> unit result" where
  "kv_validate_account account = res_bind (kv_validate_features account) (\<lambda>_. kv_validate_roles account)"

text \<open>A key that cannot be read or decoded counts as missing.\<close>

definition kv_get_account_even_disabled :: "('m, 'v) ext \<Rightarrow> address \<Rightarrow> 'm kv_storage \<Rightarrow> account option \<times> bytes" where
  "kv_get_account_even_disabled E i s =
    (case merk_get E (kv_persistent_store s) (key_for_account E i) of
       Inr (Some v) \<Rightarrow> (case dec (account_codec E) v of Inr a \<Rightarrow> Some a | Inl _ \<Rightarrow> None)
     | _ \<Rightarrow> None, key_for_account E i)"

definition kv_get_account :: "('m, 'v) ext \<Rightarrow> address \<Rightarrow> 'm kv_storage \<Rightarrow> account option \<times> bytes" where
  "kv_get_account E i s =
    (let (account, key) = kv_get_account_even_disabled E i s in
     (case account of Some x \<Rightarrow> if is_enabled x then Some x else None | None \<Rightarrow> None, key))"

definition kv_commit_account :: "('m, 'v) ext \<Rightarrow> address \<Rightarrow> account \<Rightarrow> ('m, bytes) kvs" where
  "kv_commit_account E i account =
    bnd (lift_result (from_sum serialization_error (enc (account_codec E) account))) (\<lambda>v.
    bnd (kv_apply E (from_sum unknown) [(key_for_account E i, Put v)]) (\<lambda>_.
    bnd (kv_maybe_flush E unwrap_sum) (\<lambda>_.
    ret (key_for_account E i))))"

definition kv_add_account :: "('m, 'v) ext \<Rightarrow> account \<Rightarrow> bool \<Rightarrow> ('m, address \<times> bytes list) kvs" where
  "kv_add_account E account add_event =
    bnd (kv_new_subresource_id E) (\<lambda>(i, subresource_key).
    let account = add_role account i Owner in
    bnd (if add_event
         then kv_log_event E (EvAccountCreate i (acc_description account) (acc_roles account) (acc_features account))
         else ret ()) (\<lambda>_.
    bnd (kv_commit_account E i account) (\<lambda>commit_key.
    ret (i, [commit_key, subresource_key]))))"

definition kv_set_description :: "('m, 'v) ext \<Rightarrow> account \<Rightarrow> set_description_args \<Rightarrow> ('m, bytes) kvs" where
  "kv_set_description E account args =
    bnd (kv_log_event E (EvAccountSetDescription (sda_account args) (sda_description args))) (\<lambda>_.
    kv_commit_account E (sda_account args) (account_set_description account (Some (sda_description args))))"

definition kv_add_roles :: "('m, 'v) ext \<Rightarrow> account \<Rightarrow> add_roles_args \<Rightarrow> ('m, bytes) kvs" where
  "kv_add_roles E account args =
    bnd (kv_log_event E (EvAccountAddRoles (ara_account args) (ara_roles args))) (\<lambda>_.
    kv_commit_account E (ara_account args) (add_role_table (ara_roles args) account))"

definition kv_remove_roles :: "('m, 'v) ext \<Rightarrow> account \<Rightarrow> remove_roles_args \<Rightarrow> ('m, bytes) kvs" where
  "kv_remove_roles E account args =
    bnd (fail_if (Owner \<in> set (roles_of (rra_roles args) (rra_account args))) account_must_own_itself) (\<lambda>_.
    bnd (kv_log_event E (EvAccountRemoveRoles (rra_account args) (rra_roles args))) (\<lambda>_.
    kv_commit_account E (rra_account args) (foldl (remove_role_step False) account (roles_list (rra_roles args)))))"

definition kv_add_features :: "('m, 'v) ext \<Rightarrow> account \<Rightarrow> add_features_args \<Rightarrow> ('m, bytes) kvs" where
  "kv_add_features E account args =
    bnd (lift_result (add_new_features (afa_features args) account)) (\<lambda>account.
    let roles = (case afa_roles args of Some r \<Rightarrow> r | None \<Rightarrow> []);
        account = add_role_table roles account in
    bnd (lift_result (kv_validate_account account)) (\<lambda>_.
    bnd (kv_log_event E (EvAccountAddFeatures (afa_account args) roles (afa_features args))) (\<lambda>_.
    kv_commit_account E (afa_account args) account)))"

definition kv_disable_account :: "('m, 'v) ext \<Rightarrow> address \<Rightarrow> ('m, bytes list) kvs" where
  "kv_disable_account E i =
    bnd (query (\<lambda>s. Ok (kv_get_account_even_disabled E i s))) (\<lambda>(account, account_key).
    bnd (lift_result (ok_or (unknown_account (to_string E i)) account)) (\<lambda>account.
    if is_enabled account then
      bnd (kv_commit_account E i (account\<lparr>acc_disabled := Some (Inl True)\<rparr>)) (\<lambda>commit_key.
      bnd (kv_log_event E (EvAccountDisable i)) (\<lambda>_.
      bnd (kv_maybe_flush E (from_sum unknown)) (\<lambda>_.
      ret [account_key, commit_key])))
    else fail (unknown_account (to_string E i))))"

section \<open>Key spaces\<close>

text \<open>
  The keys of the service itself start with a slash; the keys of users never do, and a value is
  never stored under the key of any metadata.
\<close>

definition service_key :: "bytes \<Rightarrow> bool" where
  "service_key k \<longleftrightarrow> (\<exists>r. k = utf8 ''/'' @ r)"

lemma user_keys [simp]:
  "KVSTORE_ACL_ROOT @ k = KVSTORE_ACL_ROOT @ k' \<longleftrightarrow> k = k'" "KVSTORE_ROOT @ k = KVSTORE_ROOT @ k' \<longleftrightarrow> k = k'"
  "KVSTORE_ACL_ROOT @ k \<noteq> KVSTORE_ROOT @ k'" "KVSTORE_ROOT @ k \<noteq> KVSTORE_ACL_ROOT @ k'"
  "\<not> service_key (KVSTORE_ACL_ROOT @ k)" "\<not> service_key (KVSTORE_ROOT @ k)"
  "KVSTORE_ACL_ROOT @ k < KVSTORE_ROOT @ k'"
  by (auto simp: KVSTORE_ACL_ROOT_def KVSTORE_ROOT_def service_key_def utf8_Cons of_char_u8_less)

lemma service_user_neq [simp]:
  "service_key k \<Longrightarrow> k \<noteq> KVSTORE_ACL_ROOT @ x" "service_key k \<Longrightarrow> k \<noteq> KVSTORE_ROOT @ x"
  "service_key k \<Longrightarrow> KVSTORE_ACL_ROOT @ x \<noteq> k" "service_key k \<Longrightarrow> KVSTORE_ROOT @ x \<noteq> k"
  using user_keys(5,6) by metis+

lemma roots_differ: "KVSTORE_ROOT \<noteq> KVSTORE_ACL_ROOT"
  by (simp add: KVSTORE_ROOT_def KVSTORE_ACL_ROOT_def utf8_Cons)

lemma service_keys [simp]:
  "service_key subresource_key" "service_key latest_event_key" "service_key (utf8 HEIGHT_ROOT)"
  "service_key (utf8 IDENTITY_ROOT)" "service_key EVENT_COUNT_ROOT" "service_key (key_for_event i)"
  "service_key (key_for_account E a)"
  by (simp_all add: service_key_def key_defs utf8_Cons)

lemma service_keys_neq [simp]:
  "key_for_account E a \<noteq> subresource_key" "key_for_account E a \<noteq> latest_event_key"
  "key_for_event i \<noteq> subresource_key" "key_for_event i \<noteq> latest_event_key"
  "EVENT_COUNT_ROOT \<noteq> subresource_key" "EVENT_COUNT_ROOT \<noteq> latest_event_key"
  by (simp_all add: key_defs utf8_Cons)

lemmas service_keys_neq_sym [simp] = service_keys_neq [symmetric]

section \<open>Effects of the store calls\<close>

definition kv_ctx :: "'m kv_storage \<Rightarrow> bool \<times> timestamp option \<times> bytes option \<times> address" where
  "kv_ctx s = (kv_blockchain s, kv_current_time s, kv_current_hash s, kv_root_identity s)"

lemma kv_ctx_update [simp]:
  "kv_ctx (s\<lparr>kv_persistent_store := m\<rparr>) = kv_ctx s" "kv_ctx (s\<lparr>kv_latest_event_id := i\<rparr>) = kv_ctx s"
  "kv_ctx (s\<lparr>kv_next_subresource := n\<rparr>) = kv_ctx s"
  by (simp_all add: kv_ctx_def)

lemma kv_ctx_eqD:
  assumes "kv_ctx t = kv_ctx s"
  shows "kv_blockchain t = kv_blockchain s" "kv_current_time t = kv_current_time s"
    "kv_root_identity t = kv_root_identity s" "kv_now E t = kv_now E s"
  using assms by (simp_all add: kv_ctx_def kv_now_def)

text \<open>A call site that lets only successes through.\<close>

definition strict :: "(string + unit \<Rightarrow> unit result) \<Rightarrow> bool" where
  "strict c \<longleftrightarrow> (\<forall>x u. c x = Ok u \<longrightarrow> x = Inr u)"

lemma strict_sites [simp]: "strict (from_sum f)" "strict unwrap_sum"
  by (simp_all add: strict_def act_simps)

lemma kv_apply_Ok:
  assumes "merk_laws E V C" "strict c" "kv_apply E c ops s = (Ok u, t)"
  shows "keys_sorted ops" "kv V t = apply_ops (kv V s) ops" "kv C t = kv C s"
    "kv_ctx t = kv_ctx s" "kv_latest_event_id t = kv_latest_event_id s" "kv_next_subresource t = kv_next_subresource s"
proof -
  obtain r m where m: "merk_apply E (kv_persistent_store s) ops = (r, m)" by fastforce
  then have t: "c r = Ok u" "t = s\<lparr>kv_persistent_store := m\<rparr>"
    using assms(3) by (simp_all add: kv_apply_def)
  have "merk_apply E (kv_persistent_store s) ops = (Inr (), m)"
    using m t(1) assms(2) by (simp add: strict_def)
  then have "keys_sorted ops \<and> V m = apply_ops (kv V s) ops \<and> C m = kv C s"
    using assms(1) unfolding merk_laws_def by blast
  with t(2) show "keys_sorted ops" "kv V t = apply_ops (kv V s) ops" "kv C t = kv C s"
    "kv_ctx t = kv_ctx s" "kv_latest_event_id t = kv_latest_event_id s" "kv_next_subresource t = kv_next_subresource s"
    by simp_all
qed

lemma kv_maybe_flush_Ok:
  assumes "merk_laws E V C" "strict c" "kv_maybe_flush E c s = (Ok u, t)"
  shows "kv V t = kv V s" "kv C t = (if kv_blockchain s then kv C s else kv V s)"
    "kv_ctx t = kv_ctx s" "kv_latest_event_id t = kv_latest_event_id s" "kv_next_subresource t = kv_next_subresource s"
proof -
  have "kv V t = kv V s \<and> kv C t = (if kv_blockchain s then kv C s else kv V s) \<and> kv_ctx t = kv_ctx s \<and>
    kv_latest_event_id t = kv_latest_event_id s \<and> kv_next_subresource t = kv_next_subresource s"
  proof (cases "kv_blockchain s")
    case True
    then show ?thesis using assms(3) by (simp add: kv_maybe_flush_def)
  next
    case False
    obtain r m where m: "merk_commit E (kv_persistent_store s) = (r, m)" by fastforce
    then have t: "c r = Ok u" "t = s\<lparr>kv_persistent_store := m\<rparr>"
      using assms(3) False by (simp_all add: kv_maybe_flush_def kv_flush_def)
    have "merk_commit E (kv_persistent_store s) = (Inr (), m)"
      using m t(1) assms(2) by (simp add: strict_def)
    then have "V m = kv V s \<and> C m = kv V s"
      using assms(1) unfolding merk_laws_def by blast
    with t(2) False show ?thesis by simp
  qed
  then show "kv V t = kv V s" "kv C t = (if kv_blockchain s then kv C s else kv V s)"
    "kv_ctx t = kv_ctx s" "kv_latest_event_id t = kv_latest_event_id s" "kv_next_subresource t = kv_next_subresource s"
    by simp_all
qed

abbreviation kv_next_id :: "('m, 'v) ext \<Rightarrow> 'm kv_storage \<Rightarrow> event_id" where
  "kv_next_id E s \<equiv> event_id_add E (kv_latest_event_id s) 1"

lemma kv_nb_events_Ok:
  "merk_laws E V C \<Longrightarrow> kv_nb_events E s = Ok n \<Longrightarrow> n = u64_at E EVENT_COUNT_ROOT (kv V s)"
  by (auto simp: kv_nb_events_def act_simps u64_at_def merk_laws_def split: option.splits)

text \<open>
  What a command leaves behind: the contents of the store are the contents \<open>f\<close> it wrote and one
  more event, and nothing waits for a commit unless the service runs as a blockchain.
\<close>

definition kv_logged :: "('m, 'v) ext \<Rightarrow> ('m \<Rightarrow> bytes \<Rightarrow> 'v option) \<Rightarrow> event_info \<Rightarrow> (bytes \<Rightarrow> 'v option) \<Rightarrow>
    'm kv_storage \<Rightarrow> 'm kv_storage \<Rightarrow> bool" where
  "kv_logged E V ev f s t \<longleftrightarrow>
    (\<exists>v. enc (event_codec E) \<lparr>el_id = kv_next_id E s, el_time = kv_now E s, el_content = ev\<rparr> = Inr v \<and>
       kv V t = f(key_for_event (kv_next_id E s) := Some v,
         EVENT_COUNT_ROOT := Some (val_of_bytes E (u64_to_be_bytes (u64_at E EVENT_COUNT_ROOT f + 1))))) \<and>
    kv_latest_event_id t = kv_next_id E s \<and> kv_ctx t = kv_ctx s"

lemma kv_logged_at:
  assumes "kv_logged E V ev f s t"
  shows "k \<noteq> EVENT_COUNT_ROOT \<Longrightarrow> k \<noteq> key_for_event (kv_next_id E s) \<Longrightarrow> kv V t k = f k"
  using assms by (auto simp: kv_logged_def)

lemma kv_log_event_Ok:
  assumes "merk_laws E V C" "kv_log_event E ev s = (Ok u, t)"
  shows "kv_logged E V ev (kv V s) s t" "kv_next_subresource t = kv_next_subresource s"
    "kv C t = (if kv_blockchain s then kv C s else kv V t)"
proof -
  let ?s = "s\<lparr>kv_latest_event_id := kv_next_id E s\<rparr>"
  obtain n v s1 where n: "kv_nb_events E s = Ok n"
    and v: "enc (event_codec E) \<lparr>el_id = kv_next_id E s, el_time = kv_now E s, el_content = ev\<rparr> = Inr v"
    and a: "kv_apply E unwrap_sum [(key_for_event (kv_next_id E s), Put v),
        (EVENT_COUNT_ROOT, put_bytes E (u64_to_be_bytes (n + 1)))] ?s = (Ok (), s1)"
    and c: "kv_maybe_flush E unwrap_sum s1 = (Ok (), t)"
    using assms(2) by (auto simp: kv_log_event_def kv_new_event_id_def Let_def kv_now_def act_simps)
  note A = kv_apply_Ok [OF assms(1) strict_sites(2) a] and M = kv_maybe_flush_Ok [OF assms(1) strict_sites(2) c]
  have "kv V t = (kv V s)(key_for_event (kv_next_id E s) := Some v,
      EVENT_COUNT_ROOT := Some (val_of_bytes E (u64_to_be_bytes (n + 1))))"
    using A M by (simp add: put_bytes_def)
  then show "kv_logged E V ev (kv V s) s t"
    using v A M kv_nb_events_Ok [OF assms(1) n] by (auto simp: kv_logged_def)
  show "kv_next_subresource t = kv_next_subresource s" "kv C t = (if kv_blockchain s then kv C s else kv V t)"
    using A M kv_ctx_eqD(1) [OF A(4)] by simp_all
qed

text \<open>The commands on keys write a batch and log it.\<close>

lemma kv_write_Ok:
  assumes L: "merk_laws E V C"
    and run: "bnd (kv_apply E (from_sum g) ops) (\<lambda>_. bnd (kv_log_event E ev) (\<lambda>_. kv_maybe_flush E unwrap_sum)) s = (Ok u, t)"
  shows "keys_sorted ops" "kv_logged E V ev (apply_ops (kv V s) ops) s t" "kv_next_subresource t = kv_next_subresource s"
    "kv C t = (if kv_blockchain s then kv C s else kv V t)"
proof -
  obtain s1 s2 where a: "kv_apply E (from_sum g) ops s = (Ok (), s1)" and l: "kv_log_event E ev s1 = (Ok (), s2)"
    and c: "kv_maybe_flush E unwrap_sum s2 = (Ok (), t)"
    using run by (auto simp: act_simps)
  note A = kv_apply_Ok [OF L strict_sites(1) a] and G = kv_log_event_Ok [OF L l]
    and M = kv_maybe_flush_Ok [OF L strict_sites(2) c]
  show "keys_sorted ops" by (rule A)
  have c2: "kv_ctx s2 = kv_ctx s1" using G(1) by (simp add: kv_logged_def)
  show "kv_logged E V ev (apply_ops (kv V s) ops) s t"
    using G(1) A M kv_ctx_eqD(4) [OF A(4), of E] by (simp add: kv_logged_def)
  show "kv_next_subresource t = kv_next_subresource s" "kv C t = (if kv_blockchain s then kv C s else kv V t)"
    using A G M kv_ctx_eqD(1) [OF A(4)] kv_ctx_eqD(1) [OF c2] by simp_all
qed

text \<open>The commands on accounts write one account.\<close>

lemma kv_commit_account_Ok:
  assumes L: "merk_laws E V C" and run: "kv_commit_account E i a s = (Ok key, t)"
  obtains v where "enc (account_codec E) a = Inr v" "kv V t = (kv V s)(key_for_account E i := Some v)"
    "kv_ctx t = kv_ctx s" "kv_latest_event_id t = kv_latest_event_id s" "kv_next_subresource t = kv_next_subresource s"
    "kv C t = (if kv_blockchain s then kv C s else kv V t)"
proof -
  obtain v s1 where v: "enc (account_codec E) a = Inr v"
    and a: "kv_apply E (from_sum unknown) [(key_for_account E i, Put v)] s = (Ok (), s1)"
    and c: "kv_maybe_flush E unwrap_sum s1 = (Ok (), t)"
    using run by (auto simp: kv_commit_account_def act_simps)
  note A = kv_apply_Ok [OF L strict_sites(1) a] and M = kv_maybe_flush_Ok [OF L strict_sites(2) c]
  show thesis
    using that [OF v] A M kv_ctx_eqD(1) [OF A(4)] by simp
qed

lemma kv_logged_account:
  assumes L: "merk_laws E V C" and g: "kv_logged E V ev f s s1" and c: "kv_commit_account E i a s1 = (Ok key, t)"
  obtains v where "enc (account_codec E) a = Inr v" "kv_logged E V ev (f(key_for_account E i := Some v)) s t"
    "kv_next_subresource t = kv_next_subresource s1"
    "kv C t = (if kv_blockchain s1 then kv C s1 else kv V t)"
proof -
  obtain v where v: "enc (account_codec E) a = Inr v" "kv V t = (kv V s1)(key_for_account E i := Some v)"
    "kv_ctx t = kv_ctx s1" "kv_latest_event_id t = kv_latest_event_id s1" "kv_next_subresource t = kv_next_subresource s1"
    "kv C t = (if kv_blockchain s1 then kv C s1 else kv V t)"
    by (rule kv_commit_account_Ok [OF L c])
  have "u64_at E EVENT_COUNT_ROOT (f(key_for_account E i := Some v)) = u64_at E EVENT_COUNT_ROOT f"
    by (simp add: u64_at_def)
  then have "kv_logged E V ev (f(key_for_account E i := Some v)) s t"
    using g v by (auto simp: kv_logged_def fun_upd_twist)
  with that v show thesis by blast
qed

lemma kv_account_write_Ok:
  assumes L: "merk_laws E V C" and run: "bnd (kv_log_event E ev) (\<lambda>_. kv_commit_account E i a) s = (Ok key, t)"
  obtains v where "enc (account_codec E) a = Inr v" "kv_logged E V ev ((kv V s)(key_for_account E i := Some v)) s t"
    "kv_next_subresource t = kv_next_subresource s"
    "kv C t = (if kv_blockchain s then kv C s else kv V t)"
proof -
  obtain s1 where l: "kv_log_event E ev s = (Ok (), s1)" and c: "kv_commit_account E i a s1 = (Ok key, t)"
    using run by (auto simp: act_simps)
  note G = kv_log_event_Ok [OF L l]
  have "kv_ctx s1 = kv_ctx s" using G(1) by (simp add: kv_logged_def)
  note b = kv_ctx_eqD(1) [OF this]
  show thesis
    by (rule kv_logged_account [OF L G(1) c]) (use that b G in auto)
qed

lemma kv_disable_account_Ok:
  assumes L: "merk_laws E V C" and run: "kv_disable_account E i s = (Ok keys, t)"
  obtains a v where "account_at E (kv V s) i = Some a" "is_enabled a"
    "enc (account_codec E) (a\<lparr>acc_disabled := Some (Inl True)\<rparr>) = Inr v"
    "kv_logged E V (EvAccountDisable i) ((kv V s)(key_for_account E i := Some v)) s t"
    "kv_next_subresource t = kv_next_subresource s"
    "kv C t = (if kv_blockchain s then kv C s else kv V t)"
proof -
  obtain a key s1 s2 where a: "fst (kv_get_account_even_disabled E i s) = Some a" "is_enabled a"
    and c: "kv_commit_account E i (a\<lparr>acc_disabled := Some (Inl True)\<rparr>) s = (Ok key, s1)"
    and l: "kv_log_event E (EvAccountDisable i) s1 = (Ok (), s2)"
    and m: "kv_maybe_flush E (from_sum unknown) s2 = (Ok (), t)"
    using run by (cases "kv_get_account_even_disabled E i s") (auto simp: kv_disable_account_def act_simps split: if_splits)
  have at: "account_at E (kv V s) i = Some a"
    using a(1) L by (auto simp: kv_get_account_even_disabled_def account_at_def merk_laws_def split: sum.splits option.splits)
  obtain v where v: "enc (account_codec E) (a\<lparr>acc_disabled := Some (Inl True)\<rparr>) = Inr v"
    "kv V s1 = (kv V s)(key_for_account E i := Some v)" "kv_ctx s1 = kv_ctx s" "kv_latest_event_id s1 = kv_latest_event_id s"
    "kv_next_subresource s1 = kv_next_subresource s" "kv C s1 = (if kv_blockchain s then kv C s else kv V s1)"
    by (rule kv_commit_account_Ok [OF L c])
  note G = kv_log_event_Ok [OF L l] and M = kv_maybe_flush_Ok [OF L strict_sites(1) m]
  have c2: "kv_ctx s2 = kv_ctx s1" using G(1) by (simp add: kv_logged_def)
  have "kv_logged E V (EvAccountDisable i) ((kv V s)(key_for_account E i := Some v)) s t"
    using G(1) v M kv_ctx_eqD(4) [OF v(3), of E] by (simp add: kv_logged_def)
  moreover have "kv_next_subresource t = kv_next_subresource s" "kv C t = (if kv_blockchain s then kv C s else kv V t)"
    using v G M kv_ctx_eqD(1) [OF v(3)] kv_ctx_eqD(1) [OF c2] by simp_all
  ultimately show thesis
    using that [OF at a(2) v(1)] by blast
qed

lemma kv_add_account_Ok:
  assumes L: "merk_laws E V C" and run: "kv_add_account E a True s = (Ok (i, keys), t)"
  obtains v n ev where "with_subresource_id (kv_root_identity s) (kv_next_subresource s) = Ok i"
    "enc (account_codec E) (add_role a i Owner) = Inr v"
    "kv_logged E V ev ((kv V s)(subresource_key := Some n, key_for_account E i := Some v)) s t"
    "kv_next_subresource t = kv_next_subresource s + 1"
    "kv C t = (if kv_blockchain s then kv C s else kv V t)"
proof -
  let ?n = "val_of_bytes E (u32_to_be_bytes (kv_next_subresource s + 1))"
  let ?s = "s\<lparr>kv_next_subresource := kv_next_subresource s + 1\<rparr>"
  let ?a = "add_role a i Owner"
  let ?ev = "EvAccountCreate i (acc_description ?a) (acc_roles ?a) (acc_features ?a)"
  obtain s1 key where a: "kv_apply E (from_sum storage_apply_failed) [(subresource_key, Put ?n)] ?s = (Ok (), s1)"
    and i: "with_subresource_id (kv_root_identity s1) (kv_next_subresource s) = Ok i"
    and w: "bnd (kv_log_event E ?ev) (\<lambda>_. kv_commit_account E i ?a) s1 = (Ok key, t)"
    using run by (auto simp: kv_add_account_def kv_new_subresource_id_def put_bytes_def Let_def act_simps)
  note A = kv_apply_Ok [OF L strict_sites(1) a]
  have c1: "kv_ctx s1 = kv_ctx s" using A(4) by simp
  obtain v where v: "enc (account_codec E) ?a = Inr v" "kv_logged E V ?ev ((kv V s1)(key_for_account E i := Some v)) s1 t"
    "kv_next_subresource t = kv_next_subresource s1" "kv C t = (if kv_blockchain s1 then kv C s1 else kv V t)"
    by (rule kv_account_write_Ok [OF L w])
  have "kv_logged E V ?ev ((kv V s)(subresource_key := Some ?n, key_for_account E i := Some v)) s t"
    using v(2) A kv_ctx_eqD(4) [OF c1, of E] by (simp add: kv_logged_def)
  moreover have "with_subresource_id (kv_root_identity s) (kv_next_subresource s) = Ok i"
    using i kv_ctx_eqD(3) [OF c1] by simp
  moreover have "kv_next_subresource t = kv_next_subresource s + 1" "kv C t = (if kv_blockchain s then kv C s else kv V t)"
    using v A kv_ctx_eqD(1) [OF c1] by simp_all
  ultimately show thesis
    using that v(1) by blast
qed

end
