(* ===== verification/Kv_Module.thy ===== *)
theory Kv_Module
  imports Kv_Store
begin

text \<open>
  The endpoints of the key-value store, \<open>src/src/many-kvstore/src/module.rs\<close> and \<open>module/account.rs\<close>:
  who may write, disable and transfer a key, and the accounts that can own keys. The commands refine an
  abstract store that maps a key to its metadata and its value; the theory shows who can change an
  entry, that an entry given to the illegal address never changes again, what a listing returns, and what
  a restart does to the event log.
\<close>

section \<open>Permissions\<close>

definition validate_alternative_owner ::
  "('m, 'v) ext \<Rightarrow> address \<Rightarrow> address \<Rightarrow> role list \<Rightarrow> 'm kv_storage \<Rightarrow> unit result" where
  "validate_alternative_owner E sender alternative_owner roles s =
    (case fst (kv_get_account E alternative_owner s) of
       Some account \<Rightarrow> needs_role account sender roles
     | None \<Rightarrow>
         if is_subresource alternative_owner then Err (kvstore_error SubresAltUnsupported)
         else if is_anonymous alternative_owner then Err (kvstore_error AnonAltDenied)
         else Err (kvstore_error PermissionDenied))"

definition kv_verify_acl :: "('m, 'v) ext \<Rightarrow> address \<Rightarrow> bytes \<Rightarrow> 'm kv_storage \<Rightarrow> unit result" where
  "kv_verify_acl E sender key s =
    res_bind (kv_get_metadata E key s) (\<lambda>x.
    case x of
      Some meta_cbor \<Rightarrow>
        res_bind (from_sum deserialization_error (dec (metadata_codec E) meta_cbor)) (\<lambda>meta.
        if kvm_owner meta = sender then Ok () else Err (kvstore_error PermissionDenied))
    | None \<Rightarrow> Ok ())"

text \<open>The owner a command acts for: the alternative owner once it is validated, or the sender.\<close>

definition acting_owner ::
  "('m, 'v) ext \<Rightarrow> address \<Rightarrow> address option \<Rightarrow> role list \<Rightarrow> 'm kv_storage \<Rightarrow> address result" where
  "acting_owner E sender alternative_owner roles s =
    (case alternative_owner of
       Some a \<Rightarrow> res_bind (validate_alternative_owner E sender a roles s) (\<lambda>_. Ok a)
     | None \<Rightarrow> Ok sender)"

section \<open>Commands on keys\<close>

definition kv_module_put :: "('m, 'v) ext \<Rightarrow> address \<Rightarrow> put_args \<Rightarrow> ('m, unit) kvs" where
  "kv_module_put E sender args =
    bnd (query (acting_owner E sender (pa_alternative_owner args) [CanKvStorePut, Owner])) (\<lambda>owner.
    bnd (query (kv_verify_acl E owner (pa_key args))) (\<lambda>_.
    kv_put E \<lparr>kvm_owner = owner, kvm_disabled = Some (Inl False), kvm_previous_owner = None\<rparr> (pa_key args) (pa_value args)))"

definition kv_module_disable :: "('m, 'v) ext \<Rightarrow> address \<Rightarrow> kv_disable_args \<Rightarrow> ('m, unit) kvs" where
  "kv_module_disable E sender args =
    bnd (query (kv_get E (kda_key args))) (\<lambda>value.
    bnd (fail_if (value = None) (kvstore_error CannotDisableEmptyKey)) (\<lambda>_.
    bnd (query (acting_owner E sender (kda_alternative_owner args) [CanKvStoreDisable, Owner])) (\<lambda>owner.
    bnd (query (kv_verify_acl E owner (kda_key args))) (\<lambda>_.
    let maybe_reason = (case kda_reason args of Some reason \<Rightarrow> Inr reason | None \<Rightarrow> Inl True) in
    kv_disable E \<lparr>kvm_owner = owner, kvm_disabled = Some maybe_reason, kvm_previous_owner = None\<rparr> (kda_key args)))))"

definition kv_module_query :: "('m, 'v) ext \<Rightarrow> bytes \<Rightarrow> 'm kv_storage \<Rightarrow> kv_metadata result" where
  "kv_module_query E key s =
    res_bind (kv_get_metadata E key s) (\<lambda>x.
    res_bind (ok_or (kvstore_error KeyNotFound) x) (\<lambda>v.
    from_sum deserialization_error (dec (metadata_codec E) v)))"

definition kv_module_transfer :: "('m, 'v) ext \<Rightarrow> address \<Rightarrow> transfer_args \<Rightarrow> ('m, unit) kvs" where
  "kv_module_transfer E sender args =
    bnd (query (kv_get E (ta_key args))) (\<lambda>value.
    bnd (fail_if (value = None) (kvstore_error KeyNotFound)) (\<lambda>_.
    bnd (fail_if (is_anonymous (ta_new_owner args)) (kvstore_error AnonAltDenied)) (\<lambda>_.
    bnd (query (kv_module_query E (ta_key args))) (\<lambda>metadata.
    bnd (query (acting_owner E sender (ta_alternative_owner args) [CanKvStoreTransfer, Owner])) (\<lambda>owner.
    bnd (query (kv_verify_acl E owner (ta_key args))) (\<lambda>_.
    kv_transfer E (ta_key args) owner
      \<lparr>kvm_owner = ta_new_owner args, kvm_disabled = kvm_disabled metadata, kvm_previous_owner = Some (kvm_owner metadata)\<rparr>))))))"

text \<open>\<open>ListArgs\<close> of \<open>kvstore.list\<close>. The first byte of a stored key is the prefix.\<close>

record kv_list_args =
  kla_count :: "u64 option"
  kla_order :: "sort_order option"
  kla_filter :: "key_filter_type list option"

definition kv_module_list :: "('m, 'v) ext \<Rightarrow> kv_list_args \<Rightarrow> 'm kv_storage \<Rightarrow> bytes list" where
  "kv_module_list E args s =
    map (drop 1) (kv_list E (case kla_order args of Some o' \<Rightarrow> o' | None \<Rightarrow> Indeterminate) (kla_filter args) s)"

section \<open>Accounts\<close>

definition kv_account_create :: "('m, 'v) ext \<Rightarrow> address \<Rightarrow> create_args \<Rightarrow> ('m, address) kvs" where
  "kv_account_create E sender args =
    bnd (fail_if (ca_features args = []) empty_feature) (\<lambda>_.
    let account = account_create sender args in
    bnd (lift_result (kv_validate_account account)) (\<lambda>_.
    bnd (kv_add_account E account True) (\<lambda>(i, _). ret i)))"

definition existing_account :: "('m, 'v) ext \<Rightarrow> address \<Rightarrow> 'm kv_storage \<Rightarrow> account result" where
  "existing_account E i s = ok_or (unknown_account (to_string E i)) (fst (kv_get_account E i s))"

definition kv_account_set_description :: "('m, 'v) ext \<Rightarrow> address \<Rightarrow> set_description_args \<Rightarrow> ('m, unit) kvs" where
  "kv_account_set_description E sender args =
    bnd (query (existing_account E (sda_account args))) (\<lambda>account.
    bnd (fail_if (\<not> has_role account sender Owner) (user_needs_role ''owner'')) (\<lambda>_.
    bnd (kv_set_description E account args) (\<lambda>_. ret ())))"

definition kv_account_add_roles :: "('m, 'v) ext \<Rightarrow> address \<Rightarrow> add_roles_args \<Rightarrow> ('m, unit) kvs" where
  "kv_account_add_roles E sender args =
    bnd (query (existing_account E (ara_account args))) (\<lambda>account.
    bnd (fail_if (\<not> has_role account sender Owner) (user_needs_role ''owner'')) (\<lambda>_.
    bnd (kv_add_roles E account args) (\<lambda>_. ret ())))"

definition kv_account_remove_roles :: "('m, 'v) ext \<Rightarrow> address \<Rightarrow> remove_roles_args \<Rightarrow> ('m, unit) kvs" where
  "kv_account_remove_roles E sender args =
    bnd (query (existing_account E (rra_account args))) (\<lambda>account.
    bnd (fail_if (\<not> has_role account sender Owner) (user_needs_role (role_str Owner))) (\<lambda>_.
    bnd (kv_remove_roles E account args) (\<lambda>_. ret ())))"

definition kv_account_disable :: "('m, 'v) ext \<Rightarrow> address \<Rightarrow> disable_args \<Rightarrow> ('m, unit) kvs" where
  "kv_account_disable E sender args =
    bnd (query (existing_account E (da_account args))) (\<lambda>account.
    bnd (fail_if (\<not> has_role account sender Owner) (user_needs_role (role_str Owner))) (\<lambda>_.
    bnd (kv_disable_account E (da_account args)) (\<lambda>_. ret ())))"

definition kv_account_add_features :: "('m, 'v) ext \<Rightarrow> address \<Rightarrow> add_features_args \<Rightarrow> ('m, unit) kvs" where
  "kv_account_add_features E sender args =
    bnd (fail_if (afa_features args = []) empty_feature) (\<lambda>_.
    bnd (query (existing_account E (afa_account args))) (\<lambda>account.
    bnd (lift_result (needs_role account sender [Owner])) (\<lambda>_.
    bnd (kv_add_features E account args) (\<lambda>_. ret ()))))"

section \<open>Blocks\<close>

text \<open>The endpoints, and which of them are commands.\<close>

definition kv_abci_init :: "(string \<times> bool) list" where
  "kv_abci_init =
    [(''kvstore.info'', False), (''kvstore.get'', False), (''kvstore.query'', False), (''kvstore.put'', True),
     (''kvstore.disable'', True), (''kvstore.transfer'', True), (''kvstore.list'', False),
     (''account.create'', True), (''account.setDescription'', True), (''account.listRoles'', False),
     (''account.getRoles'', False), (''account.addRoles'', True), (''account.removeRoles'', True),
     (''account.info'', False), (''account.disable'', True), (''account.addFeatures'', True),
     (''events.info'', False), (''events.list'', False)]"

definition kv_begin_block :: "('m, 'v) ext \<Rightarrow> u64 option \<Rightarrow> ('m, unit) kvs" where
  "kv_begin_block E time =
    bnd (query (kv_get_height E)) (\<lambda>_.
    case time of None \<Rightarrow> ret () | Some t \<Rightarrow> modify (kv_set_time t))"

definition kv_abci_info :: "('m, 'v) ext \<Rightarrow> 'm kv_storage \<Rightarrow> abci_info result" where
  "kv_abci_info E s = res_bind (kv_get_height E s) (\<lambda>h. Ok \<lparr>info_height = h, info_hash = kv_hash E s\<rparr>)"

record kv_initial_state =
  kis_acl :: acl_map
  kis_identity :: address
  kis_hash :: "string option"

text \<open>\<open>hex\<close> is \<open>hex::encode\<close>.\<close>

definition kv_module_new ::
  "('m, 'v) ext \<Rightarrow> (bytes \<Rightarrow> string) \<Rightarrow> kv_initial_state \<Rightarrow> string + 'm \<Rightarrow> bool \<Rightarrow> 'm kv_storage result" where
  "kv_module_new E hex initial_state opened is_blockchain =
    res_bind (kv_new E (kis_acl initial_state) (kis_identity initial_state) opened is_blockchain) (\<lambda>storage.
    res_bind (case kis_hash initial_state of
        Some h \<Rightarrow> fails_if (hex (kv_hash E storage) \<noteq> h) (kvstore_error (InvalidInitialHash h (hex (kv_hash E storage))))
      | None \<Rightarrow> Ok ()) (\<lambda>_.
    res_bind (kv_get_height E storage) (\<lambda>_.
    Ok storage)))"

section \<open>Commands\<close>

datatype kv_command =
    KvPut put_args
  | KvDisable kv_disable_args
  | KvTransfer transfer_args
  | KvAccountCreate create_args
  | KvSetDescription set_description_args
  | KvAddRoles add_roles_args
  | KvRemoveRoles remove_roles_args
  | KvAccountDisable disable_args
  | KvAddFeatures add_features_args

fun kv_execute :: "('m, 'v) ext \<Rightarrow> address \<Rightarrow> kv_command \<Rightarrow> ('m, unit) kvs" where
  "kv_execute E sender (KvPut a) = kv_module_put E sender a"
| "kv_execute E sender (KvDisable a) = kv_module_disable E sender a"
| "kv_execute E sender (KvTransfer a) = kv_module_transfer E sender a"
| "kv_execute E sender (KvAccountCreate a) = bnd (kv_account_create E sender a) (\<lambda>_. ret ())"
| "kv_execute E sender (KvSetDescription a) = kv_account_set_description E sender a"
| "kv_execute E sender (KvAddRoles a) = kv_account_add_roles E sender a"
| "kv_execute E sender (KvRemoveRoles a) = kv_account_remove_roles E sender a"
| "kv_execute E sender (KvAccountDisable a) = kv_account_disable E sender a"
| "kv_execute E sender (KvAddFeatures a) = kv_account_add_features E sender a"

section \<open>The abstract store\<close>

text \<open>A key has optional metadata and an optional value.\<close>

type_synonym kv_map = "bytes \<Rightarrow> kv_metadata option \<times> bytes option"

definition meta_at :: "('m, 'v) ext \<Rightarrow> (bytes \<Rightarrow> 'v option) \<Rightarrow> bytes \<Rightarrow> kv_metadata option" where
  "meta_at E f key =
    (case f (KVSTORE_ACL_ROOT @ key) of
       Some v \<Rightarrow> (case dec (metadata_codec E) v of Inr m \<Rightarrow> Some m | Inl _ \<Rightarrow> None)
     | None \<Rightarrow> None)"

definition kv_abs :: "('m, 'v) ext \<Rightarrow> (bytes \<Rightarrow> 'v option) \<Rightarrow> kv_map" where
  "kv_abs E f key = (meta_at E f key, map_option (val_bytes E) (f (KVSTORE_ROOT @ key)))"

definition kv_enabled :: "kv_metadata option \<Rightarrow> bool" where
  "kv_enabled x \<longleftrightarrow> (case x of None \<Rightarrow> True | Some m \<Rightarrow> kvm_disabled m = None \<or> kvm_disabled m = Some (Inl False))"

text \<open>
  A sender acts for an owner when it is the owner, or when the owner is an account that is not
  disabled and gives the sender one of the roles.
\<close>

definition acts_for :: "(address \<Rightarrow> account option) \<Rightarrow> role list \<Rightarrow> address \<Rightarrow> address \<Rightarrow> bool" where
  "acts_for A roles sender owner \<longleftrightarrow>
    sender = owner \<or> (\<exists>a r. A owner = Some a \<and> is_enabled a \<and> r \<in> set roles \<and> has_role a sender r)"

definition acting :: "address \<Rightarrow> address option \<Rightarrow> address" where
  "acting sender alternative_owner = (case alternative_owner of Some a \<Rightarrow> a | None \<Rightarrow> sender)"

definition may_write :: "(address \<Rightarrow> account option) \<Rightarrow> role list \<Rightarrow> address \<Rightarrow> address \<Rightarrow> kv_metadata option \<Rightarrow> bool" where
  "may_write A roles sender owner x \<longleftrightarrow>
    acts_for A roles sender owner \<and> (case x of Some m \<Rightarrow> kvm_owner m = owner | None \<Rightarrow> True)"

text \<open>What a command may do to the abstract store, with \<open>A\<close> the accounts.\<close>

fun kv_spec_step :: "(address \<Rightarrow> account option) \<Rightarrow> address \<Rightarrow> kv_command \<Rightarrow> kv_map \<Rightarrow> kv_map \<Rightarrow> bool" where
  "kv_spec_step A sender (KvPut a) g g' \<longleftrightarrow>
     (let owner = acting sender (pa_alternative_owner a) in
      may_write A [CanKvStorePut, Owner] sender owner (fst (g (pa_key a))) \<and>
      g' = g(pa_key a := (Some \<lparr>kvm_owner = owner, kvm_disabled = Some (Inl False), kvm_previous_owner = None\<rparr>,
        Some (pa_value a))))"
| "kv_spec_step A sender (KvDisable a) g g' \<longleftrightarrow>
     (let owner = acting sender (kda_alternative_owner a) in
      may_write A [CanKvStoreDisable, Owner] sender owner (fst (g (kda_key a))) \<and>
      kv_enabled (fst (g (kda_key a))) \<and> snd (g (kda_key a)) \<noteq> None \<and>
      g' = g(kda_key a := (Some \<lparr>kvm_owner = owner,
          kvm_disabled = Some (case kda_reason a of Some r \<Rightarrow> Inr r | None \<Rightarrow> Inl True), kvm_previous_owner = None\<rparr>,
        snd (g (kda_key a)))))"
| "kv_spec_step A sender (KvTransfer a) g g' \<longleftrightarrow>
     (let owner = acting sender (ta_alternative_owner a) in
      may_write A [CanKvStoreTransfer, Owner] sender owner (fst (g (ta_key a))) \<and>
      kv_enabled (fst (g (ta_key a))) \<and> snd (g (ta_key a)) \<noteq> None \<and> \<not> is_anonymous (ta_new_owner a) \<and>
      (\<exists>m. fst (g (ta_key a)) = Some m \<and>
        g' = g(ta_key a := (Some \<lparr>kvm_owner = ta_new_owner a, kvm_disabled = kvm_disabled m, kvm_previous_owner = Some owner\<rparr>,
          snd (g (ta_key a))))))"
| "kv_spec_step A sender c g g' \<longleftrightarrow> g' = g"

section \<open>The commands implement the abstract store\<close>

lemma kv_abs_cong: "(\<And>k. \<not> service_key k \<Longrightarrow> f k = g k) \<Longrightarrow> kv_abs E f = kv_abs E g"
  by (auto simp: kv_abs_def meta_at_def)

lemma kv_abs_service [simp]: "service_key k \<Longrightarrow> kv_abs E (f(k := x)) = kv_abs E f"
  by (rule kv_abs_cong) auto

lemma kv_abs_acl:
  "codec_ok (metadata_codec E) \<Longrightarrow> enc (metadata_codec E) m = Inr v \<Longrightarrow>
   kv_abs E (f(KVSTORE_ACL_ROOT @ key := Some v)) = (kv_abs E f)(key := (Some m, snd (kv_abs E f key)))"
  by (rule ext) (simp add: kv_abs_def meta_at_def codec_okD)

lemma kv_abs_value: "kv_abs E (f(KVSTORE_ROOT @ key := Some v)) = (kv_abs E f)(key := (fst (kv_abs E f key), Some (val_bytes E v)))"
  by (rule ext) (simp add: kv_abs_def meta_at_def)

lemma account_at_other: "k \<noteq> key_for_account E i \<Longrightarrow> account_at E (f(k := x)) i = account_at E f i"
  by (simp add: account_at_def)

lemma kv_logged_abs:
  assumes "kv_logged E V ev f s t"
  shows "kv_abs E (kv V t) = kv_abs E f" "account_at E (kv V t) = account_at E f"
proof -
  show "kv_abs E (kv V t) = kv_abs E f"
    using assms by (auto simp: kv_logged_def)
  show "account_at E (kv V t) = account_at E f"
    using assms by (auto simp: kv_logged_def account_at_other)
qed

lemma kv_get_account_Ok:
  assumes "merk_laws E V C" "fst (kv_get_account E i s) = Some a"
  shows "account_at E (kv V s) i = Some a" "is_enabled a"
  using assms
  by (auto simp: kv_get_account_def kv_get_account_even_disabled_def Let_def account_at_def merk_laws_def
      split: sum.splits option.splits if_splits)

lemma acting_owner_Ok:
  assumes "merk_laws E V C" "acting_owner E sender alt roles s = Ok owner"
  shows "owner = acting sender alt \<and> acts_for (account_at E (kv V s)) roles sender owner"
proof (cases alt)
  case None
  then show ?thesis using assms(2) by (simp add: acting_owner_def acting_def acts_for_def)
next
  case (Some a)
  then have a: "validate_alternative_owner E sender a roles s = Ok ()" "owner = a"
    using assms(2) by (auto simp: acting_owner_def act_simps)
  then obtain acc where "fst (kv_get_account E a s) = Some acc" "needs_role acc sender roles = Ok ()"
    by (auto simp: validate_alternative_owner_def split: option.splits if_splits)
  with kv_get_account_Ok [OF assms(1)] a Some show ?thesis
    by (auto simp: acting_def acts_for_def needs_role_def needs_role_loop_Ok)
qed

lemma kv_get_raw_Ok: "merk_laws E V C \<Longrightarrow> kv_get_raw E key p s = Ok x \<Longrightarrow> kv V s (p @ key) = x"
  by (auto simp: kv_get_raw_def act_simps merk_laws_def)

lemma kv_verify_acl_Ok:
  assumes "merk_laws E V C" "kv_verify_acl E owner key s = Ok ()"
  shows "case meta_at E (kv V s) key of Some m \<Rightarrow> kvm_owner m = owner | None \<Rightarrow> True"
proof -
  obtain x where x: "kv_get_raw E key KVSTORE_ACL_ROOT s = Ok x"
    "(case x of Some cbor \<Rightarrow> res_bind (from_sum deserialization_error (dec (metadata_codec E) cbor))
        (\<lambda>meta. if kvm_owner meta = owner then Ok () else Err (kvstore_error PermissionDenied)) | None \<Rightarrow> Ok ()) = Ok ()"
    using assms(2) by (auto simp: kv_verify_acl_def kv_get_metadata_def act_simps)
  show ?thesis
    using x(2) kv_get_raw_Ok [OF assms(1) x(1)]
    by (cases x) (auto simp: meta_at_def act_simps split: if_splits)
qed

lemma kv_may_write:
  assumes "merk_laws E V C" "acting_owner E sender alt roles s = Ok owner" "kv_verify_acl E owner key s = Ok ()"
  shows "owner = acting sender alt" "may_write (account_at E (kv V s)) roles sender owner (fst (kv_abs E (kv V s) key))"
  using acting_owner_Ok [OF assms(1,2)] kv_verify_acl_Ok [OF assms(1,3)]
  by (simp_all add: may_write_def kv_abs_def split: option.splits)

lemma kv_get_Ok:
  assumes "merk_laws E V C" "kv_get E key s = Ok x"
  shows "x = snd (kv_abs E (kv V s) key)" "kv_enabled (fst (kv_abs E (kv V s) key))"
proof -
  let ?check = "\<lambda>m. case kvm_disabled m of None \<Rightarrow> Ok ()
    | Some either \<Rightarrow> (case either of Inl False \<Rightarrow> Ok () | _ \<Rightarrow> Err (kvstore_error KeyDisabled))"
  have check: "kv_enabled (Some m)" if "?check m = Ok ()" for m
    using that by (cases "kvm_disabled m"; cases "the (kvm_disabled m)") (auto simp: kv_enabled_def split: bool.splits)
  obtain y v where y: "kv_get_raw E key KVSTORE_ACL_ROOT s = Ok y" "kv_get_raw E key KVSTORE_ROOT s = Ok v"
    "x = map_option (val_bytes E) v"
    "(case y of Some cbor \<Rightarrow> res_bind (from_sum deserialization_error (dec (metadata_codec E) cbor)) ?check | None \<Rightarrow> Ok ()) = Ok ()"
    using assms(2) by (auto simp: kv_get_def act_simps)
  note r = kv_get_raw_Ok [OF assms(1) y(1)] kv_get_raw_Ok [OF assms(1) y(2)]
  show "x = snd (kv_abs E (kv V s) key)"
    using y(3) r by (simp add: kv_abs_def)
  show "kv_enabled (fst (kv_abs E (kv V s) key))"
  proof (cases y)
    case None
    then show ?thesis using r by (simp add: kv_abs_def meta_at_def kv_enabled_def)
  next
    case (Some cbor)
    then obtain m where "dec (metadata_codec E) cbor = Inr m" "?check m = Ok ()"
      using y(4) by (auto simp: act_simps)
    with Some r check show ?thesis by (simp add: kv_abs_def meta_at_def)
  qed
qed

lemma kv_module_query_Ok:
  "merk_laws E V C \<Longrightarrow> kv_module_query E key s = Ok m \<Longrightarrow> meta_at E (kv V s) key = Some m"
  by (auto simp: kv_module_query_def kv_get_metadata_def meta_at_def act_simps dest!: kv_get_raw_Ok)

text \<open>Each command on a key, with the entry it leaves.\<close>

lemma kv_put_Ok:
  assumes "merk_laws E V C" "codec_ok (metadata_codec E)" "kv_put E meta key value s = (Ok u, t)"
  shows "kv_abs E (kv V t) = (kv_abs E (kv V s))(key := (Some meta, Some value))"
    "account_at E (kv V t) = account_at E (kv V s)"
proof -
  obtain v where v: "enc (metadata_codec E) meta = Inr v"
    and w: "bnd (kv_apply E (from_sum unknown) [(KVSTORE_ACL_ROOT @ key, Put v), (KVSTORE_ROOT @ key, put_bytes E value)])
      (\<lambda>_. bnd (kv_log_event E (EvKvStorePut key value (kvm_owner meta))) (\<lambda>_. kv_maybe_flush E unwrap_sum)) s = (Ok u, t)"
    using assms(3) by (auto simp: kv_put_def act_simps)
  note G = kv_logged_abs [OF kv_write_Ok(2) [OF assms(1) w]]
  show "kv_abs E (kv V t) = (kv_abs E (kv V s))(key := (Some meta, Some value))"
    using G(1) by (simp add: put_bytes_def kv_abs_value kv_abs_acl [OF assms(2) v] merk_laws_val [OF assms(1)])
  show "account_at E (kv V t) = account_at E (kv V s)"
    using G(2) by (auto simp: put_bytes_def account_at_other)
qed

lemma kv_acl_write_Ok:
  assumes "merk_laws E V C" "codec_ok (metadata_codec E)" "enc (metadata_codec E) meta = Inr v"
    and "bnd (kv_apply E (from_sum unknown) [(KVSTORE_ACL_ROOT @ key, Put v)])
      (\<lambda>_. bnd (kv_log_event E ev) (\<lambda>_. kv_maybe_flush E unwrap_sum)) s = (Ok u, t)"
  shows "kv_abs E (kv V t) = (kv_abs E (kv V s))(key := (Some meta, snd (kv_abs E (kv V s) key)))"
    "account_at E (kv V t) = account_at E (kv V s)"
proof -
  note G = kv_logged_abs [OF kv_write_Ok(2) [OF assms(1,4)]]
  show "kv_abs E (kv V t) = (kv_abs E (kv V s))(key := (Some meta, snd (kv_abs E (kv V s) key)))"
    using G(1) by (simp add: kv_abs_acl [OF assms(2,3)])
  show "account_at E (kv V t) = account_at E (kv V s)"
    using G(2) by (auto simp: account_at_other)
qed

lemma kv_disable_Ok:
  assumes "merk_laws E V C" "codec_ok (metadata_codec E)" "kv_disable E meta key s = (Ok u, t)"
  shows "kv_abs E (kv V t) = (kv_abs E (kv V s))(key := (Some meta, snd (kv_abs E (kv V s) key)))"
    "account_at E (kv V t) = account_at E (kv V s)"
  using assms(3) kv_acl_write_Ok [OF assms(1,2)] by (auto simp: kv_disable_def Let_def lift_result_Ok bnd_Ok [of "lift_result _"] from_sum_Ok)

lemma kv_transfer_Ok:
  assumes "merk_laws E V C" "codec_ok (metadata_codec E)" "kv_transfer E key prev meta s = (Ok u, t)"
  shows "kv_abs E (kv V t) = (kv_abs E (kv V s))(key := (Some meta, snd (kv_abs E (kv V s) key)))"
    "account_at E (kv V t) = account_at E (kv V s)"
  using assms(3) kv_acl_write_Ok [OF assms(1,2)] by (auto simp: kv_transfer_def lift_result_Ok bnd_Ok [of "lift_result _"] from_sum_Ok)

text \<open>The commands on accounts leave the keys alone and write an account that exists or a new subresource.\<close>

definition kv_account_change ::
  "('m, 'v) ext \<Rightarrow> ('m \<Rightarrow> bytes \<Rightarrow> 'v option) \<Rightarrow> ('m \<Rightarrow> bytes \<Rightarrow> 'v option) \<Rightarrow> 'm kv_storage \<Rightarrow> 'm kv_storage \<Rightarrow> bool" where
  "kv_account_change E V C s t \<longleftrightarrow> kv C t = (if kv_blockchain s then kv C s else kv V t) \<and>
    (\<exists>ev f i v. kv_logged E V ev f s t \<and>
      (f = (kv V s)(key_for_account E i := Some v) \<or> (\<exists>n. f = (kv V s)(subresource_key := Some n, key_for_account E i := Some v))) \<and>
      (account_at E (kv V s) i \<noteq> None \<or> is_subresource i))"

lemma existing_account_Ok: "merk_laws E V C \<Longrightarrow> existing_account E i s = Ok a \<Longrightarrow> account_at E (kv V s) i = Some a"
  using kv_get_account_Ok by (auto simp: existing_account_def act_simps)

lemma kv_account_writeI:
  assumes "merk_laws E V C" "existing_account E i s = Ok a"
    and "bnd (kv_log_event E ev) (\<lambda>_. kv_commit_account E i a') s = (Ok key, t)"
  shows "kv_account_change E V C s t"
proof -
  obtain v where "kv_logged E V ev ((kv V s)(key_for_account E i := Some v)) s t"
    "kv C t = (if kv_blockchain s then kv C s else kv V t)"
    by (rule kv_account_write_Ok [OF assms(1,3)])
  with existing_account_Ok [OF assms(1,2)] show ?thesis
    unfolding kv_account_change_def by blast
qed

lemmas kv_account_defs =
  kv_account_set_description_def kv_account_add_roles_def kv_account_remove_roles_def kv_account_add_features_def
  kv_set_description_def kv_add_roles_def kv_remove_roles_def kv_add_features_def

lemmas kv_guards_Ok = query_Ok lift_result_Ok fail_if_Ok ret_Ok
  bnd_Ok [of "query _"] bnd_Ok [of "lift_result _"] bnd_Ok [of "fail_if _ _"] bnd_Ok [of _ "\<lambda>_. ret _"]

lemma kv_account_commands:
  assumes L: "merk_laws E V C" and run: "kv_execute E sender c s = (Ok (), t)"
    and c: "c \<notin> range KvPut" "c \<notin> range KvDisable" "c \<notin> range KvTransfer"
  shows "kv_account_change E V C s t"
proof (cases c)
  case (KvAccountCreate a)
  then obtain i keys where "kv_add_account E (account_create sender a) True s = (Ok (i, keys), t)"
    using run by (auto simp: kv_account_create_def Let_def act_simps)
  then obtain v n ev where "with_subresource_id (kv_root_identity s) (kv_next_subresource s) = Ok i"
    "kv_logged E V ev ((kv V s)(subresource_key := Some n, key_for_account E i := Some v)) s t"
    "kv C t = (if kv_blockchain s then kv C s else kv V t)"
    by (rule kv_add_account_Ok [OF L])
  then show ?thesis
    unfolding kv_account_change_def subresource_roundtrip by blast
next
  case (KvSetDescription a)
  then show ?thesis
    using run by (auto simp: kv_account_defs kv_guards_Ok intro: kv_account_writeI [OF L])
next
  case (KvAddRoles a)
  then show ?thesis
    using run by (auto simp: kv_account_defs kv_guards_Ok intro: kv_account_writeI [OF L])
next
  case (KvRemoveRoles a)
  then show ?thesis
    using run by (auto simp: kv_account_defs kv_guards_Ok intro: kv_account_writeI [OF L])
next
  case (KvAddFeatures a)
  then show ?thesis
    using run by (auto simp: kv_account_defs kv_guards_Ok Let_def intro: kv_account_writeI [OF L])
next
  case (KvAccountDisable a)
  then obtain keys where "kv_disable_account E (da_account a) s = (Ok keys, t)"
    using run by (auto simp: kv_account_disable_def act_simps)
  then obtain acc v where "account_at E (kv V s) (da_account a) = Some acc"
    "kv_logged E V (EvAccountDisable (da_account a)) ((kv V s)(key_for_account E (da_account a) := Some v)) s t"
    "kv C t = (if kv_blockchain s then kv C s else kv V t)"
    by (rule kv_disable_account_Ok [OF L])
  then show ?thesis
    unfolding kv_account_change_def by blast
qed (use c in auto)

lemma kv_account_change_abs:
  assumes "kv_account_change E V C s t"
  shows "kv_abs E (kv V t) = kv_abs E (kv V s)"
  using assms by (auto simp: kv_account_change_def dest: kv_logged_abs(1))

lemma kv_module_put_refines:
  assumes "merk_laws E V C" "codec_ok (metadata_codec E)" "kv_module_put E sender a s = (Ok (), t)"
  shows "kv_spec_step (account_at E (kv V s)) sender (KvPut a) (kv_abs E (kv V s)) (kv_abs E (kv V t))"
proof -
  obtain owner where o: "acting_owner E sender (pa_alternative_owner a) [CanKvStorePut, Owner] s = Ok owner"
    "kv_verify_acl E owner (pa_key a) s = Ok ()"
    and p: "kv_put E \<lparr>kvm_owner = owner, kvm_disabled = Some (Inl False), kvm_previous_owner = None\<rparr> (pa_key a) (pa_value a) s = (Ok (), t)"
    using assms(3) by (auto simp: kv_module_put_def kv_guards_Ok)
  show ?thesis
    using kv_may_write [OF assms(1) o] kv_put_Ok(1) [OF assms(1,2) p] by (simp add: Let_def)
qed

lemma kv_module_disable_refines:
  assumes "merk_laws E V C" "codec_ok (metadata_codec E)" "kv_module_disable E sender a s = (Ok (), t)"
  shows "kv_spec_step (account_at E (kv V s)) sender (KvDisable a) (kv_abs E (kv V s)) (kv_abs E (kv V t))"
proof -
  obtain x owner where x: "kv_get E (kda_key a) s = Ok x" "x \<noteq> None"
    and o: "acting_owner E sender (kda_alternative_owner a) [CanKvStoreDisable, Owner] s = Ok owner"
      "kv_verify_acl E owner (kda_key a) s = Ok ()"
    and d: "kv_disable E \<lparr>kvm_owner = owner, kvm_disabled = Some (case kda_reason a of Some r \<Rightarrow> Inr r | None \<Rightarrow> Inl True),
      kvm_previous_owner = None\<rparr> (kda_key a) s = (Ok (), t)"
    using assms(3) by (auto simp: kv_module_disable_def Let_def kv_guards_Ok)
  show ?thesis
    using kv_get_Ok [OF assms(1) x(1)] x(2) kv_may_write [OF assms(1) o] kv_disable_Ok(1) [OF assms(1,2) d]
    by (simp add: Let_def)
qed

lemma kv_module_transfer_refines:
  assumes "merk_laws E V C" "codec_ok (metadata_codec E)" "kv_module_transfer E sender a s = (Ok (), t)"
  shows "kv_spec_step (account_at E (kv V s)) sender (KvTransfer a) (kv_abs E (kv V s)) (kv_abs E (kv V t))"
proof -
  obtain x owner m where x: "kv_get E (ta_key a) s = Ok x" "x \<noteq> None" "\<not> is_anonymous (ta_new_owner a)"
    and m: "kv_module_query E (ta_key a) s = Ok m"
    and o: "acting_owner E sender (ta_alternative_owner a) [CanKvStoreTransfer, Owner] s = Ok owner"
      "kv_verify_acl E owner (ta_key a) s = Ok ()"
    and d: "kv_transfer E (ta_key a) owner \<lparr>kvm_owner = ta_new_owner a, kvm_disabled = kvm_disabled m,
      kvm_previous_owner = Some (kvm_owner m)\<rparr> s = (Ok (), t)"
    using assms(3) by (auto simp: kv_module_transfer_def kv_guards_Ok)
  have meta: "fst (kv_abs E (kv V s) (ta_key a)) = Some m"
    using kv_module_query_Ok [OF assms(1) m] by (simp add: kv_abs_def)
  have owner: "kvm_owner m = owner"
    using kv_may_write(2) [OF assms(1) o] meta by (simp add: may_write_def)
  show ?thesis
    using kv_get_Ok [OF assms(1) x(1)] x(2,3) kv_may_write [OF assms(1) o] kv_transfer_Ok(1) [OF assms(1,2) d] meta owner
    by (simp add: Let_def)
qed

lemma kv_execute_refines:
  assumes "merk_laws E V C" "codec_ok (metadata_codec E)" "kv_execute E sender c s = (Ok (), t)"
  shows "kv_spec_step (account_at E (kv V s)) sender c (kv_abs E (kv V s)) (kv_abs E (kv V t))"
proof (cases "c \<in> range KvPut \<union> range KvDisable \<union> range KvTransfer")
  case True
  then show ?thesis
    using assms(3) kv_module_put_refines [OF assms(1,2)] kv_module_disable_refines [OF assms(1,2)]
      kv_module_transfer_refines [OF assms(1,2)] by auto
next
  case False
  then have "kv_abs E (kv V t) = kv_abs E (kv V s)"
    using kv_account_change_abs kv_account_commands [OF assms(1,3)] by blast
  then show ?thesis
    using False by (cases c) auto
qed

text \<open>C8: Every command of the key-value store that succeeds is a step of the abstract store: a put sets the
  value and makes the acting owner the owner, a disable and a transfer only change the metadata of an existing
  key that is not disabled, no other key changes, and the sender acts for the owner the key had.\<close>

theorem kv_commands_refine:
  assumes "merk_laws E V C" "codec_ok (metadata_codec E)" "kv_execute E sender c s = (Ok (), t)"
  shows "kv_spec_step (account_at E (kv V s)) sender c (kv_abs E (kv V s)) (kv_abs E (kv V t))"
  by (rule kv_execute_refines [OF assms])

section \<open>Entries that can no longer change\<close>

text \<open>
  The steps of the service: commands of senders that can sign requests (the server refuses the illegal
  address), the start of a block and its commit.
\<close>

inductive kv_step :: "('m, 'v) ext \<Rightarrow> 'm kv_storage \<Rightarrow> 'm kv_storage \<Rightarrow> bool" for E where
  command: "\<not> is_illegal sender \<Longrightarrow> kv_execute E sender c s = (Ok (), t) \<Longrightarrow> kv_step E s t"
| block_start: "kv_begin_block E time s = (Ok (), t) \<Longrightarrow> kv_step E s t"
| block_end: "kv_commit E s = (Ok info, t) \<Longrightarrow> kv_step E s t"

text \<open>The accounts are subresources, and the entry of the key is owned by the illegal address.\<close>

definition kv_frozen :: "('m, 'v) ext \<Rightarrow> ('m \<Rightarrow> bytes \<Rightarrow> 'v option) \<Rightarrow> ('m \<Rightarrow> bytes \<Rightarrow> 'v option) \<Rightarrow>
    bytes \<Rightarrow> kv_metadata \<times> bytes option \<Rightarrow> 'm kv_storage \<Rightarrow> bool" where
  "kv_frozen E V C key e s \<longleftrightarrow>
    merk_laws E V C \<and> codec_ok (metadata_codec E) \<and>
    (\<forall>i. account_at E (kv V s) i \<noteq> None \<longrightarrow> is_subresource i) \<and>
    kvm_owner (fst e) = Illegal \<and> kv_abs E (kv V s) key = (Some (fst e), snd e)"

lemma kv_commit_Ok:
  assumes L: "merk_laws E V C" and run: "kv_commit E s = (Ok info, t)"
  shows "kv_abs E (kv V t) = kv_abs E (kv V s)" "account_at E (kv V t) = account_at E (kv V s)"
    "kv_latest_event_id t = kv_latest_event_id s"
    "\<exists>v. enc (event_id_codec E) (kv_latest_event_id s) = Inr v \<and> kv C t = kv V t \<and> kv V t latest_event_key = Some v"
proof -
  obtain h v s1 s2 s3 where a: "kv_apply E unwrap_sum [(utf8 HEIGHT_ROOT, put_bytes E (u64_to_be_bytes (h + 1)))] s = (Ok (), s1)"
    and v: "enc (event_id_codec E) (kv_latest_event_id s1) = Inr v"
    and b: "kv_apply E unwrap_sum [(latest_event_key, Put v)] s1 = (Ok (), s2)"
    and c: "kv_flush E unwrap_sum s2 = (Ok (), s3)" and t: "kv_persistent_store t = kv_persistent_store s3"
      "kv_latest_event_id t = kv_latest_event_id s3"
    using run by (auto simp: kv_commit_def kv_inc_height_def act_simps)
  note A = kv_apply_Ok [OF L strict_sites(2) a] and B = kv_apply_Ok [OF L strict_sites(2) b]
  obtain m where m: "merk_commit E (kv_persistent_store s2) = (Inr (), m)" "s3 = s2\<lparr>kv_persistent_store := m\<rparr>"
    using c by (auto simp: kv_flush_def act_simps split: prod.splits)
  have F: "V m = kv V s2" "C m = kv V s2"
    using L m(1) unfolding merk_laws_def by blast+
  have V: "kv V t = (kv V s)(utf8 HEIGHT_ROOT := Some (val_of_bytes E (u64_to_be_bytes (h + 1))), latest_event_key := Some v)"
    using A B t m F by (simp add: put_bytes_def)
  show "kv_abs E (kv V t) = kv_abs E (kv V s)" "account_at E (kv V t) = account_at E (kv V s)"
    using V by (auto simp: account_at_other)
  show "kv_latest_event_id t = kv_latest_event_id s"
    using A B t m by simp
  show "\<exists>v. enc (event_id_codec E) (kv_latest_event_id s) = Inr v \<and> kv C t = kv V t \<and> kv V t latest_event_key = Some v"
    using V v A t m F by auto
qed

lemma kv_key_commands_accounts:
  assumes "merk_laws E V C" "codec_ok (metadata_codec E)" "kv_execute E sender c s = (Ok (), t)"
    and "c \<in> range KvPut \<union> range KvDisable \<union> range KvTransfer"
  shows "account_at E (kv V t) = account_at E (kv V s)"
  using assms(3,4) kv_put_Ok(2) [OF assms(1,2)] kv_disable_Ok(2) [OF assms(1,2)] kv_transfer_Ok(2) [OF assms(1,2)]
  by (auto simp: kv_module_put_def kv_module_disable_def kv_module_transfer_def Let_def kv_guards_Ok)

lemma kv_new_accounts:
  assumes L: "merk_laws E V C" and md: "codec_ok (metadata_codec E)" and run: "kv_execute E sender c s = (Ok (), t)"
    and new: "account_at E (kv V t) i \<noteq> None"
  shows "account_at E (kv V s) i \<noteq> None \<or> is_subresource i"
proof (cases "c \<in> range KvPut \<union> range KvDisable \<union> range KvTransfer")
  case True
  then show ?thesis
    using kv_key_commands_accounts [OF L md run] new by simp
next
  case False
  then obtain ev f j v where f: "kv_logged E V ev f s t" "account_at E (kv V s) j \<noteq> None \<or> is_subresource j"
    "f = (kv V s)(key_for_account E j := Some v) \<or> (\<exists>n. f = (kv V s)(subresource_key := Some n, key_for_account E j := Some v))"
    using kv_account_commands [OF L run] unfolding kv_account_change_def by blast
  show ?thesis
  proof (cases "i = j")
    case True
    then show ?thesis using f(2) by simp
  next
    case False
    then have "key_for_account E j \<noteq> key_for_account E i"
      using address_key_inject(1) [OF merk_laws_addr [OF L]] by simp
    then have "account_at E f i = account_at E (kv V s) i"
      using f(3) by (auto simp: account_at_other)
    then show ?thesis
      using new kv_logged_abs(2) [OF f(1)] by simp
  qed
qed

lemma frozen_entry_kept:
  assumes step: "kv_spec_step A sender c g g'" and e: "fst (g key) = Some m" "kvm_owner m = Illegal"
    and sender: "\<not> is_illegal sender" and A: "A Illegal = None"
  shows "g' key = g key"
proof -
  have no: "\<not> may_write A roles sender owner (Some m)" for roles owner
    using e(2) sender A by (auto simp: may_write_def acts_for_def)
  show ?thesis
    using step no e(1) by (cases c) (auto simp: Let_def)
qed

lemma kv_frozen_step:
  assumes "kv_step E s t" "kv_frozen E V C key e s"
  shows "kv_frozen E V C key e t"
proof -
  have L: "merk_laws E V C" and md: "codec_ok (metadata_codec E)"
    and acc: "\<And>i. account_at E (kv V s) i \<noteq> None \<Longrightarrow> is_subresource i"
    and e: "kvm_owner (fst e) = Illegal" "kv_abs E (kv V s) key = (Some (fst e), snd e)"
    using assms(2) by (auto simp: kv_frozen_def)
  have "(\<forall>i. account_at E (kv V t) i \<noteq> None \<longrightarrow> is_subresource i) \<and> kv_abs E (kv V t) key = kv_abs E (kv V s) key"
    using assms(1)
  proof cases
    case (command sender c)
    have "account_at E (kv V s) Illegal = None"
      using acc [of Illegal] by (cases "account_at E (kv V s) Illegal") auto
    then have "kv_abs E (kv V t) key = kv_abs E (kv V s) key"
      using frozen_entry_kept [OF kv_execute_refines [OF L md command(2)] _ e(1) command(1)] e(2) by simp
    with kv_new_accounts [OF L md command(2)] acc show ?thesis by blast
  next
    case (block_start time)
    then have "kv V t = kv V s"
      by (auto simp: kv_begin_block_def kv_set_time_def act_simps split: option.splits)
    with acc show ?thesis by simp
  next
    case (block_end info)
    with kv_commit_Ok(1,2) [OF L block_end] acc show ?thesis by simp
  qed
  then show ?thesis
    using L md e by (simp add: kv_frozen_def)
qed

interpretation frozen_life: transition_invariant "kv_step E" "kv_frozen E V C key e" for E V C key e
  by unfold_locales (rule kv_frozen_step)

text \<open>C16: A key that was transferred to the illegal address is immutable: no sequence of commands and blocks
  changes its value or its metadata.\<close>

theorem frozen_key_immutable:
  assumes "(kv_step E)\<^sup>*\<^sup>* s t" "kv_frozen E V C key e s"
  shows "kv_abs E (kv V t) key = (Some (fst e), snd e)"
  using frozen_life.reachable [OF assms] by (simp add: kv_frozen_def)

section \<open>Puts succeed\<close>

lemma kv_apply_reliable:
  assumes "merk_reliable E V C" "keys_sorted ops" "\<And>k. (k, Delete) \<notin> set ops"
  shows "\<exists>m. kv_apply E c ops s = (c (Inr ()), s\<lparr>kv_persistent_store := m\<rparr>)"
proof -
  have "fst (merk_apply E (kv_persistent_store s) ops) = Inr ()"
    using assms unfolding merk_reliable_def by blast
  then show ?thesis
    by (cases "merk_apply E (kv_persistent_store s) ops") (auto simp: kv_apply_def)
qed

lemma kv_maybe_flush_reliable:
  assumes "merk_reliable E V C" "c (Inr ()) = Ok ()"
  shows "\<exists>t. kv_maybe_flush E c s = (Ok (), t)"
proof -
  have "fst (merk_commit E (kv_persistent_store s)) = Inr ()"
    using assms unfolding merk_reliable_def by blast
  then show ?thesis
    using assms(2)
    by (cases "merk_commit E (kv_persistent_store s)"; cases "kv_blockchain s") (simp_all add: kv_maybe_flush_def kv_flush_def)
qed

lemma kv_log_event_reliable:
  assumes "merk_reliable E V C" "codec_total (event_codec E)" "u64_slot E EVENT_COUNT_ROOT (kv V s)"
  obtains t where "kv_log_event E ev s = (Ok (), t)"
proof -
  let ?i = "kv_next_id E s" and ?n = "u64_at E EVENT_COUNT_ROOT (kv V s)"
  let ?s = "s\<lparr>kv_latest_event_id := ?i\<rparr>"
  have n: "kv_nb_events E s = Ok ?n"
    using assms(1,3) by (cases "kv V s EVENT_COUNT_ROOT")
      (simp_all add: kv_nb_events_def merk_reliable_def u64_slot_def u64_at_def read_u64_def)
  obtain v where v: "enc (event_codec E) \<lparr>el_id = ?i, el_time = kv_now E ?s, el_content = ev\<rparr> = Inr v"
    using assms(2) by (auto simp: codec_total_def)
  obtain m where m: "kv_apply E unwrap_sum [(key_for_event ?i, Put v), (EVENT_COUNT_ROOT, put_bytes E (u64_to_be_bytes (?n + 1)))] ?s =
      (unwrap_sum (Inr ()), ?s\<lparr>kv_persistent_store := m\<rparr>)"
    using kv_apply_reliable [OF assms(1), of "[(key_for_event ?i, Put v), (EVENT_COUNT_ROOT, put_bytes E (u64_to_be_bytes (?n + 1)))]"
      unwrap_sum ?s] by (auto simp: put_bytes_def)
  obtain t where "kv_maybe_flush E unwrap_sum (?s\<lparr>kv_persistent_store := m\<rparr>) = (Ok (), t)"
    using kv_maybe_flush_reliable [OF assms(1), of unwrap_sum] by auto
  then have "kv_log_event E ev s = (Ok (), t)"
    using n v m by (simp add: kv_log_event_def kv_new_event_id_def Let_def query_def lift_result_def bnd_def)
  then show thesis by (rule that)
qed

lemma kv_module_put_reliable:
  assumes L: "merk_laws E V C" and R: "merk_reliable E V C"
    and total: "codec_total (metadata_codec E)" "codec_total (event_codec E)" and slot: "u64_slot E EVENT_COUNT_ROOT (kv V s)"
    and own: "pa_alternative_owner a = None" "kv V s (KVSTORE_ACL_ROOT @ pa_key a) = None"
  obtains t where "kv_execute E sender (KvPut a) s = (Ok (), t)"
proof -
  let ?meta = "\<lparr>kvm_owner = sender, kvm_disabled = Some (Inl False), kvm_previous_owner = None\<rparr>"
  obtain v where v: "enc (metadata_codec E) ?meta = Inr v"
    using total(1) by (auto simp: codec_total_def)
  let ?ops = "[(KVSTORE_ACL_ROOT @ pa_key a, Put v), (KVSTORE_ROOT @ pa_key a, put_bytes E (pa_value a))]"
  obtain m where m: "kv_apply E (from_sum unknown) ?ops s = (from_sum unknown (Inr ()), s\<lparr>kv_persistent_store := m\<rparr>)"
    using kv_apply_reliable [OF R, of ?ops "from_sum unknown" s] by (auto simp: put_bytes_def)
  then have a: "kv_apply E (from_sum unknown) ?ops s = (Ok (), s\<lparr>kv_persistent_store := m\<rparr>)" by simp
  have "u64_slot E EVENT_COUNT_ROOT (kv V (s\<lparr>kv_persistent_store := m\<rparr>))"
    using slot kv_apply_Ok(2) [OF L strict_sites(1) a] by (simp add: u64_slot_def put_bytes_def)
  then obtain s2 where l: "kv_log_event E (EvKvStorePut (pa_key a) (pa_value a) sender) (s\<lparr>kv_persistent_store := m\<rparr>) = (Ok (), s2)"
    using kv_log_event_reliable [OF R total(2)] by blast
  obtain t where t: "kv_maybe_flush E unwrap_sum s2 = (Ok (), t)"
    using kv_maybe_flush_reliable [OF R, of unwrap_sum] by auto
  have "kv_put E ?meta (pa_key a) (pa_value a) s = (Ok (), t)"
    using v a l t by (simp add: kv_put_def lift_result_def bnd_def)
  moreover have "kv_verify_acl E sender (pa_key a) s = Ok ()"
    using R own(2) by (simp add: kv_verify_acl_def kv_get_metadata_def kv_get_raw_def merk_reliable_def)
  ultimately show thesis
    using that own(1) by (simp add: kv_module_put_def acting_owner_def run_query)
qed

section \<open>Instances\<close>

definition some_put :: put_args where
  "some_put = \<lparr>pa_key = [3], pa_value = [4], pa_alternative_owner = None\<rparr>"

text \<open>A store with one key, which belongs to the illegal address.\<close>

definition illegal_meta :: kv_metadata where
  "illegal_meta = \<lparr>kvm_owner = Illegal, kvm_disabled = Some (Inl False), kvm_previous_owner = Some (PublicKey 1)\<rparr>"

definition one_key :: "mem kv_storage" where
  "one_key = (let m = [(KVSTORE_ACL_ROOT @ [1], SMetadata illegal_meta), (KVSTORE_ROOT @ [1], SBytes [2])] in
    \<lparr>kv_persistent_store = (m, m), kv_blockchain = False, kv_latest_event_id = [1], kv_current_time = None,
     kv_current_hash = None, kv_next_subresource = 0, kv_root_identity = PublicKey 0\<rparr>)"

lemma one_key_at:
  "kv mem_view one_key (KVSTORE_ACL_ROOT @ [3]) = None"
  "service_key k \<Longrightarrow> kv mem_view one_key k = None"
  "kv_abs mem_ext (kv mem_view one_key) [1] = (Some illegal_meta, Some [2])"
  by (auto simp: one_key_def Let_def kv_abs_def meta_at_def roots_differ)

lemma one_key_put: obtains t where "kv_execute mem_ext (PublicKey 1) (KvPut some_put) one_key = (Ok (), t)"
  by (rule kv_module_put_reliable [OF mem_laws mem_reliable, of one_key some_put "PublicKey 1"])
    (simp_all add: mem_codecs_total one_key_at u64_slot_def some_put_def)

theorem kv_commands_refine_witness:
  "\<exists>t. kv_execute mem_ext (PublicKey 1) (KvPut some_put) one_key = (Ok (), t) \<and>
    kv_spec_step (account_at mem_ext (kv mem_view one_key)) (PublicKey 1) (KvPut some_put)
      (kv_abs mem_ext (kv mem_view one_key)) (kv_abs mem_ext (kv mem_view t))"
proof -
  obtain t where t: "kv_execute mem_ext (PublicKey 1) (KvPut some_put) one_key = (Ok (), t)"
    by (rule one_key_put)
  with kv_commands_refine [OF mem_laws mem_codecs_ok(12) t] show ?thesis by blast
qed

theorem frozen_key_immutable_witness:
  "\<exists>t. kv_step mem_ext one_key t \<and> kv_abs mem_ext (kv mem_view t) [1] = (Some illegal_meta, Some [2])"
proof -
  obtain t where t: "kv_execute mem_ext (PublicKey 1) (KvPut some_put) one_key = (Ok (), t)"
    by (rule one_key_put)
  then have s: "kv_step mem_ext one_key t"
    by (rule kv_step.command [rotated]) simp
  have "kv_frozen mem_ext mem_view mem_committed [1] (illegal_meta, Some [2]) one_key"
    using mem_laws mem_codecs_ok(12) one_key_at
    by (simp add: kv_frozen_def account_at_def illegal_meta_def)
  from frozen_key_immutable [OF r_into_rtranclp [of "kv_step mem_ext", OF s] this] s show ?thesis by auto
qed

end
