(* ===== verification/Kv_Log.thy ===== *)
theory Kv_Log
  imports Kv_Module
begin

text \<open>
  What the key-value store lists, and its event log across restarts: \<open>kvstore.list\<close> returns the keys whose
  metadata passes the filters, in key order; the identifier of the latest event is written to the store at the
  end of a block only, so a service that does not run as a blockchain starts over after a restart.
\<close>

section \<open>Listings\<close>

text \<open>The keys a listing is about, read off the contents of the store.\<close>

definition matching_keys :: "('m, 'v) ext \<Rightarrow> key_filter_type list option \<Rightarrow> (bytes \<Rightarrow> 'v option) \<Rightarrow> bytes set" where
  "matching_keys E filters f =
    {key. f (KVSTORE_ACL_ROOT @ key) \<noteq> None \<and>
      (case filters of
         None \<Rightarrow> True
       | Some fs \<Rightarrow> fs = [] \<or> (\<exists>m. meta_at E f key = Some m \<and> (\<forall>x\<in>set fs. filter_key x m)))}"

lemma map_filter_list_item:
  "List.map_filter (list_item E filters) (map Inr es) =
   map fst (filter (\<lambda>e. list_item E filters (Inr e) \<noteq> None) es)"
proof -
  have "list_item E filters (Inr (k, v)) = Some k'  \<Longrightarrow> k' = k" for k k' v
    by (auto simp: list_item_def split: option.splits list.splits sum.splits if_splits)
  then show ?thesis
    by (induction es) (auto simp: List.map_filter_def)
qed

lemma map_filter_rev: "List.map_filter g (rev xs) = rev (List.map_filter g xs)"
  by (simp add: List.map_filter_def rev_filter rev_map)

lemma list_item_matching:
  assumes "f (KVSTORE_ACL_ROOT @ key) = Some v"
  shows "list_item E filters (Inr (KVSTORE_ACL_ROOT @ key, v)) \<noteq> None \<longleftrightarrow> key \<in> matching_keys E filters f"
  using assms by (auto simp: list_item_def matching_keys_def meta_at_def list_all_iff
      split: option.splits list.splits sum.splits)

lemma strict_sorted_unique:
  fixes xs :: "'a::linorder list"
  assumes "sorted_wrt (<) xs" "set xs = A"
  shows "xs = sorted_list_of_set A"
  using assms by (metis sorted_list_of_set.idem_if_sorted_distinct strict_sorted_iff)

lemma listed_keys:
  assumes sorted: "keys_sorted es"
    and es: "\<And>k. map_of es k = (if in_iter_range (PrefixRange KVSTORE_ACL_ROOT) k then f k else None)"
  shows "map (drop 1) (List.map_filter (list_item E filters) (map Inr es)) = sorted_list_of_set (matching_keys E filters f)"
proof (rule strict_sorted_unique)
  let ?P = "\<lambda>e. list_item E filters (Inr e) \<noteq> None"
  have one: "length KVSTORE_ACL_ROOT = 1"
    by (simp add: KVSTORE_ACL_ROOT_def utf8_Cons)
  have drop: "drop 1 (KVSTORE_ACL_ROOT @ key) = key" for key
    using one by simp
  have key: "\<exists>key. k = KVSTORE_ACL_ROOT @ key \<and> f k = Some v" if "(k, v) \<in> set es" for k v
  proof -
    have "map_of es k = Some v"
      using that keys_sorted_distinct [OF sorted] by (rule map_of_is_SomeI [rotated])
    then have "take (length KVSTORE_ACL_ROOT) k = KVSTORE_ACL_ROOT" "f k = Some v"
      using es [of k] by (auto simp: in_iter_range.simps split: if_splits)
    then show ?thesis by (metis append_take_drop_id)
  qed
  have ks: "sorted_wrt (<) (map fst (filter ?P es))"
    using sorted by (induction es) auto
  have pre: "\<exists>key. k = KVSTORE_ACL_ROOT @ key" if "k \<in> set (map fst (filter ?P es))" for k
    using that key by auto
  have "sorted_wrt (\<lambda>x y. drop 1 x < drop 1 y) (map fst (filter ?P es))"
  proof (rule sorted_wrt_mono_rel [OF _ ks])
    fix x y assume "x \<in> set (map fst (filter ?P es))" "y \<in> set (map fst (filter ?P es))" "x < y"
    then show "drop 1 x < drop 1 y"
      using pre drop by (metis append_less_same)
  qed
  then show "sorted_wrt (<) (map (drop 1) (List.map_filter (list_item E filters) (map Inr es)))"
    by (simp add: map_filter_list_item sorted_wrt_map)
  show "set (map (drop 1) (List.map_filter (list_item E filters) (map Inr es))) = matching_keys E filters f"
  proof (intro equalityI subsetI)
    fix x assume "x \<in> set (map (drop 1) (List.map_filter (list_item E filters) (map Inr es)))"
    then obtain k v where e: "(k, v) \<in> set es" "?P (k, v)" "x = drop 1 k"
      by (auto simp: map_filter_list_item)
    then obtain key where "k = KVSTORE_ACL_ROOT @ key" "f k = Some v"
      using key by blast
    with e drop list_item_matching [of f key v E filters] show "x \<in> matching_keys E filters f" by simp
  next
    fix x assume x: "x \<in> matching_keys E filters f"
    then obtain v where v: "f (KVSTORE_ACL_ROOT @ x) = Some v"
      by (auto simp: matching_keys_def)
    then have "(KVSTORE_ACL_ROOT @ x, v) \<in> set es"
      using es [of "KVSTORE_ACL_ROOT @ x"] by (auto simp: in_iter_range.simps intro: map_of_SomeD)
    moreover have "?P (KVSTORE_ACL_ROOT @ x, v)"
      using x list_item_matching [of f x v E filters] v by simp
    ultimately show "x \<in> set (map (drop 1) (List.map_filter (list_item E filters) (map Inr es)))"
      using drop [of x] by (force simp: map_filter_list_item image_image)
  qed
qed

text \<open>C17: A listing is the sorted list of the keys on disk whose metadata passes every filter, reversed for a
  descending order. The count of the request has no influence on it.\<close>

theorem kv_list_equivalent:
  assumes "merk_reliable E V C"
  shows "kv_module_list E args s =
    (if kla_order args = Some Descending then rev else id) (sorted_list_of_set (matching_keys E (kla_filter args) (kv C s)))"
proof -
  let ?m = "kv_persistent_store s" and ?r = "PrefixRange KVSTORE_ACL_ROOT"
  obtain es where es: "merk_iter E ?m IterStart ?r = map Inr es" "merk_iter E ?m IterEnd ?r = map Inr (rev es)"
    "keys_sorted es" "\<And>k. map_of es k = (if in_iter_range ?r k then kv C s k else None)"
    using assms unfolding merk_reliable_def by metis
  note L = listed_keys [OF es(3,4), of E "kla_filter args"]
  show ?thesis
    using L by (cases "kla_order args"; cases "the (kla_order args)")
      (simp_all add: kv_module_list_def kv_list_def all_keys_def order_mode_def es(1,2) map_filter_rev flip: rev_map)
qed

section \<open>The event log across restarts\<close>

text \<open>Every command adds one event and leaves the rest of the log and the stored identifier alone.\<close>

definition kv_log_step :: "('m, 'v) ext \<Rightarrow> ('m \<Rightarrow> bytes \<Rightarrow> 'v option) \<Rightarrow> ('m \<Rightarrow> bytes \<Rightarrow> 'v option) \<Rightarrow>
    event_info \<Rightarrow> 'm kv_storage \<Rightarrow> 'm kv_storage \<Rightarrow> bool" where
  "kv_log_step E V C ev s t \<longleftrightarrow>
    kv C t = (if kv_blockchain s then kv C s else kv V t) \<and> kv_blockchain t = kv_blockchain s \<and>
    kv_latest_event_id t = kv_next_id E s \<and> kv V t latest_event_key = kv V s latest_event_key \<and>
    (\<exists>v. enc (event_codec E) \<lparr>el_id = kv_next_id E s, el_time = kv_now E s, el_content = ev\<rparr> = Inr v \<and>
       (\<forall>i. kv V t (key_for_event i) =
         (if key_for_event i = key_for_event (kv_next_id E s) then Some v else kv V s (key_for_event i)))) \<and>
    kv V t EVENT_COUNT_ROOT =
      Some (val_of_bytes E (u64_to_be_bytes (u64_at E EVENT_COUNT_ROOT (kv V s) + 1)))"

lemma kv_log_stepI:
  assumes "kv_logged E V ev f s t" "kv C t = (if kv_blockchain s then kv C s else kv V t)"
    and "\<And>i. f (key_for_event i) = kv V s (key_for_event i)" "f EVENT_COUNT_ROOT = kv V s EVENT_COUNT_ROOT"
    and "f latest_event_key = kv V s latest_event_key"
  shows "kv_log_step E V C ev s t"
  using assms kv_ctx_eqD(1) [of t s] by (auto simp: kv_log_step_def kv_logged_def u64_at_def)

lemma kv_key_write_logs:
  assumes L: "merk_laws E V C"
    and run: "bnd (kv_apply E (from_sum unknown) ops) (\<lambda>_. bnd (kv_log_event E ev) (\<lambda>_. kv_maybe_flush E unwrap_sum)) s = (Ok (), t)"
    and ops: "fst ` set ops \<inter> {k. service_key k} = {}"
  shows "\<exists>ev. kv_log_step E V C ev s t"
proof -
  have "apply_ops (kv V s) ops k = kv V s k" if "service_key k" for k
    using that ops by (intro apply_ops_other) auto
  then show ?thesis
    using kv_log_stepI [OF kv_write_Ok(2,4) [OF L run]] by (metis service_keys(2,5,6))
qed

lemma kv_execute_logs:
  assumes L: "merk_laws E V C" and run: "kv_execute E sender c s = (Ok (), t)"
  shows "\<exists>ev. kv_log_step E V C ev s t"
proof (cases "c \<in> range KvPut \<union> range KvDisable \<union> range KvTransfer")
  case True
  then show ?thesis
    using run by (auto simp: kv_module_put_def kv_module_disable_def kv_module_transfer_def kv_put_def kv_disable_def
        kv_transfer_def Let_def kv_guards_Ok dest!: kv_key_write_logs [OF L])
next
  case False
  then have "kv_account_change E V C s t"
    using kv_account_commands [OF L run] by blast
  then obtain ev f where "kv_logged E V ev f s t" "kv C t = (if kv_blockchain s then kv C s else kv V t)"
    "\<And>i. f (key_for_event i) = kv V s (key_for_event i)" "f EVENT_COUNT_ROOT = kv V s EVENT_COUNT_ROOT"
    "f latest_event_key = kv V s latest_event_key"
    unfolding kv_account_change_def by auto
  then have "kv_log_step E V C ev s t"
    by (rule kv_log_stepI)
  then show ?thesis ..
qed

lemma kv_load_Ok:
  assumes "merk_laws E V C" "kv_load E txt opened b = Ok s"
  shows "opened = Inr (kv_persistent_store s)" "kv_blockchain s = b"
    "\<exists>w. kv V s latest_event_key = Some w \<and> dec (event_id_codec E) w = Inr (kv_latest_event_id s)"
proof -
  obtain store z w i where s: "opened = Inr store" "merk_get E store latest_event_key = Inr (Some w)"
    "dec (event_id_codec E) w = Inr i" "kv_persistent_store s = store" "kv_blockchain s = b" "kv_latest_event_id s = i"
    using assms(2) by (auto simp: kv_load_def act_simps split: option.splits)
  then show "opened = Inr (kv_persistent_store s)" "kv_blockchain s = b" by simp_all
  have "V store latest_event_key = Some w"
    using assms(1) s(2) unfolding merk_laws_def by metis
  with s show "\<exists>w. kv V s latest_event_key = Some w \<and> dec (event_id_codec E) w = Inr (kv_latest_event_id s)" by simp
qed

text \<open>C40: The service loses an event at every restart when it does not run as a blockchain: after it is loaded, runs a
  command, is loaded again and runs another command, two more events are counted but only one entry of the
  log has changed, because the second event overwrites the first.\<close>

theorem kv_restart_overwrites_event:
  assumes "merk_laws E V C"
    and "kv_load E txt opened False = Ok s" "kv_execute E sender c s = (Ok (), t)"
    and "V m = kv C t" "kv_load E txt (Inr m) False = Ok s'" "kv_execute E sender' c' s' = (Ok (), t')"
  shows "u64_at E EVENT_COUNT_ROOT (kv V t') = u64_at E EVENT_COUNT_ROOT (kv V s) + 2 \<and>
    (\<forall>i. key_for_event i \<noteq> key_for_event (kv_next_id E s) \<longrightarrow> kv V t' (key_for_event i) = kv V s (key_for_event i)) \<and>
    kv_latest_event_id t' = kv_next_id E s"
proof -
  note l = kv_load_Ok [OF assms(1,2)] and l' = kv_load_Ok [OF assms(1,5)]
  obtain ev where e: "kv_log_step E V C ev s t"
    using kv_execute_logs [OF assms(1,3)] ..
  obtain ev' where e': "kv_log_step E V C ev' s' t'"
    using kv_execute_logs [OF assms(1,6)] ..
  have V: "kv V s' = kv V t"
    using l'(1) assms(4) e l(2) by (auto simp: kv_log_step_def)
  have "kv_latest_event_id s' = kv_latest_event_id s"
    using l(3) l'(3) V e by (auto simp: kv_log_step_def)
  with e e' V show ?thesis
    by (auto simp: kv_log_step_def u64_at_def merk_laws_val [OF assms(1)])
qed

text \<open>In a blockchain the end of a block saves the identifier, and a restart continues after it.\<close>

lemma kv_restart_after_commit:
  assumes "merk_laws E V C" "codec_ok (event_id_codec E)" "kv_commit E s = (Ok info, t)"
    and "V m = kv C t" "kv_load E txt (Inr m) b = Ok s'"
  shows "kv_latest_event_id s' = kv_latest_event_id s"
  using kv_commit_Ok(4) [OF assms(1,3)] kv_load_Ok [OF assms(1,5)] assms(4) codec_okD [OF assms(2)] by auto

section \<open>Instances\<close>

text \<open>The keys that belong to the illegal address.\<close>

theorem kv_list_equivalent_witness:
  "kv_module_list mem_ext \<lparr>kla_count = Some 0, kla_order = None, kla_filter = Some [FilterOwner Illegal]\<rparr> one_key = [[1]]"
proof -
  have "matching_keys mem_ext (Some [FilterOwner Illegal]) (kv mem_committed one_key) = {[1]}"
    by (auto simp: matching_keys_def meta_at_def one_key_def Let_def illegal_meta_def roots_differ split: if_splits)
  then show ?thesis
    using kv_list_equivalent [OF mem_reliable, of "\<lparr>kla_count = Some 0, kla_order = None, kla_filter = Some [FilterOwner Illegal]\<rparr>" one_key]
    by simp
qed

definition saved_store :: "(bytes \<times> stored) list" where
  "saved_store = [(utf8 IDENTITY_ROOT, SBytes (to_vec (PublicKey 0))), (latest_event_key, SBytes [0])]"

lemma kv_load_mem:
  assumes "mem_view m subresource_key = None" "mem_view m (utf8 IDENTITY_ROOT) = Some (SBytes (to_vec a))"
    "mem_view m latest_event_key = Some (SBytes i)"
  shows "kv_load mem_ext txt (Inr m) b = Ok \<lparr>kv_persistent_store = m, kv_blockchain = b, kv_latest_event_id = i,
    kv_current_time = None, kv_current_hash = None, kv_next_subresource = 0, kv_root_identity = a\<rparr>"
  using assms by (simp add: kv_load_def from_bytes_def inner_from_to_vec)

lemma kv_put_elsewhere:
  assumes L: "merk_laws E V C" and run: "kv_execute E sender (KvPut a) s = (Ok (), t)"
    and k: "k \<noteq> KVSTORE_ACL_ROOT @ pa_key a" "k \<noteq> KVSTORE_ROOT @ pa_key a" "k \<noteq> EVENT_COUNT_ROOT" "\<And>i. k \<noteq> key_for_event i"
  shows "kv V t k = kv V s k"
proof -
  obtain v ev where "bnd (kv_apply E (from_sum unknown) [(KVSTORE_ACL_ROOT @ pa_key a, Put v), (KVSTORE_ROOT @ pa_key a, put_bytes E (pa_value a))])
      (\<lambda>_. bnd (kv_log_event E ev) (\<lambda>_. kv_maybe_flush E unwrap_sum)) s = (Ok (), t)"
    using run by (auto simp: kv_module_put_def kv_put_def kv_guards_Ok)
  from kv_logged_at [OF kv_write_Ok(2) [OF L this], of k] k show ?thesis
    by (simp add: put_bytes_def)
qed

definition other_put :: put_args where
  "other_put = \<lparr>pa_key = [5], pa_value = [6], pa_alternative_owner = None\<rparr>"

theorem kv_restart_overwrites_event_witness:
  "\<exists>s t m s' t'. kv_load mem_ext (\<lambda>_. []) (Inr ([], saved_store)) False = Ok s \<and>
    kv_execute mem_ext (PublicKey 1) (KvPut some_put) s = (Ok (), t) \<and> mem_view m = kv mem_committed t \<and>
    kv_load mem_ext (\<lambda>_. []) (Inr m) False = Ok s' \<and> kv_execute mem_ext (PublicKey 1) (KvPut other_put) s' = (Ok (), t') \<and>
    u64_at mem_ext EVENT_COUNT_ROOT (kv mem_view t') = u64_at mem_ext EVENT_COUNT_ROOT (kv mem_view s) + 2 \<and>
    kv_latest_event_id t' = kv_next_id mem_ext s"
proof -
  have at: "kv mem_view s k = map_of saved_store k" if "kv_persistent_store s = ([], saved_store)" for s :: "mem kv_storage" and k
    using that by simp
  have diff: "latest_event_key \<noteq> utf8 IDENTITY_ROOT" "subresource_key \<noteq> utf8 IDENTITY_ROOT"
    "subresource_key \<noteq> latest_event_key"
    by (simp_all add: key_defs utf8_Cons)
  obtain s where s: "kv_load mem_ext (\<lambda>_. []) (Inr ([], saved_store)) False = Ok s"
    using kv_load_mem [of "([], saved_store)" "PublicKey 0" "[0]"] diff by (auto simp: saved_store_def)
  have store: "kv_persistent_store s = ([], saved_store)" "\<not> kv_blockchain s"
    using kv_load_Ok [OF mem_laws s] by simp_all
  have none: "map_of saved_store (KVSTORE_ACL_ROOT @ k) = None" "map_of saved_store EVENT_COUNT_ROOT = None" for k
    by (simp_all add: saved_store_def)
  obtain t where t: "kv_execute mem_ext (PublicKey 1) (KvPut some_put) s = (Ok (), t)"
    by (rule kv_module_put_reliable [OF mem_laws mem_reliable, of s some_put "PublicKey 1"])
      (simp_all add: mem_codecs_total at [OF store(1)] none u64_slot_def some_put_def)
  obtain ev where e: "kv_log_step mem_ext mem_view mem_committed ev s t"
    using kv_execute_logs [OF mem_laws t] ..
  let ?m = "([], fst (kv_persistent_store t))"
  have m: "mem_view ?m = kv mem_view t" "mem_view ?m = kv mem_committed t"
    using e store(2) by (auto simp: kv_log_step_def)
  note keep = kv_put_elsewhere [OF mem_laws t]
  have kept: "kv mem_view t subresource_key = None" "kv mem_view t latest_event_key = Some (SBytes [0])"
    "kv mem_view t (utf8 IDENTITY_ROOT) = Some (SBytes (to_vec (PublicKey 0)))"
    using diff by (subst keep, simp_all add: some_put_def at [OF store(1)] none, simp_all add: saved_store_def)+
  have free: "kv mem_view t (KVSTORE_ACL_ROOT @ [5]) = None"
    by (subst keep) (simp_all add: some_put_def at [OF store(1)] none)
  obtain s' where s': "kv_load mem_ext (\<lambda>_. []) (Inr ?m) False = Ok s'"
    using kv_load_mem [of ?m "PublicKey 0" "[0]"] kept m(1) by auto
  have V: "kv mem_view s' = kv mem_view t"
    using kv_load_Ok(1) [OF mem_laws s'] m(1) by auto
  have "u64_slot mem_ext EVENT_COUNT_ROOT (kv mem_view s')"
    using e V by (simp add: u64_slot_def kv_log_step_def)
  then obtain t' where t': "kv_execute mem_ext (PublicKey 1) (KvPut other_put) s' = (Ok (), t')"
    using free V by (elim kv_module_put_reliable [OF mem_laws mem_reliable mem_codecs_total(12,5), of s' other_put "PublicKey 1", rotated -1])
      (simp_all add: other_put_def)
  from kv_restart_overwrites_event [OF mem_laws s t m(2) s' t'] s t m(2) s' t' show ?thesis by blast
qed

text \<open>
  A key that is disabled cannot be transferred, whoever asks and whatever the reason: the first check of a
  transfer reads the value, which fails on a disabled key.
\<close>

lemma disabled_key_not_transferred:
  assumes "merk_reliable E V C" "meta_at E (kv V s) (ta_key a) = Some m" "\<not> kv_enabled (Some m)"
  shows "kv_module_transfer E sender a s = (Err (kvstore_error KeyDisabled), s)"
proof -
  obtain v where "kv V s (KVSTORE_ACL_ROOT @ ta_key a) = Some v" "dec (metadata_codec E) v = Inr m"
    using assms(2) by (auto simp: meta_at_def split: option.splits sum.splits)
  then have "kv_get E (ta_key a) s = Err (kvstore_error KeyDisabled)"
    using assms(1,3) by (auto simp: kv_get_def kv_get_raw_def merk_reliable_def kv_enabled_def split: option.splits sum.splits bool.splits)
  then show ?thesis
    by (simp add: kv_module_transfer_def bnd_query)
qed

end
