(* ===== verification/Server.thy ===== *)
theory Server
  imports Store
begin

text \<open>
  The server: \<open>src/src/many-protocol\<close> (requests and their envelopes), \<open>many-server\<close> (validators, modules, the
  handler of a request and the HTTP transport) and \<open>many-server-cache\<close> (detection of duplicates). Modules and
  validators are trait objects in the code, records of functions here. The \<open>coset\<close> envelopes, signatures,
  hashes and CBOR codecs are parameters.
\<close>

section \<open>Requests\<close>

text \<open>The fields of \<open>CoseSign1\<close>: the code reads the payload, the verifier all of it.\<close>

record cose_sign1 =
  cs_headers :: bytes
  cs_payload :: "bytes option"
  cs_signature :: bytes

record request_message =
  rq_version :: "u8 option"
  rq_from :: "address option"
  rq_to :: address
  rq_method :: string
  rq_data :: bytes
  rq_timestamp :: "timestamp option"
  rq_id :: "u64 option"
  rq_nonce :: "bytes option"
  rq_attributes :: "attribute list"

record srv_ext =
  request_decode :: "bytes \<Rightarrow> string + request_message"
  response_encode :: "response_message \<Rightarrow> string + bytes"
  sha512 :: "bytes \<Rightarrow> bytes"
  error_text :: "many_error \<Rightarrow> string"
  cose_from_tagged :: "bytes \<Rightarrow> string + cose_sign1"
  cose_to_tagged :: "cose_sign1 \<Rightarrow> string + bytes"

definition request_try_from :: "srv_ext \<Rightarrow> cose_sign1 \<Rightarrow> request_message result" where
  "request_try_from X envelope =
    res_bind (ok_or empty_envelope (cs_payload envelope)) (\<lambda>payload.
    from_sum deserialization_error (request_decode X payload))"

definition decode_request_from_cose_sign1 ::
  "srv_ext \<Rightarrow> cose_sign1 \<Rightarrow> (cose_sign1 \<Rightarrow> address result) \<Rightarrow> request_message result" where
  "decode_request_from_cose_sign1 X envelope verify_1 =
    res_bind (verify_1 envelope) (\<lambda>from_id.
    res_bind (fails_if (is_illegal from_id) invalid_from_identity) (\<lambda>_.
    res_bind (request_try_from X envelope) (\<lambda>message.
    let message_from = (case rq_from message of Some a \<Rightarrow> a | None \<Rightarrow> Anonymous) in
    res_bind (fails_if (\<not> matches from_id message_from \<or> is_illegal message_from) invalid_from_identity) (\<lambda>_.
    Ok message))))"

text \<open>The clock has nanoseconds; the time of a request is whole seconds.\<close>

type_synonym clock_time = int

definition validate_time :: "request_message \<Rightarrow> clock_time \<Rightarrow> u64 \<Rightarrow> unit result" where
  "validate_time message now timeout_in_secs =
    res_bind (fails_if (timeout_in_secs = 0) timestamp_out_of_range) (\<lambda>_.
    res_bind (ok_or (required_field_missing ''timestamp'') (rq_timestamp message)) (\<lambda>t.
    res_bind (as_system_time t) (\<lambda>secs.
    let ts = int secs * 10 ^ 9;
        (early, later) = (if ts < now then (ts, now) else (now, ts));
        diff = later - early
    in fails_if (int (unat timeout_in_secs) \<le> diff div 10 ^ 9) timestamp_out_of_range)))"

definition response_error :: "address \<Rightarrow> u64 option \<Rightarrow> many_error \<Rightarrow> response_message" where
  "response_error sfrom i e =
    \<lparr>rm_version = Some 1, rm_from = sfrom, rm_to = None, rm_data = Inl e, rm_timestamp = None, rm_id = i, rm_attributes = []\<rparr>"

section \<open>Validators\<close>

record 'c request_validator =
  validate_envelope :: "cose_sign1 \<Rightarrow> 'c \<Rightarrow> unit result"
  validate_request :: "request_message \<Rightarrow> 'c \<Rightarrow> unit result"
  message_executed :: "cose_sign1 \<Rightarrow> response_message \<Rightarrow> ('c, unit) act"

definition unit_validator :: "'c request_validator" where
  "unit_validator = \<lparr>validate_envelope = (\<lambda>_ _. Ok ()), validate_request = (\<lambda>_ _. Ok ()), message_executed = (\<lambda>_ _. ret ())\<rparr>"

definition validate_only :: "'c request_validator \<Rightarrow> 'c request_validator" where
  "validate_only v = v\<lparr>message_executed := (\<lambda>_ _. ret ())\<rparr>"

definition on_fst :: "('a, 'x) act \<Rightarrow> ('a \<times> 'b, 'x) act" where
  "on_fst m s = (case m (fst s) of (r, a) \<Rightarrow> (r, (a, snd s)))"

definition on_snd :: "('b, 'x) act \<Rightarrow> ('a \<times> 'b, 'x) act" where
  "on_snd m s = (case m (snd s) of (r, b) \<Rightarrow> (r, (fst s, b)))"

definition pair_validator :: "'a request_validator \<Rightarrow> 'b request_validator \<Rightarrow> ('a \<times> 'b) request_validator" where
  "pair_validator v w =
    \<lparr>validate_envelope = (\<lambda>e s. res_bind (validate_envelope v e (fst s)) (\<lambda>_. validate_envelope w e (snd s))),
     validate_request = (\<lambda>q s. res_bind (validate_request v q (fst s)) (\<lambda>_. validate_request w q (snd s))),
     message_executed = (\<lambda>e r. bnd (on_fst (message_executed v e r)) (\<lambda>_. on_snd (message_executed w e r)))\<rparr>"

section \<open>The request cache\<close>

definition cache_validator ::
  "srv_ext \<Rightarrow> ('c \<Rightarrow> bytes \<Rightarrow> bool result) \<Rightarrow> (bytes \<Rightarrow> ('c, unit) act) \<Rightarrow> 'c request_validator" where
  "cache_validator X has put =
    \<lparr>validate_envelope = (\<lambda>envelope c.
       res_bind (ok_or empty_envelope (cs_payload envelope)) (\<lambda>payload.
       res_bind (has c (sha512 X payload)) (\<lambda>b.
       fails_if b duplicated_message))),
     validate_request = (\<lambda>_ _. Ok ()),
     message_executed = (\<lambda>envelope _.
       bnd (lift_result (ok_or empty_envelope (cs_payload envelope))) (\<lambda>payload.
       put (sha512 X payload)))\<rparr>"

text \<open>The database of \<open>rocksdb\<close>: reading a key and writing a batch of one entry.\<close>

record 'd rocks_ext =
  rocks_get :: "'d \<Rightarrow> bytes \<Rightarrow> string + bytes option"
  rocks_write :: "'d \<Rightarrow> bytes \<Rightarrow> bytes \<Rightarrow> (string + unit) \<times> 'd"

definition rocks_has :: "'d rocks_ext \<Rightarrow> 'd \<Rightarrow> bytes \<Rightarrow> bool result" where
  "rocks_has R db key = res_bind (unwrap_sum (rocks_get R db key)) (\<lambda>x. Ok (x \<noteq> None))"

definition rocks_put :: "'d rocks_ext \<Rightarrow> bytes \<Rightarrow> ('d, unit) act" where
  "rocks_put R key db = (case rocks_write R db key [] of (r, db') \<Rightarrow> (unwrap_sum r, db'))"

section \<open>Modules and the server\<close>

record 'w many_module =
  mm_name :: string
  mm_attribute :: "attribute option"
  mm_endpoints :: "string list"
  mm_validate :: "request_message \<Rightarrow> cose_sign1 \<Rightarrow> 'w \<Rightarrow> unit result"
  mm_execute :: "request_message \<Rightarrow> ('w, response_message) act"

text \<open>
  The identity of the server gives an address and signatures. \<open>srv_time\<close> is \<open>time_fn\<close>, or the clock.
\<close>

record ('w, 'c) many_server =
  srv_modules :: "'w many_module list"
  srv_method_cache :: "string list"
  srv_address :: address
  srv_sign :: "bytes \<Rightarrow> many_error + cose_sign1"
  srv_verifier :: "cose_sign1 \<Rightarrow> address result"
  srv_validator :: "'c request_validator"
  srv_timeout :: u64
  srv_fallback :: "(cose_sign1 \<Rightarrow> ('w, string + cose_sign1) act) option"
  srv_time :: "'w \<Rightarrow> clock_time result"

definition MANYSERVER_DEFAULT_TIMEOUT :: u64 where
  "MANYSERVER_DEFAULT_TIMEOUT = 300"

definition server_new ::
  "address \<Rightarrow> (bytes \<Rightarrow> many_error + cose_sign1) \<Rightarrow> (cose_sign1 \<Rightarrow> address result) \<Rightarrow> ('w \<Rightarrow> clock_time result) \<Rightarrow>
   ('w, unit) many_server" where
  "server_new address sign verifier clock =
    \<lparr>srv_modules = [], srv_method_cache = [], srv_address = address, srv_sign = sign, srv_verifier = verifier,
     srv_validator = unit_validator, srv_timeout = MANYSERVER_DEFAULT_TIMEOUT, srv_fallback = None, srv_time = clock\<rparr>"

definition add_validator :: "('w, 'c) many_server \<Rightarrow> 'd request_validator \<Rightarrow> ('w, 'c \<times> 'd) many_server" where
  "add_validator srv v =
    \<lparr>srv_modules = srv_modules srv, srv_method_cache = srv_method_cache srv, srv_address = srv_address srv,
     srv_sign = srv_sign srv, srv_verifier = srv_verifier srv,
     srv_validator = pair_validator (srv_validator srv) v,
     srv_timeout = srv_timeout srv, srv_fallback = srv_fallback srv, srv_time = srv_time srv\<rparr>"

definition add_module :: "'w many_module \<Rightarrow> ('w, 'c) many_server \<Rightarrow> ('w, 'c) many_server result" where
  "add_module m srv =
    res_bind (case mm_attribute m of
        Some a \<Rightarrow> (if \<exists>m'\<in>set (srv_modules srv). map_option attr_id (mm_attribute m') = Some (attr_id a)
          then Panic ''Module already implements attribute'' else Ok ())
      | None \<Rightarrow> Ok ()) (\<lambda>_.
    res_bind (if \<exists>e\<in>set (mm_endpoints m). e \<in> set (srv_method_cache srv)
      then Panic ''Method already implemented, but there was no attribute conflict'' else Ok ()) (\<lambda>_.
    Ok (srv\<lparr>srv_method_cache := foldl (\<lambda>c e. bs_insert e c) (srv_method_cache srv) (mm_endpoints m),
            srv_modules := srv_modules srv @ [m]\<rparr>)))"

definition validate_id :: "'x addr_ext_scheme \<Rightarrow> ('w, 'c) many_server \<Rightarrow> request_message \<Rightarrow> unit result" where
  "validate_id E srv message =
    (let t = rq_to message in
     if is_anonymous t \<or> srv_address srv = t then Ok ()
     else Err (unknown_destination (to_string E t) (to_string E (srv_address srv))))"

definition find_module :: "('w, 'c) many_server \<Rightarrow> request_message \<Rightarrow> 'w many_module option" where
  "find_module srv message = find (\<lambda>m. rq_method message \<in> set (mm_endpoints m)) (srv_modules srv)"

definition server_endpoints :: "('w, 'c) many_server \<Rightarrow> string list result option \<Rightarrow> string list result" where
  "server_endpoints srv fallback_endpoints =
    (case fallback_endpoints of
       None \<Rightarrow> Ok (srv_method_cache srv)
     | Some r \<Rightarrow> res_bind r (\<lambda>es. Ok (bs_union (srv_method_cache srv) (bs_from es))))"

section \<open>Handling a request\<close>

record ('w, 'c) srv_state =
  world :: 'w
  vstate :: 'c

definition on_world :: "('w, 'x) act \<Rightarrow> (('w, 'c) srv_state, 'x) act" where
  "on_world m s = (case m (world s) of (r, w) \<Rightarrow> (r, s\<lparr>world := w\<rparr>))"

definition on_vstate :: "('c, 'x) act \<Rightarrow> (('w, 'c) srv_state, 'x) act" where
  "on_vstate m s = (case m (vstate s) of (r, c) \<Rightarrow> (r, s\<lparr>vstate := c\<rparr>))"

definition encode_cose_sign1_from_response ::
  "srv_ext \<Rightarrow> (bytes \<Rightarrow> many_error + cose_sign1) \<Rightarrow> response_message \<Rightarrow> cose_sign1 result" where
  "encode_cose_sign1_from_response X sign response =
    res_bind (unwrap_sum (response_encode X response)) (\<lambda>payload.
    case sign payload of Inl e \<Rightarrow> Err e | Inr c \<Rightarrow> Ok c)"

text \<open>\<open>map_err(|e| e.to_string())\<close> on the signed response.\<close>

definition reply :: "srv_ext \<Rightarrow> ('w, 'c) many_server \<Rightarrow> response_message \<Rightarrow> ('s, string + cose_sign1) act" where
  "reply X srv response =
    lift_result (case encode_cose_sign1_from_response X (srv_sign srv) response of
      Ok c \<Rightarrow> Ok (Inr c) | Err e \<Rightarrow> Ok (Inl (error_text X e)) | Panic p \<Rightarrow> Panic p)"

text \<open>The steps up to the check of the time, whose errors are answered without the id of the request.\<close>

definition open_request ::
  "srv_ext \<Rightarrow> ('w, 'c) many_server \<Rightarrow> cose_sign1 \<Rightarrow> ('w, 'c) srv_state \<Rightarrow> request_message result" where
  "open_request X srv envelope s =
    res_bind (validate_envelope (srv_validator srv) envelope (vstate s)) (\<lambda>_.
    res_bind (decode_request_from_cose_sign1 X envelope (srv_verifier srv)) (\<lambda>message.
    res_bind (srv_time srv (world s)) (\<lambda>now.
    res_bind (validate_request (srv_validator srv) message (vstate s)) (\<lambda>_.
    res_bind (validate_time message now (srv_timeout srv)) (\<lambda>_.
    Ok message)))))"

definition route_request ::
  "'x addr_ext_scheme \<Rightarrow> ('w, 'c) many_server \<Rightarrow> cose_sign1 \<Rightarrow> request_message \<Rightarrow> ('w, 'c) srv_state \<Rightarrow>
   'w many_module option result" where
  "route_request E srv envelope message s =
    res_bind (validate_id E srv message) (\<lambda>_.
    res_bind (case find_module srv message of
        Some m \<Rightarrow> mm_validate m message envelope (world s) | None \<Rightarrow> Ok ()) (\<lambda>_.
    Ok (find_module srv message)))"

text \<open>A module runs, and then the validators hear of it; a failure there is a panic.\<close>

definition module_response :: "('w, 'c) many_server \<Rightarrow> request_message \<Rightarrow> many_error + response_message \<Rightarrow> response_message" where
  "module_response srv message r =
    (case r of Inr response \<Rightarrow> response
     | Inl e \<Rightarrow> response_error (srv_address srv) (rq_id message) e)\<lparr>rm_from := srv_address srv\<rparr>"

definition run_module ::
  "srv_ext \<Rightarrow> ('w, 'c) many_server \<Rightarrow> 'w many_module \<Rightarrow> request_message \<Rightarrow> cose_sign1 \<Rightarrow>
   (('w, 'c) srv_state, string + cose_sign1) act" where
  "run_module X srv m message envelope =
    bnd (attempt (on_world (mm_execute m message))) (\<lambda>r.
    let response = module_response srv message r in
    bnd (attempt (on_vstate (message_executed (srv_validator srv) envelope response))) (\<lambda>v.
    case v of
      Inl _ \<Rightarrow> lift_result (Panic ''message_executed failed'')
    | Inr _ \<Rightarrow> reply X srv response))"

definition server_execute ::
  "srv_ext \<Rightarrow> 'x addr_ext_scheme \<Rightarrow> ('w, 'c) many_server \<Rightarrow> cose_sign1 \<Rightarrow> (('w, 'c) srv_state, string + cose_sign1) act" where
  "server_execute X E srv envelope s =
    (case open_request X srv envelope s of
       Panic p \<Rightarrow> (Panic p, s)
     | Err e \<Rightarrow> reply X srv (response_error (srv_address srv) None e) s
     | Ok message \<Rightarrow>
         (case route_request E srv envelope message s of
            Panic p \<Rightarrow> (Panic p, s)
          | Err e \<Rightarrow> reply X srv (response_error (srv_address srv) (rq_id message) e) s
          | Ok (Some m) \<Rightarrow> run_module X srv m message envelope s
          | Ok None \<Rightarrow>
              (case srv_fallback srv of
                 Some fb \<Rightarrow> on_world (fb envelope) s
               | None \<Rightarrow> reply X srv (response_error (srv_address srv) (rq_id message) could_not_route_message) s)))"

definition READ_BUFFER_LEN :: nat where
  "READ_BUFFER_LEN = 1024 * 1024 * 5"

datatype http_response = HttpEmpty nat | HttpData bytes

definition handle_request ::
  "srv_ext \<Rightarrow> (cose_sign1 \<Rightarrow> ('s, string + cose_sign1) act) \<Rightarrow> nat option \<Rightarrow> bytes \<Rightarrow> ('s, http_response) act" where
  "handle_request X executor body_length body =
    (if \<exists>x. body_length = Some x \<and> READ_BUFFER_LEN < x then ret (HttpEmpty 413)
     else case cose_from_tagged X body of
       Inl _ \<Rightarrow> ret (HttpEmpty 500)
     | Inr envelope \<Rightarrow>
         bnd (executor envelope) (\<lambda>r.
         case r of
           Inl _ \<Rightarrow> ret (HttpEmpty 500)
         | Inr c \<Rightarrow> (case cose_to_tagged X c of Inl _ \<Rightarrow> ret (HttpEmpty 500) | Inr b \<Rightarrow> ret (HttpData b))))"

section \<open>What a request that runs has passed\<close>

text \<open>C38: A module runs only on a request whose signer is verified and legal and matches the sender of the
  request, that is addressed to this server or to nobody, that is younger than the timeout, in the past or in
  the future, and whose method is one of the endpoints of the module.\<close>

theorem executed_requests_are_valid:
  assumes "open_request X srv envelope s = Ok message" "route_request E srv envelope message s = Ok (Some m)"
  shows "\<exists>signer payload now t. srv_verifier srv envelope = Ok signer \<and> \<not> is_illegal signer \<and>
    cs_payload envelope = Some payload \<and> request_decode X payload = Inr message \<and>
    matches signer (case rq_from message of Some a \<Rightarrow> a | None \<Rightarrow> Anonymous) \<and>
    (rq_to message = Anonymous \<or> rq_to message = srv_address srv) \<and>
    srv_time srv (world s) = Ok now \<and> rq_timestamp message = Some t \<and>
    \<bar>int (unat t) * 10 ^ 9 - now\<bar> < int (unat (srv_timeout srv)) * 10 ^ 9 \<and>
    m \<in> set (srv_modules srv) \<and> rq_method message \<in> set (mm_endpoints m) \<and>
    validate_envelope (srv_validator srv) envelope (vstate s) = Ok () \<and>
    validate_request (srv_validator srv) message (vstate s) = Ok () \<and> mm_validate m message envelope (world s) = Ok ()"
proof -
  obtain now where o': "validate_envelope (srv_validator srv) envelope (vstate s) = Ok ()"
    "decode_request_from_cose_sign1 X envelope (srv_verifier srv) = Ok message" "srv_time srv (world s) = Ok now"
    "validate_request (srv_validator srv) message (vstate s) = Ok ()" "validate_time message now (srv_timeout srv) = Ok ()"
    using assms(1) by (auto simp: open_request_def act_simps)
  obtain signer payload where d: "srv_verifier srv envelope = Ok signer" "\<not> is_illegal signer"
    "cs_payload envelope = Some payload" "request_decode X payload = Inr message"
    "matches signer (case rq_from message of Some a \<Rightarrow> a | None \<Rightarrow> Anonymous)"
    using o'(2) by (auto simp: decode_request_from_cose_sign1_def request_try_from_def Let_def act_simps)
  obtain t where t: "rq_timestamp message = Some t" and lt: "\<bar>int (unat t) * 10 ^ 9 - now\<bar> div 10 ^ 9 < int (unat (srv_timeout srv))"
    using o'(5) by (auto simp: validate_time_def as_system_time_def checked_add_secs_def Let_def act_simps not_le abs_if split: if_splits)
  have "\<bar>int (unat t) * 10 ^ 9 - now\<bar> < int (unat (srv_timeout srv)) * 10 ^ 9"
    using lt by (simp add: div_less_iff_less_mult)
  moreover have "find_module srv message = Some m" "rq_to message = Anonymous \<or> rq_to message = srv_address srv"
    "mm_validate m message envelope (world s) = Ok ()"
    using assms(2) by (auto simp: route_request_def validate_id_def Let_def act_simps is_anonymous_iff split: option.splits if_splits)
  moreover from this(1) have "m \<in> set (srv_modules srv)" "rq_method message \<in> set (mm_endpoints m)"
    by (auto simp: find_module_def find_Some_iff)
  ultimately show ?thesis
    using o' d t by blast
qed

section \<open>Routing tables\<close>

text \<open>
  The server type: the method cache is the sorted set of all endpoints, no two modules share an endpoint and
  no two have an attribute with the same id.
\<close>

definition conflict :: "'w many_module \<Rightarrow> 'w many_module \<Rightarrow> bool" where
  "conflict m m' \<longleftrightarrow> set (mm_endpoints m) \<inter> set (mm_endpoints m') \<noteq> {} \<or>
    (\<exists>a b. mm_attribute m = Some a \<and> mm_attribute m' = Some b \<and> attr_id a = attr_id b)"

definition server_wf :: "('w, 'c) many_server \<Rightarrow> bool" where
  "server_wf srv \<longleftrightarrow>
    bs_wf (srv_method_cache srv) \<and>
    set (srv_method_cache srv) = (\<Union>m\<in>set (srv_modules srv). set (mm_endpoints m)) \<and>
    sorted_wrt (\<lambda>m m'. \<not> conflict m m') (srv_modules srv)"

lemma insert_all_facts:
  "bs_wf c \<Longrightarrow> bs_wf (foldl (\<lambda>c e. bs_insert e c) c es) \<and> set (foldl (\<lambda>c e. bs_insert e c) c es) = set c \<union> set es"
  by (induction es arbitrary: c) auto

lemma add_module_cases:
  assumes "set (srv_method_cache srv) = (\<Union>m\<in>set (srv_modules srv). set (mm_endpoints m))"
  shows "if \<exists>m'\<in>set (srv_modules srv). conflict m' m then \<exists>p. add_module m srv = Panic p
    else add_module m srv = Ok (srv\<lparr>srv_method_cache := foldl (\<lambda>c e. bs_insert e c) (srv_method_cache srv) (mm_endpoints m),
            srv_modules := srv_modules srv @ [m]\<rparr>)"
proof -
  let ?at = "\<exists>a. mm_attribute m = Some a \<and> (\<exists>m'\<in>set (srv_modules srv). map_option attr_id (mm_attribute m') = Some (attr_id a))"
  let ?en = "\<exists>e\<in>set (mm_endpoints m). e \<in> set (srv_method_cache srv)"
  have "(\<exists>m'\<in>set (srv_modules srv). conflict m' m) \<longleftrightarrow> ?at \<or> ?en"
    unfolding conflict_def assms by (cases "mm_attribute m") (auto simp: disjoint_iff)
  moreover have "\<exists>p. add_module m srv = Panic p" if "?at \<or> ?en"
    using that by (cases "mm_attribute m") (simp_all add: add_module_def, blast)
  moreover have "add_module m srv = Ok (srv\<lparr>srv_method_cache := foldl (\<lambda>c e. bs_insert e c) (srv_method_cache srv) (mm_endpoints m),
            srv_modules := srv_modules srv @ [m]\<rparr>)" if "\<not> ?at" "\<not> ?en"
    using that by (cases "mm_attribute m") (simp_all add: add_module_def)
  ultimately show ?thesis by simp
qed

lemma find_unique:
  assumes "sorted_wrt (\<lambda>m m'. \<not> conflict m m') ms" "m \<in> set ms" "x \<in> set (mm_endpoints m)"
  shows "find (\<lambda>m. x \<in> set (mm_endpoints m)) ms = Some m"
  using assms by (induction ms) (auto simp: conflict_def)

text \<open>C39: Adding a module to a well-formed server gives a well-formed server, and panics exactly when the
  module shares an attribute or an endpoint with one that is there. In a well-formed server a request is
  routed to the one module that has its method, and to none only if no module has it.\<close>

theorem server_stays_wf:
  assumes "server_wf srv"
  shows "(if \<exists>m'\<in>set (srv_modules srv). conflict m' m then \<exists>p. add_module m srv = Panic p
     else \<exists>srv'. add_module m srv = Ok srv' \<and> server_wf srv' \<and> srv_modules srv' = srv_modules srv @ [m]) \<and>
    (find_module srv message = Some m' \<longleftrightarrow> m' \<in> set (srv_modules srv) \<and> rq_method message \<in> set (mm_endpoints m')) \<and>
    (find_module srv message = None \<longleftrightarrow> rq_method message \<notin> set (srv_method_cache srv))"
proof -
  have wf: "bs_wf (srv_method_cache srv)" "set (srv_method_cache srv) = (\<Union>m\<in>set (srv_modules srv). set (mm_endpoints m))"
    "sorted_wrt (\<lambda>m m'. \<not> conflict m m') (srv_modules srv)"
    using assms by (simp_all add: server_wf_def)
  have "server_wf (srv\<lparr>srv_method_cache := foldl (\<lambda>c e. bs_insert e c) (srv_method_cache srv) (mm_endpoints m),
            srv_modules := srv_modules srv @ [m]\<rparr>)" if "\<not> (\<exists>m'\<in>set (srv_modules srv). conflict m' m)"
    using that insert_all_facts [OF wf(1), of "mm_endpoints m"] wf(2,3) by (auto simp: server_wf_def sorted_wrt_append)
  then have "if \<exists>m'\<in>set (srv_modules srv). conflict m' m then \<exists>p. add_module m srv = Panic p
     else \<exists>srv'. add_module m srv = Ok srv' \<and> server_wf srv' \<and> srv_modules srv' = srv_modules srv @ [m]"
    using add_module_cases [OF wf(2), of m] by (simp split: if_splits)
  moreover have "find_module srv message = Some m' \<longleftrightarrow> m' \<in> set (srv_modules srv) \<and> rq_method message \<in> set (mm_endpoints m')"
    using find_unique [OF wf(3)] by (auto simp: find_module_def find_Some_iff)
  moreover have "find_module srv message = None \<longleftrightarrow> rq_method message \<notin> set (srv_method_cache srv)"
    by (auto simp: find_module_def find_None_iff wf(2))
  ultimately show ?thesis by blast
qed

section \<open>No request runs twice\<close>

lemma part_Ok [act_simps]:
  "on_fst m p = (Ok x, q) \<longleftrightarrow> (\<exists>a. m (fst p) = (Ok x, a) \<and> q = (a, snd p))"
  "on_snd n p = (Ok x, q) \<longleftrightarrow> (\<exists>b. n (snd p) = (Ok x, b) \<and> q = (fst p, b))"
  "on_world m' s = (Ok x, t) \<longleftrightarrow> (\<exists>w. m' (world s) = (Ok x, w) \<and> t = s\<lparr>world := w\<rparr>)"
  "on_vstate n' s = (Ok x, t) \<longleftrightarrow> (\<exists>c. n' (vstate s) = (Ok x, c) \<and> t = s\<lparr>vstate := c\<rparr>)"
  by (auto simp: on_fst_def on_snd_def on_world_def on_vstate_def split: prod.splits)

lemma reply_Ok: "reply X srv r s = (Ok x, t) \<Longrightarrow> t = s"
  by (auto simp: reply_def lift_result_def split: result.splits)

lemma reply_state [simp]: "snd (reply X srv r s) = s"
  by (simp add: reply_def lift_result_def)

text \<open>
  The contract of a cache backend, the trait \<open>RequestCacheBackend\<close>: a key that was put is there, and stays.
\<close>

locale request_cache =
  fixes has :: "'d \<Rightarrow> bytes \<Rightarrow> bool result"
    and put :: "bytes \<Rightarrow> ('d, unit) act"
    and good :: "'d \<Rightarrow> bool"
  assumes put_good: "good d \<Longrightarrow> put k d = (Ok (), d') \<Longrightarrow> good d'"
    and put_has: "good d \<Longrightarrow> put k d = (Ok (), d') \<Longrightarrow> has d' k = Ok True"
    and put_keeps: "good d \<Longrightarrow> put k d = (Ok (), d') \<Longrightarrow> has d k' = Ok True \<Longrightarrow> has d' k' = Ok True"
begin

lemma cached_rejected:
  assumes "has d (sha512 X p) = Ok True" "cs_payload envelope = Some p"
  shows "validate_envelope (cache_validator X has put) envelope d = Err duplicated_message"
  using assms by (simp add: cache_validator_def)

lemma executed_cached:
  assumes "message_executed (cache_validator X has put) envelope r d = (Ok (), d')" "good d"
  shows "good d'" "has d k = Ok True \<Longrightarrow> has d' k = Ok True" "cs_payload envelope = Some p \<Longrightarrow> has d' (sha512 X p) = Ok True"
  using assms put_good put_has put_keeps by (auto simp: cache_validator_def act_simps)

lemma run_module_caches:
  assumes "srv_validator srv = pair_validator v (cache_validator X has put)"
    and "run_module X srv m message envelope s = (Ok r, t)" "good (snd (vstate s))"
  shows "good (snd (vstate t))" "has (snd (vstate s)) k = Ok True \<Longrightarrow> has (snd (vstate t)) k = Ok True"
    "cs_payload envelope = Some p \<Longrightarrow> has (snd (vstate t)) (sha512 X p) = Ok True"
proof -
  obtain r1 s1 where s1: "attempt (on_world (mm_execute m message)) s = (Ok r1, s1)"
    and "bnd (attempt (on_vstate (message_executed (srv_validator srv) envelope (module_response srv message r1)))) (\<lambda>v.
      case v of Inl _ \<Rightarrow> lift_result (Panic ''message_executed failed'') | Inr _ \<Rightarrow> reply X srv (module_response srv message r1)) s1 = (Ok r, t)"
    using assms(2) unfolding run_module_def Let_def bnd_Ok [of "attempt (on_world (mm_execute m message))"] by blast
  then obtain y s2 where y: "attempt (on_vstate (message_executed (srv_validator srv) envelope (module_response srv message r1))) s1 = (Ok y, s2)"
    "(case y of Inl _ \<Rightarrow> lift_result (Panic ''message_executed failed'') | Inr _ \<Rightarrow> reply X srv (module_response srv message r1)) s2 = (Ok r, t)"
    unfolding bnd_Ok by blast
  have s2: "attempt (on_vstate (message_executed (pair_validator v (cache_validator X has put)) envelope (module_response srv message r1))) s1 = (Ok (Inr ()), t)"
    using y assms(1) by (cases y) (auto simp: lift_result_def dest: reply_Ok)
  have "vstate s1 = vstate s"
    using s1 by (auto simp: attempt_def on_world_def split: prod.splits result.splits)
  moreover obtain d where "message_executed (cache_validator X has put) envelope (module_response srv message r1) (snd (vstate s1)) = (Ok (), d)" "snd (vstate t) = d"
    using s2 by (auto simp: act_simps pair_validator_def)
  ultimately show "good (snd (vstate t))" "has (snd (vstate s)) k = Ok True \<Longrightarrow> has (snd (vstate t)) k = Ok True"
    "cs_payload envelope = Some p \<Longrightarrow> has (snd (vstate t)) (sha512 X p) = Ok True"
    using executed_cached [of X envelope "module_response srv message r1" "snd (vstate s)" d] assms(3) by simp_all
qed

lemma execute_keeps:
  assumes "srv_validator srv = pair_validator v (cache_validator X has put)"
    and "server_execute X E srv envelope s = (Ok r, t)" "good (snd (vstate s))"
  shows "good (snd (vstate t))" "has (snd (vstate s)) k = Ok True \<Longrightarrow> has (snd (vstate t)) k = Ok True"
proof -
  consider "vstate t = vstate s" | m message where "run_module X srv m message envelope s = (Ok r, t)"
    using assms(2) unfolding server_execute_def
    by (auto simp: part_Ok dest: reply_Ok split: result.splits option.splits)
  then show "good (snd (vstate t))" "has (snd (vstate s)) k = Ok True \<Longrightarrow> has (snd (vstate t)) k = Ok True"
    using run_module_caches [OF assms(1) _ assms(3)] assms(3) by (cases, simp, blast)+
qed

lemma cached_not_opened:
  assumes "srv_validator srv = pair_validator v (cache_validator X has put)"
    and "has (snd (vstate s)) (sha512 X p) = Ok True" "cs_payload envelope = Some p"
  shows "open_request X srv envelope s \<noteq> Ok message" "snd (server_execute X E srv envelope s) = s"
proof -
  have "validate_envelope (srv_validator srv) envelope (vstate s) \<noteq> Ok ()"
    unfolding assms(1) using cached_rejected [OF assms(2,3)] by (auto simp: pair_validator_def res_bind_Ok)
  then have n: "open_request X srv envelope s \<noteq> Ok message" for message
    by (auto simp: open_request_def res_bind_Ok)
  then show "open_request X srv envelope s \<noteq> Ok message" "snd (server_execute X E srv envelope s) = s"
    by (auto simp: server_execute_def split: result.splits)
qed

end

text \<open>What \<open>rocksdb\<close> documents: a read gives the last value written under the key.\<close>

definition rocks_laws :: "'d rocks_ext \<Rightarrow> ('d \<Rightarrow> bytes \<Rightarrow> bytes option) \<Rightarrow> bool" where
  "rocks_laws R V \<longleftrightarrow> (\<forall>d k. rocks_get R d k = Inr (V d k)) \<and>
    (\<forall>d k x d'. rocks_write R d k x = (Inr (), d') \<longrightarrow> V d' = (V d)(k := Some x))"

lemma rocks_put_Ok: "rocks_put R k d = (Ok (), d') \<longleftrightarrow> rocks_write R d k [] = (Inr (), d')"
  by (auto simp: rocks_put_def unwrap_sum_Ok split: prod.splits)

interpretation rocks: request_cache "rocks_has R" "rocks_put R" "\<lambda>_. rocks_laws R V" for R V
  by unfold_locales (auto simp: rocks_laws_def rocks_has_def rocks_put_Ok)

abbreviation served :: "srv_ext \<Rightarrow> 'x addr_ext_scheme \<Rightarrow> ('w, 'c) many_server \<Rightarrow> ('w, 'c) srv_state \<Rightarrow> ('w, 'c) srv_state \<Rightarrow> bool" where
  "served X E srv s t \<equiv> \<exists>envelope r. server_execute X E srv envelope s = (Ok r, t)"

lemma served_keeps:
  assumes "rocks_laws R V" "srv_validator srv = pair_validator v (cache_validator X (rocks_has R) (rocks_put R))"
    and "(served X E srv)\<^sup>*\<^sup>* s t" "rocks_has R (snd (vstate s)) k = Ok True"
  shows "rocks_has R (snd (vstate t)) k = Ok True"
  using assms(3,4) by (induction rule: rtranclp_induct) (blast intro: rocks.execute_keeps(2) [OF assms(2) _ assms(1)])+

text \<open>C5: With the cache as a validator, once a module has run on a request no envelope with the same
  payload runs again: after any further requests it is refused before it is routed, and nothing changes.\<close>

theorem executed_once:
  assumes "rocks_laws R V" "srv_validator srv = pair_validator v (cache_validator X (rocks_has R) (rocks_put R))"
    and "open_request X srv envelope s = Ok message" "route_request E srv envelope message s = Ok (Some m)"
    and "server_execute X E srv envelope s = (Ok r, t)" "(served X E srv)\<^sup>*\<^sup>* t u" "cs_payload again = cs_payload envelope"
  shows "open_request X srv again u \<noteq> Ok message' \<and> snd (server_execute X E srv again u) = u"
proof -
  obtain p where p: "cs_payload envelope = Some p"
    using assms(3) by (auto simp: open_request_def decode_request_from_cose_sign1_def request_try_from_def act_simps)
  have "run_module X srv m message envelope s = (Ok r, t)"
    using assms(3-5) by (simp add: server_execute_def)
  then have "rocks_has R (snd (vstate t)) (sha512 X p) = Ok True"
    by (rule rocks.run_module_caches(3) [OF assms(2) _ assms(1) p])
  then have "rocks_has R (snd (vstate u)) (sha512 X p) = Ok True"
    by (rule served_keeps [OF assms(1,2,6)])
  moreover have "cs_payload again = Some p"
    using assms(7) p by simp
  ultimately show ?thesis
    using rocks.cached_not_opened [OF assms(2)] by blast
qed

section \<open>An instance\<close>

text \<open>A server with one module that counts its calls and a cache in an association list.\<close>

definition list_rocks :: "(bytes \<times> bytes) list rocks_ext" where
  "list_rocks = \<lparr>rocks_get = (\<lambda>d k. Inr (map_of d k)), rocks_write = (\<lambda>d k x. (Inr (), (k, x) # d))\<rparr>"

lemma list_rocks_laws: "rocks_laws list_rocks map_of"
  by (simp add: rocks_laws_def list_rocks_def)

definition counting_request :: request_message where
  "counting_request = \<lparr>rq_version = None, rq_from = None, rq_to = Anonymous, rq_method = ''count'', rq_data = [],
     rq_timestamp = Some 10, rq_id = Some 1, rq_nonce = None, rq_attributes = []\<rparr>"

definition counting_module :: "nat many_module" where
  "counting_module = \<lparr>mm_name = ''counter'', mm_attribute = None, mm_endpoints = [''count''],
     mm_validate = (\<lambda>_ _ _. Ok ()), mm_execute = (\<lambda>_ n. (Ok response_default, n + 1))\<rparr>"

definition counting_envelope :: cose_sign1 where
  "counting_envelope = \<lparr>cs_headers = [], cs_payload = Some [1], cs_signature = []\<rparr>"

definition plain_srv_ext :: srv_ext where
  "plain_srv_ext = \<lparr>request_decode = (\<lambda>_. Inr counting_request), response_encode = (\<lambda>_. Inr []), sha512 = (\<lambda>b. b),
     error_text = (\<lambda>_. []), cose_from_tagged = (\<lambda>_. Inr counting_envelope), cose_to_tagged = (\<lambda>_. Inr [])\<rparr>"

definition counting_server :: "(nat, unit \<times> (bytes \<times> bytes) list) many_server" where
  "counting_server = (add_validator
      (server_new (PublicKey 1) (\<lambda>_. Inr counting_envelope) (\<lambda>_. Ok Anonymous) (\<lambda>_. Ok (12 * 10 ^ 9)))
      (cache_validator plain_srv_ext (rocks_has list_rocks) (rocks_put list_rocks)))
    \<lparr>srv_modules := [counting_module], srv_method_cache := [''count'']\<rparr>"

definition counting_state :: "(nat, unit \<times> (bytes \<times> bytes) list) srv_state" where
  "counting_state = \<lparr>world = 0, vstate = ((), [])\<rparr>"

lemma counting_validator:
  "srv_validator counting_server =
    pair_validator unit_validator (cache_validator plain_srv_ext (rocks_has list_rocks) (rocks_put list_rocks))"
  by (simp add: counting_server_def add_validator_def server_new_def)

lemmas counting_defs = counting_server_def counting_module_def counting_envelope_def counting_state_def add_validator_def server_new_def
  pair_validator_def unit_validator_def cache_validator_def rocks_has_def rocks_put_def list_rocks_def plain_srv_ext_def counting_request_def
  MANYSERVER_DEFAULT_TIMEOUT_def

lemma counting_open: "open_request plain_srv_ext counting_server counting_envelope counting_state = Ok counting_request"
  by (simp add: open_request_def decode_request_from_cose_sign1_def request_try_from_def validate_time_def as_system_time_def checked_add_secs_def
      Let_def matches_def counting_defs)

lemma counting_route: "route_request nibble_ext counting_server counting_envelope counting_request counting_state = Ok (Some counting_module)"
  by (simp add: route_request_def validate_id_def find_module_def Let_def counting_defs)

theorem executed_requests_are_valid_witness:
  "\<exists>signer. srv_verifier counting_server counting_envelope = Ok signer \<and>
    matches signer (case rq_from counting_request of Some a \<Rightarrow> a | None \<Rightarrow> Anonymous)"
  using executed_requests_are_valid [OF counting_open counting_route] by blast

theorem server_stays_wf_witness:
  "server_wf counting_server \<and> find_module counting_server counting_request = Some counting_module \<and>
   (\<exists>p. add_module counting_module counting_server = Panic p)"
proof -
  have wf: "server_wf counting_server"
    by (simp add: server_wf_def counting_defs)
  have c: "\<exists>m'\<in>set (srv_modules counting_server). conflict m' counting_module"
    by (simp add: conflict_def counting_defs)
  have "counting_module \<in> set (srv_modules counting_server) \<and> rq_method counting_request \<in> set (mm_endpoints counting_module)"
    by (simp add: counting_defs)
  then show ?thesis
    using server_stays_wf [OF wf, of counting_module counting_request counting_module] wf c by simp
qed

lemma counting_run:
  obtains r t where "server_execute plain_srv_ext nibble_ext counting_server counting_envelope counting_state = (Ok r, t)" "world t = 1"
proof -
  have "\<exists>r t. server_execute plain_srv_ext nibble_ext counting_server counting_envelope counting_state = (Ok r, t) \<and> world t = 1"
    unfolding server_execute_def counting_open
    by (simp add: counting_route)
      (simp add: run_module_def module_response_def Let_def bnd_def attempt_def on_world_def on_vstate_def on_fst_def on_snd_def ret_def
        lift_result_def reply_def encode_cose_sign1_from_response_def counting_defs)
  then show thesis
    using that by blast
qed

theorem executed_once_witness:
  "\<exists>r t. server_execute plain_srv_ext nibble_ext counting_server counting_envelope counting_state = (Ok r, t) \<and> world t = 1 \<and>
    snd (server_execute plain_srv_ext nibble_ext counting_server (counting_envelope\<lparr>cs_signature := [7]\<rparr>) t) = t"
proof -
  obtain r t where t: "server_execute plain_srv_ext nibble_ext counting_server counting_envelope counting_state = (Ok r, t)" "world t = 1"
    by (rule counting_run)
  have "snd (server_execute plain_srv_ext nibble_ext counting_server (counting_envelope\<lparr>cs_signature := [7]\<rparr>) t) = t"
    using executed_once [OF list_rocks_laws counting_validator counting_open counting_route t(1) rtranclp.rtrancl_refl,
        of "counting_envelope\<lparr>cs_signature := [7]\<rparr>"] by simp
  with t show ?thesis by blast
qed

end
