(* ===== verification/Abci_App.thy ===== *)
theory Abci_App
  imports Server Blocks
begin

text \<open>
  The bridge to Tendermint: the client \<open>src/src/many-client/src/client.rs\<close>, the application
  \<open>many-abci/src/abci_app.rs\<close> that Tendermint calls, with its migration \<open>migration/error_code.rs\<close>, and the front
  end \<open>many-abci/src/many_app.rs\<close> that clients call. Tendermint, HTTP, the clock, random nonces and the codecs
  are parameters. Locks are not modelled: no thread panics while it holds one.
\<close>

section \<open>The client\<close>

text \<open>The status and the body of an HTTP response.\<close>

record 'b abci_ext =
  http_post :: "bytes \<Rightarrow> 'b \<Rightarrow> (string + nat \<times> (string + bytes)) \<times> 'b"
  fresh_nonce :: "'b \<Rightarrow> bytes \<times> 'b"
  wall_clock :: "'b \<Rightarrow> u64"
  request_encode :: "request_message \<Rightarrow> string + bytes"
  response_decode :: "bytes \<Rightarrow> string + response_message"
  sign_anonymous :: "bytes \<Rightarrow> many_error + cose_sign1"
  client_verifier :: "cose_sign1 \<Rightarrow> address result"
  cose_from_slice :: "bytes \<Rightarrow> string + cose_sign1"
  cose_to_vec :: "cose_sign1 \<Rightarrow> string + bytes"
  block_encode :: "u64 option \<Rightarrow> string + bytes"
  unit_encode :: "string + bytes"
  info_decode :: "bytes \<Rightarrow> string + abci_info"
  commit_info_decode :: "bytes \<Rightarrow> string + abci_commit_info"
  status_name :: "bytes \<Rightarrow> string + string"

abbreviation unexpected_transport_error :: "string \<Rightarrow> many_error" where
  "unexpected_transport_error inner \<equiv> ManyError UnexpectedTransportError [(''inner'', inner)]"

abbreviation internal_server_error :: many_error where
  "internal_server_error \<equiv> ManyError InternalServerError []"

definition send_envelope :: "srv_ext \<Rightarrow> 'b abci_ext \<Rightarrow> cose_sign1 \<Rightarrow> ('b, cose_sign1) act" where
  "send_envelope X A message b =
    (case cose_to_tagged X message of
       Inl _ \<Rightarrow> (Err internal_server_error, b)
     | Inr bytes \<Rightarrow>
         (case http_post A bytes b of
            (Inl e, b') \<Rightarrow> (Err (unexpected_transport_error e), b')
          | (Inr (status, body), b') \<Rightarrow>
              (if status = 413 then Err (unexpected_transport_error
                 (''413: Content Too Large : '' @ nat_str (length bytes) @ '' bytes''))
               else if status = 500 then Err (unexpected_transport_error ''500: Internal Server Error'')
               else res_bind (from_sum unexpected_transport_error body) (\<lambda>bs.
                 from_sum deserialization_error (cose_from_tagged X bs)), b')))"

text \<open>\<open>to_bytes\<close>: the encoder fills in the time of a message that has none.\<close>

definition request_to_bytes :: "'b abci_ext \<Rightarrow> u64 \<Rightarrow> request_message \<Rightarrow> string + bytes" where
  "request_to_bytes A clock r =
    request_encode A (r\<lparr>rq_timestamp := Some (case rq_timestamp r of Some t \<Rightarrow> t | None \<Rightarrow> clock)\<rparr>)"

definition response_to_bytes :: "srv_ext \<Rightarrow> u64 \<Rightarrow> response_message \<Rightarrow> string + bytes" where
  "response_to_bytes X clock r =
    response_encode X (r\<lparr>rm_timestamp := Some (case rm_timestamp r of Some t \<Rightarrow> t | None \<Rightarrow> clock)\<rparr>)"

definition encode_cose_sign1_from_request ::
  "'b abci_ext \<Rightarrow> u64 \<Rightarrow> (bytes \<Rightarrow> many_error + cose_sign1) \<Rightarrow> request_message \<Rightarrow> cose_sign1 result" where
  "encode_cose_sign1_from_request A clock sign request =
    (if rq_from request = Some Illegal then Err invalid_from_identity
     else res_bind (unwrap_sum (request_to_bytes A clock request)) (\<lambda>payload.
       case sign payload of Inl e \<Rightarrow> Err e | Inr c \<Rightarrow> Ok c))"

definition decode_and_verify ::
  "'b abci_ext \<Rightarrow> cose_sign1 \<Rightarrow> (cose_sign1 \<Rightarrow> address result) \<Rightarrow> response_message result" where
  "decode_and_verify A envelope verify_1 =
    res_bind (verify_1 envelope) (\<lambda>address.
    res_bind (fails_if (is_illegal address) invalid_from_identity) (\<lambda>_.
    res_bind (ok_or empty_envelope (cs_payload envelope)) (\<lambda>payload.
    res_bind (from_sum deserialization_error (response_decode A payload)) (\<lambda>message.
    res_bind (fails_if (address \<noteq> rm_from message) invalid_from_identity) (\<lambda>_.
    Ok message)))))"

definition send_message :: "srv_ext \<Rightarrow> 'b abci_ext \<Rightarrow> request_message \<Rightarrow> ('b, response_message) act" where
  "send_message X A message =
    bnd (expect ''unwrap'' (query (\<lambda>b. encode_cose_sign1_from_request A (wall_clock A b) (sign_anonymous A) message))) (\<lambda>cose.
    bnd (send_envelope X A cose) (\<lambda>cose_sign1.
    lift_result (decode_and_verify A cose_sign1 (client_verifier A))))"

definition call_raw :: "srv_ext \<Rightarrow> 'b abci_ext \<Rightarrow> address \<Rightarrow> string \<Rightarrow> bytes \<Rightarrow> ('b, response_message) act" where
  "call_raw X A to' method argument b =
    (case fresh_nonce A b of (nonce, b') \<Rightarrow>
      send_message X A \<lparr>rq_version = Some 1, rq_from = Some Anonymous, rq_to = to', rq_method = method, rq_data = argument,
        rq_timestamp = None, rq_id = None, rq_nonce = Some nonce, rq_attributes = []\<rparr> b')"

text \<open>\<open>call\<close> and \<open>call_\<close>: the argument is encoded first, the data of the response is the result.\<close>

definition client_call :: "srv_ext \<Rightarrow> 'b abci_ext \<Rightarrow> address \<Rightarrow> string \<Rightarrow> string + bytes \<Rightarrow> ('b, bytes) act" where
  "client_call X A to' method argument =
    bnd (lift_result (from_sum serialization_error argument)) (\<lambda>bytes.
    bnd (call_raw X A to' method bytes) (\<lambda>response.
    lift_result (case rm_data response of Inl e \<Rightarrow> Err e | Inr d \<Rightarrow> Ok d)))"

section \<open>The application\<close>

text \<open>The codes of the responses; the numbers of the source are their encoding for Tendermint.\<close>

datatype abci_code = QuerySuccess | TransportError | FrontendError

datatype check_code =
    CheckSuccess
  | CheckCoseDeserializeError
  | MessageDeserializeError
  | CheckRwLockPoisonedError
  | TimestampError
  | CannotGetSystemTimeError
  | TimestampOutsideOfRangeError
  | ValidationError

datatype deliver_code =
    DeliverSuccess
  | TransportRequestError
  | DeliverCoseDeserializeError
  | TransportResponseError
  | DeliverRwLockPoisonedError

text \<open>The messages of \<open>tendermint_proto\<close>, with the fields the code sets or reads.\<close>

record response_info =
  ri_data :: string
  ri_version :: string
  ri_app_version :: nat
  ri_last_block_height :: int
  ri_last_block_app_hash :: bytes

record response_query =
  rqy_code :: abci_code
  rqy_log :: string
  rqy_value :: bytes

record block_header =
  bh_time :: "int option"
  bh_height :: int

record response_check_tx =
  ct_code :: check_code
  ct_log :: string

record response_deliver_tx =
  dt_code :: deliver_code
  dt_data :: bytes
  dt_log :: string

record response_commit =
  rc_data :: bytes
  rc_retain_height :: int

definition MANYABCI_DEFAULT_TIMEOUT :: u64 where
  "MANYABCI_DEFAULT_TIMEOUT = 300"

text \<open>
  \<open>AbciApp\<close>: the server behind \<open>many_url\<close>, the state of the validator, the migrations and the time of the block.
\<close>

record ('b, 'c, 'v) abci_app =
  app_name :: string
  app_server_id :: address
  app_backend :: 'b
  app_cache :: 'c
  app_migrations :: "(unit, 'v) migration_set"
  app_block_time :: "u64 option"

definition on_backend :: "('b, 'x) act \<Rightarrow> (('b, 'c, 'v) abci_app, 'x) act" where
  "on_backend m s = (case m (app_backend s) of (r, b) \<Rightarrow> (r, s\<lparr>app_backend := b\<rparr>))"

definition on_cache :: "('c, 'x) act \<Rightarrow> (('b, 'c, 'v) abci_app, 'x) act" where
  "on_cache m s = (case m (app_cache s) of (r, c) \<Rightarrow> (r, s\<lparr>app_cache := c\<rparr>))"

definition LEGACY_ERROR_CODE_TRIGGER :: "(unit, 'v) inner_migration" where
  "LEGACY_ERROR_CODE_TRIGGER =
    new_trigger True ''LegacyErrorCode'' ''Trigger a legacy bug in attribute-specific error codes decoding in ABCI.''"

definition get_abci_info :: "srv_ext \<Rightarrow> 'b abci_ext \<Rightarrow> address \<Rightarrow> ('b, abci_info) act" where
  "get_abci_info X A to' =
    bnd (client_call X A to' ''abci.info'' (unit_encode A)) (\<lambda>payload.
    lift_result (from_sum deserialization_error (info_decode A payload)))"

text \<open>\<open>create\<close> and \<open>with_validator\<close>, for a URL that parses: errors are texts.\<close>

definition app_create ::
  "srv_ext \<Rightarrow> 'b abci_ext \<Rightarrow> address \<Rightarrow> migration_config option \<Rightarrow> 'c \<Rightarrow> ('b, string + ('b, 'c, 'v) abci_app) act" where
  "app_create X A server_id config cache b =
    (case client_call X A server_id ''status'' (unit_encode A) b of
       (Panic p, b1) \<Rightarrow> (Panic p, b1)
     | (Err e, b1) \<Rightarrow> (Ok (Inl (error_text X e)), b1)
     | (Ok bytes, b1) \<Rightarrow>
         (case status_name A bytes of
            Inl e \<Rightarrow> (Ok (Inl (error_text X (deserialization_error e))), b1)
          | Inr name \<Rightarrow>
              (case get_abci_info X A server_id b1 of
                 (Panic p, b2) \<Rightarrow> (Panic p, b2)
               | (Err e, b2) \<Rightarrow> (Ok (Inl (''Unable to call abci.info: '' @ error_text X e)), b2)
               | (Ok info, b2) \<Rightarrow>
                   (case (case config of None \<Rightarrow> Inr [] | Some c \<Rightarrow> ms_load [LEGACY_ERROR_CODE_TRIGGER] c (info_height info)) of
                      Inl e \<Rightarrow> (Ok (Inl (''Unable to load migrations: '' @ e)), b2)
                    | Inr ms \<Rightarrow> (Ok (Inr \<lparr>app_name = name, app_server_id = server_id, app_backend = b2, app_cache = cache,
                        app_migrations = ms, app_block_time = None\<rparr>), b2)))))"

definition app_info :: "srv_ext \<Rightarrow> 'b abci_ext \<Rightarrow> (('b, 'c, 'v) abci_app, response_info) act" where
  "app_info X A =
    bnd (query (\<lambda>s. Ok s)) (\<lambda>s.
    bnd (attempt (on_backend (get_abci_info X A (app_server_id s)))) (\<lambda>r.
    ret (case r of
       Inl e \<Rightarrow> \<lparr>ri_data = ''An error occurred during call to abci.info:'' @ [CHR 0x0A] @ error_text X e,
         ri_version = [], ri_app_version = 0, ri_last_block_height = 0, ri_last_block_app_hash = []\<rparr>
     | Inr info \<Rightarrow> \<lparr>ri_data = ''many-abci-bridge('' @ app_name s @ '')'', ri_version = ''0.2.6'', ri_app_version = 1,
         ri_last_block_height = sint (info_height info), ri_last_block_app_hash = info_hash info\<rparr>)))"

definition app_query :: "srv_ext \<Rightarrow> 'b abci_ext \<Rightarrow> bytes \<Rightarrow> (('b, 'c, 'v) abci_app, response_query) act" where
  "app_query X A data =
    (case cose_from_slice A data of
       Inl e \<Rightarrow> ret \<lparr>rqy_code = FrontendError, rqy_log = e, rqy_value = []\<rparr>
     | Inr cose \<Rightarrow>
         bnd (attempt (on_backend (send_envelope X A cose))) (\<lambda>r.
         ret (case r of
            Inl e \<Rightarrow> \<lparr>rqy_code = TransportError, rqy_log = error_text X e, rqy_value = []\<rparr>
          | Inr value \<Rightarrow>
              (case cose_to_vec A value of
                 Inr v \<Rightarrow> \<lparr>rqy_code = QuerySuccess, rqy_log = [], rqy_value = v\<rparr>
               | Inl e \<Rightarrow> \<lparr>rqy_code = FrontendError, rqy_log = e, rqy_value = []\<rparr>))))"

text \<open>
  \<open>do_check_tx\<close>. A failing step gives its code and a text; only a panic of the validator is something else.
\<close>

definition check_step :: "check_code \<Rightarrow> (many_error \<Rightarrow> string) \<Rightarrow> 'a result \<Rightarrow> ('a \<Rightarrow> (check_code \<times> string) result) \<Rightarrow> (check_code \<times> string) result" where
  "check_step code log r f = (case r of Ok x \<Rightarrow> f x | Err e \<Rightarrow> Ok (code, log e) | Panic p \<Rightarrow> Panic p)"

definition do_check_tx ::
  "srv_ext \<Rightarrow> 'b abci_ext \<Rightarrow> 'c request_validator \<Rightarrow> bytes \<Rightarrow> ('b, 'c, 'v) abci_app \<Rightarrow> (check_code \<times> string) result" where
  "do_check_tx X A v tx s =
    (case cose_from_slice A tx of
       Inl e \<Rightarrow> Ok (CheckCoseDeserializeError, e)
     | Inr cose \<Rightarrow>
         check_step MessageDeserializeError (error_text X) (request_try_from X cose) (\<lambda>message.
         check_step ValidationError (\<lambda>_. ''Transaction already in cache'') (validate_envelope v cose (app_cache s)) (\<lambda>_.
         check_step ValidationError (error_text X) (validate_request v message (app_cache s)) (\<lambda>_.
         let clock = (case app_block_time s of None \<Rightarrow> wall_clock A (app_backend s) | Some t \<Rightarrow> t) in
         check_step CannotGetSystemTimeError (error_text X) (as_system_time clock) (\<lambda>secs.
         check_step TimestampOutsideOfRangeError (error_text X)
           (validate_time message (int secs * 10 ^ 9) MANYABCI_DEFAULT_TIMEOUT) (\<lambda>_.
         Ok (CheckSuccess, [])))))))"

definition check_tx ::
  "srv_ext \<Rightarrow> 'b abci_ext \<Rightarrow> 'c request_validator \<Rightarrow> bytes \<Rightarrow> ('b, 'c, 'v) abci_app \<Rightarrow> response_check_tx result" where
  "check_tx X A v tx s = res_bind (do_check_tx X A v tx s) (\<lambda>(code, log). Ok \<lparr>ct_code = code, ct_log = log\<rparr>)"

text \<open>
  The header of a block has signed 64-bit numbers. The registry has one trigger, which runs no code when it is
  activated, and the outcome of the migrations is ignored.
\<close>

definition app_begin_block ::
  "srv_ext \<Rightarrow> 'b abci_ext \<Rightarrow> block_header option \<Rightarrow> (('b, 'c, 'v) abci_app, unit) act" where
  "app_begin_block X A header =
    (let time = (case header of None \<Rightarrow> None | Some h \<Rightarrow> map_option word_of_int (bh_time h));
         height = map_option (\<lambda>h. if bh_height h > 0 then word_of_int (bh_height h) else 0) header in
     bnd (case height of
         None \<Rightarrow> ret ()
       | Some h \<Rightarrow> modify (\<lambda>s. s\<lparr>app_migrations := fst (snd (update_at_height h (app_migrations s) ()))\<rparr>)) (\<lambda>_.
     bnd (modify (\<lambda>s. s\<lparr>app_block_time := time\<rparr>)) (\<lambda>_.
     bnd (query (\<lambda>s. Ok (app_server_id s))) (\<lambda>i.
     bnd (attempt (on_backend (client_call X A i ''abci.beginBlock'' (block_encode A time)))) (\<lambda>_.
     ret ())))))"

text \<open>
  What every node has to answer in the same way: the parts of the response that differ between nodes are
  replaced, and errors get the code they had when the chain started.
\<close>

definition legacy_data :: "many_error + bytes \<Rightarrow> many_error + bytes" where
  "legacy_data d =
    (case d of
       Inl (ManyError (AttributeSpecific _) args) \<Rightarrow> Inl (ManyError Unknown args)
     | _ \<Rightarrow> d)"

definition consensus_response ::
  "'b abci_ext \<Rightarrow> (unit, 'v) migration_set \<Rightarrow> cose_sign1 \<Rightarrow> response_message" where
  "consensus_response A ms cose_sign =
    (let payload = (case cs_payload cose_sign of Some p \<Rightarrow> p | None \<Rightarrow> []);
         response = (case response_decode A payload of Inr r \<Rightarrow> r | Inl _ \<Rightarrow> response_default);
         response = response\<lparr>rm_from := Anonymous, rm_version := None, rm_timestamp := Some 0\<rparr>
     in if ms_is_active ms (im_name (LEGACY_ERROR_CODE_TRIGGER :: (unit, 'v) inner_migration))
        then response\<lparr>rm_data := legacy_data (rm_data response)\<rparr> else response)"

text \<open>The answer of the server: the cache records the transaction, and the response is encoded.\<close>

definition deliver_answer ::
  "srv_ext \<Rightarrow> 'b abci_ext \<Rightarrow> 'c request_validator \<Rightarrow> cose_sign1 \<Rightarrow> response_message \<Rightarrow> (('b, 'c, 'v) abci_app, response_deliver_tx) act" where
  "deliver_answer X A v cose response =
    bnd (attempt (on_cache (message_executed v cose response))) (\<lambda>m.
    case m of
      Inl _ \<Rightarrow> lift_result (Panic ''message_executed failed'')
    | Inr _ \<Rightarrow>
        bnd (query (\<lambda>s. Ok (response_to_bytes X (wall_clock A (app_backend s)) response))) (\<lambda>bytes.
        ret (case bytes of
           Inr data \<Rightarrow> \<lparr>dt_code = DeliverSuccess, dt_data = data, dt_log = []\<rparr>
         | Inl _ \<Rightarrow> \<lparr>dt_code = TransportResponseError, dt_data = [], dt_log = []\<rparr>)))"

definition deliver_tx ::
  "srv_ext \<Rightarrow> 'b abci_ext \<Rightarrow> 'c request_validator \<Rightarrow> bytes \<Rightarrow> (('b, 'c, 'v) abci_app, response_deliver_tx) act" where
  "deliver_tx X A v tx =
    (case cose_from_slice A tx of
       Inl e \<Rightarrow> ret \<lparr>dt_code = DeliverCoseDeserializeError, dt_data = [], dt_log = e\<rparr>
     | Inr cose \<Rightarrow>
         bnd (attempt (on_backend (send_envelope X A cose))) (\<lambda>r.
         case r of
           Inl e \<Rightarrow> ret \<lparr>dt_code = TransportRequestError, dt_data = [], dt_log = error_text X e\<rparr>
         | Inr cose_sign \<Rightarrow>
             bnd (query (\<lambda>s. Ok (consensus_response A (app_migrations s) cose_sign))) (\<lambda>response.
             deliver_answer X A v cose response)))"

definition app_end_block :: "srv_ext \<Rightarrow> 'b abci_ext \<Rightarrow> (('b, 'c, 'v) abci_app, unit) act" where
  "app_end_block X A =
    bnd (query (\<lambda>s. Ok (app_server_id s))) (\<lambda>i.
    bnd (attempt (on_backend (client_call X A i ''abci.endBlock'' (unit_encode A)))) (\<lambda>_. ret ()))"

definition app_commit :: "srv_ext \<Rightarrow> 'b abci_ext \<Rightarrow> (('b, 'c, 'v) abci_app, response_commit) act" where
  "app_commit X A =
    bnd (query (\<lambda>s. Ok (app_server_id s))) (\<lambda>i.
    bnd (attempt (on_backend (client_call X A i ''abci.commit'' (unit_encode A)))) (\<lambda>r.
    case r of
      Inl e \<Rightarrow> ret \<lparr>rc_data = utf8 (error_text X e), rc_retain_height = 0\<rparr>
    | Inr msg \<Rightarrow>
        bnd (lift_result (unwrap_sum (commit_info_decode A msg))) (\<lambda>info.
        ret \<lparr>rc_data = commit_hash info, rc_retain_height = sint (retain_height info)\<rparr>)))"

section \<open>The front end\<close>

text \<open>
  \<open>AbciModuleMany\<close>. The client of Tendermint is two operations on its state: broadcasting a transaction, which
  gives its hash, and a query.
\<close>

record 't abci_frontend =
  fe_broadcast_tx_sync :: "bytes \<Rightarrow> 't \<Rightarrow> (string + bytes) \<times> 't"
  fe_abci_query :: "bytes \<Rightarrow> 't \<Rightarrow> (string + bytes) \<times> 't"
  fe_address :: address
  fe_sign :: "bytes \<Rightarrow> many_error + cose_sign1"
  fe_verifier :: "cose_sign1 \<Rightarrow> address result"
  fe_endpoints :: "(string \<times> bool) list"
  fe_allow_addrs :: "address list option"

definition response_from_request :: "request_message \<Rightarrow> address \<Rightarrow> many_error + bytes \<Rightarrow> response_message" where
  "response_from_request request sfrom data =
    \<lparr>rm_version = Some 1, rm_from = sfrom, rm_to = rq_from request, rm_data = data, rm_timestamp = None,
     rm_id = rq_id request, rm_attributes = []\<rparr>"

definition tendermint :: "(string + 'a) \<times> 't \<Rightarrow> 'a result \<times> 't" where
  "tendermint p = (from_sum unexpected_transport_error (fst p), snd p)"

definition execute_message :: "srv_ext \<Rightarrow> 'b abci_ext \<Rightarrow> 't abci_frontend \<Rightarrow> cose_sign1 \<Rightarrow> ('t, cose_sign1) act" where
  "execute_message X A fe envelope =
    bnd (lift_result (decode_request_from_cose_sign1 X envelope (fe_verifier fe))) (\<lambda>message.
    case map_of (fe_endpoints fe) (rq_method message) of
      None \<Rightarrow> fail (invalid_method_name (rq_method message))
    | Some is_command \<Rightarrow>
        bnd (lift_result (from_sum unexpected_transport_error (cose_to_vec A envelope))) (\<lambda>data.
        if is_command then
          bnd (fail_if (case fe_allow_addrs fe of None \<Rightarrow> False
              | Some as \<Rightarrow> (case rq_from message of Some a \<Rightarrow> a | None \<Rightarrow> Anonymous) \<notin> set as) invalid_from_identity) (\<lambda>_.
          bnd (\<lambda>t. tendermint (fe_broadcast_tx_sync fe data t)) (\<lambda>hash.
          let response = (response_from_request message (fe_address fe) (Inr []))
                \<lparr>rm_attributes := [with_argument (attribute_with_id 1) (CBytes hash)]\<rparr> in
          lift_result (map_err (\<lambda>e. unexpected_transport_error (error_text X e))
            (encode_cose_sign1_from_response X (fe_sign fe) response))))
        else
          bnd (\<lambda>t. tendermint (fe_abci_query fe data t)) (\<lambda>value.
          lift_result (from_sum unexpected_transport_error (cose_from_slice A value)))))"

definition frontend_execute ::
  "srv_ext \<Rightarrow> 'b abci_ext \<Rightarrow> 't abci_frontend \<Rightarrow> cose_sign1 \<Rightarrow> ('t, string + cose_sign1) act" where
  "frontend_execute X A fe envelope =
    bnd (attempt (execute_message X A fe envelope)) (\<lambda>result.
    case result of
      Inr x \<Rightarrow> ret (Inr x)
    | Inl e \<Rightarrow>
        lift_result (case encode_cose_sign1_from_response X (fe_sign fe) (response_error (fe_address fe) None e) of
          Ok c \<Rightarrow> Ok (Inr c) | Err e' \<Rightarrow> Ok (Inl (error_text X e')) | Panic p \<Rightarrow> Panic p))"

end
