(* ===== verification/Abci_Consensus.thy ===== *)
theory Abci_Consensus
  imports Abci_App
begin

text \<open>
  What consensus relies on in \<open>Abci_App\<close>: replicas that deliver a transaction give the same response and stay in
  the same state, although they have different identities, clocks and signatures, and a delivered transaction
  is not accepted again. The server behind the application is \<open>server_execute\<close> of \<open>Server\<close>.
\<close>

section \<open>Delivering a transaction\<close>

lemma app_part_Ok [act_simps]:
  "on_backend m s = (Ok x, t) \<longleftrightarrow> (\<exists>b. m (app_backend s) = (Ok x, b) \<and> t = s\<lparr>app_backend := b\<rparr>)"
  "on_cache n s = (Ok x, t) \<longleftrightarrow> (\<exists>c. n (app_cache s) = (Ok x, c) \<and> t = s\<lparr>app_cache := c\<rparr>)"
  "attempt (on_backend m) s = (Ok (Inl e), t) \<longleftrightarrow> (\<exists>b. m (app_backend s) = (Err e, b) \<and> t = s\<lparr>app_backend := b\<rparr>)"
  by (auto simp: on_backend_def on_cache_def attempt_def split: prod.splits result.splits)

definition delivered :: "srv_ext \<Rightarrow> response_message \<Rightarrow> response_deliver_tx" where
  "delivered X r =
    (case response_encode X r of
       Inr data \<Rightarrow> \<lparr>dt_code = DeliverSuccess, dt_data = data, dt_log = []\<rparr>
     | Inl _ \<Rightarrow> \<lparr>dt_code = TransportResponseError, dt_data = [], dt_log = []\<rparr>)"

lemma consensus_response_bytes:
  "response_to_bytes X clock (consensus_response A ms c) = response_encode X (consensus_response A ms c)"
proof -
  have "rm_timestamp (consensus_response A ms c) = Some 0"
    by (simp add: consensus_response_def Let_def)
  then show ?thesis
    by (cases "consensus_response A ms c") (simp add: response_to_bytes_def)
qed

lemma deliver_answer_Ok:
  assumes "deliver_answer X A v cose (consensus_response A ms c) s = (Ok d, t)"
  shows "d = delivered X (consensus_response A ms c) \<and>
    (\<exists>k. message_executed v cose (consensus_response A ms c) (app_cache s) = (Ok (), k) \<and> t = s\<lparr>app_cache := k\<rparr>)"
proof -
  obtain m s2 where m: "attempt (on_cache (message_executed v cose (consensus_response A ms c))) s = (Ok m, s2)"
    "(case m of Inl _ \<Rightarrow> lift_result (Panic ''message_executed failed'')
      | Inr _ \<Rightarrow> ret (delivered X (consensus_response A ms c))) s2 = (Ok d, t)"
    using assms by (auto simp: deliver_answer_def bnd_query consensus_response_bytes bnd_Ok delivered_def cong: sum.case_cong)
  then show ?thesis
    by (cases m) (auto simp: act_simps)
qed

text \<open>The three outcomes of a delivery: no envelope, no answer of the server, an answer.\<close>

lemma deliver_tx_Ok:
  assumes "deliver_tx X A v tx s = (Ok d, t)"
  shows "(\<exists>e. cose_from_slice A tx = Inl e \<and> d = \<lparr>dt_code = DeliverCoseDeserializeError, dt_data = [], dt_log = e\<rparr> \<and> t = s) \<or>
    (\<exists>cose e b. cose_from_slice A tx = Inr cose \<and> send_envelope X A cose (app_backend s) = (Err e, b) \<and>
       d = \<lparr>dt_code = TransportRequestError, dt_data = [], dt_log = error_text X e\<rparr> \<and> t = s\<lparr>app_backend := b\<rparr>) \<or>
    (\<exists>cose c b k. cose_from_slice A tx = Inr cose \<and> send_envelope X A cose (app_backend s) = (Ok c, b) \<and>
       message_executed v cose (consensus_response A (app_migrations s) c) (app_cache s) = (Ok (), k) \<and>
       d = delivered X (consensus_response A (app_migrations s) c) \<and> t = s\<lparr>app_backend := b, app_cache := k\<rparr>)"
proof (cases "cose_from_slice A tx")
  case (Inl e)
  then show ?thesis using assms by (simp add: deliver_tx_def ret_def)
next
  case cose: (Inr cose)
  then obtain r s1 where r: "attempt (on_backend (send_envelope X A cose)) s = (Ok r, s1)"
    and rest: "(case r of Inl e \<Rightarrow> ret \<lparr>dt_code = TransportRequestError, dt_data = [], dt_log = error_text X e\<rparr>
      | Inr c \<Rightarrow> bnd (query (\<lambda>s. Ok (consensus_response A (app_migrations s) c))) (deliver_answer X A v cose)) s1 = (Ok d, t)"
    using assms by (auto simp: deliver_tx_def bnd_Ok)
  show ?thesis
  proof (cases r)
    case (Inl e)
    then show ?thesis using r rest cose by (auto simp: app_part_Ok ret_Ok)
  next
    case (Inr c)
    then obtain b where b: "send_envelope X A cose (app_backend s) = (Ok c, b)" "s1 = s\<lparr>app_backend := b\<rparr>"
      using r by (auto simp: act_simps)
    moreover have "deliver_answer X A v cose (consensus_response A (app_migrations s) c) s1 = (Ok d, t)"
      using rest Inr b(2) by (simp add: bnd_query)
    ultimately show ?thesis
      using deliver_answer_Ok [of X A v cose "app_migrations s" c s1 d t] cose by auto
  qed
qed

section \<open>Replicas\<close>

definition legacy_active :: "(unit, 'v) migration_set \<Rightarrow> bool" where
  "legacy_active ms = ms_is_active ms (im_name (LEGACY_ERROR_CODE_TRIGGER :: (unit, 'v) inner_migration))"

text \<open>The parts of a response that all replicas have to agree on.\<close>

definition same_outcome :: "response_message \<Rightarrow> response_message \<Rightarrow> bool" where
  "same_outcome r r' \<longleftrightarrow> rm_to r = rm_to r' \<and> rm_data r = rm_data r' \<and> rm_id r = rm_id r' \<and> rm_attributes r = rm_attributes r'"

text \<open>
  What the wire formats give: an envelope keeps its payload, and the fields a response is decoded to depend on
  the same fields of the response that was encoded.
\<close>

definition wire_laws :: "srv_ext \<Rightarrow> 'b abci_ext \<Rightarrow> bool" where
  "wire_laws X A \<longleftrightarrow>
    (\<forall>c. \<exists>b c'. cose_to_tagged X c = Inr b \<and> cose_from_tagged X b = Inr c' \<and> cs_payload c' = cs_payload c) \<and>
    (\<forall>r r'. same_outcome r r' \<longrightarrow> (\<exists>b b' q q'. response_encode X r = Inr b \<and> response_encode X r' = Inr b' \<and>
       response_decode A b = Inr q \<and> response_decode A b' = Inr q' \<and> same_outcome q q'))"

text \<open>A signature is made of the payload, which stays readable.\<close>

definition signs :: "(bytes \<Rightarrow> many_error + cose_sign1) \<Rightarrow> bool" where
  "signs sign \<longleftrightarrow> (\<forall>p. \<exists>c. sign p = Inr c \<and> cs_payload c = Some p)"

definition ignores_response :: "'c request_validator \<Rightarrow> bool" where
  "ignores_response v \<longleftrightarrow> (\<forall>e r r'. message_executed v e r = message_executed v e r')"

definition clock_in_range :: "('w, 'c) many_server \<Rightarrow> bool" where
  "clock_in_range a \<longleftrightarrow> (\<forall>w. \<exists>n. srv_time a w = Ok n \<and> 0 \<le> n \<and> n < 2 ^ 63 * 10 ^ 9)"

text \<open>
  Two servers that are started for ABCI (\<open>set_timeout(u64::MAX)\<close>) with the same modules and validators. They may have
  different addresses, keys and clocks.
\<close>

definition replicas :: "('w, 'c) many_server \<Rightarrow> ('w, 'c) many_server \<Rightarrow> bool" where
  "replicas a b \<longleftrightarrow> srv_modules a = srv_modules b \<and> srv_verifier a = srv_verifier b \<and> srv_validator a = srv_validator b \<and>
    srv_fallback a = None \<and> srv_fallback b = None \<and> srv_timeout a = U64_MAX \<and> srv_timeout b = U64_MAX \<and>
    clock_in_range a \<and> clock_in_range b \<and> signs (srv_sign a) \<and> signs (srv_sign b) \<and> ignores_response (srv_validator a)"

text \<open>With the timeout of ABCI the clock has no influence on the check of the time.\<close>

lemma within_unlimited:
  fixes n k :: int
  assumes "0 \<le> n" "n < 2 ^ 63 * 10 ^ 9" "0 \<le> k" "k < 2 ^ 63"
  shows "(n - k * 10 ^ 9) div 10 ^ 9 < 2 ^ 64 - 1" "(k * 10 ^ 9 - n) div 10 ^ 9 < 2 ^ 64 - 1"
  using assms by (simp_all add: div_less_iff_less_mult)

lemma validate_time_unlimited:
  assumes "0 \<le> n" "n < 2 ^ 63 * 10 ^ 9"
  shows "validate_time m n U64_MAX =
    res_bind (ok_or (required_field_missing ''timestamp'') (rq_timestamp m)) (\<lambda>t. res_bind (as_system_time t) (\<lambda>_. Ok ()))"
proof (cases "rq_timestamp m")
  case None
  then show ?thesis by (simp add: validate_time_def U64_MAX_def)
next
  case (Some t)
  have max: "int (unat U64_MAX) = 2 ^ 64 - 1" "U64_MAX \<noteq> 0"
    by (simp_all add: U64_MAX_def unsigned_minus_1_eq_mask mask_eq_exp_minus_1)
  show ?thesis
  proof (cases "unat t < 2 ^ 63")
    case True
    then have "int (unat t) < 2 ^ 63"
      by (metis of_nat_less_iff of_nat_numeral of_nat_power)
    then have "(n - int (unat t) * 10 ^ 9) div 10 ^ 9 < 2 ^ 64 - 1" "(int (unat t) * 10 ^ 9 - n) div 10 ^ 9 < 2 ^ 64 - 1"
      using within_unlimited [OF assms, of "int (unat t)"] by simp_all
    then show ?thesis
      using Some True max by (simp add: validate_time_def as_system_time_def checked_add_secs_def Let_def del: of_nat_unat)
  next
    case False
    then show ?thesis
      using Some max by (simp add: validate_time_def as_system_time_def checked_add_secs_def)
  qed
qed

lemma replicas_open:
  assumes "replicas a b"
  shows "open_request X a e s = open_request X b e s"
proof -
  obtain n n' where "srv_time a (world s) = Ok n" "0 \<le> n" "n < 2 ^ 63 * 10 ^ 9" "srv_time b (world s) = Ok n'" "0 \<le> n'" "n' < 2 ^ 63 * 10 ^ 9"
    using assms unfolding replicas_def clock_in_range_def by metis
  then show ?thesis
    using assms by (simp add: open_request_def replicas_def validate_time_unlimited)
qed

text \<open>A request for both servers: to nobody in particular, or to the address they share.\<close>

definition for_both :: "srv_ext \<Rightarrow> ('w, 'c) many_server \<Rightarrow> ('w, 'c) many_server \<Rightarrow> cose_sign1 \<Rightarrow> bool" where
  "for_both X a b e \<longleftrightarrow> srv_address a = srv_address b \<or>
    (case request_try_from X e of Ok m \<Rightarrow> rq_to m = Anonymous | _ \<Rightarrow> True)"

lemma replicas_route:
  assumes "replicas a b" "for_both X a b e" "open_request X a e s = Ok m"
  shows "route_request E a e m s = route_request E b e m s"
proof -
  have "request_try_from X e = Ok m"
    using assms(3) by (auto simp: open_request_def decode_request_from_cose_sign1_def Let_def act_simps)
  then have "validate_id E a m = validate_id E b m"
    using assms(2) by (auto simp: for_both_def validate_id_def Let_def)
  then show ?thesis
    using assms(1) by (simp add: route_request_def find_module_def replicas_def)
qed

lemma replicas_run:
  assumes "replicas a b"
  shows "(\<exists>p t. run_module X a m q e s = (Panic p, t) \<and> run_module X b m q e s = (Panic p, t)) \<or>
    (\<exists>r r' t. same_outcome r r' \<and> run_module X a m q e s = reply X a r t \<and> run_module X b m q e s = reply X b r' t)"
proof -
  have v: "message_executed (srv_validator b) e r = message_executed (srv_validator a) e r'" for r r'
    using assms unfolding replicas_def ignores_response_def by metis
  have o': "same_outcome (module_response a q x) (module_response b q x)" for x
    by (simp add: same_outcome_def module_response_def response_error_def split: sum.splits)
  have ran: ?thesis if x: "attempt (on_world (mm_execute m q)) s = (Ok x, s1)" for x s1
  proof -
    obtain z c where z: "message_executed (srv_validator a) e (module_response a q x) (vstate s1) = (z, c)"
      by (cases "message_executed (srv_validator a) e (module_response a q x) (vstate s1)")
    then have "message_executed (srv_validator b) e (module_response b q x) (vstate s1) = (z, c)"
      unfolding v [of "module_response b q x" "module_response a q x"] .
    then show ?thesis
      unfolding run_module_def Let_def bnd_def [of "attempt (on_world (mm_execute m q))"] x
      using z o' [of x] by (cases z) (simp add: bnd_def attempt_def on_vstate_def lift_result_def, blast?)+
  qed
  obtain y w where "mm_execute m q (world s) = (y, w)"
    by (cases "mm_execute m q (world s)")
  then show ?thesis
    using ran by (cases y) (auto simp: run_module_def bnd_def attempt_def on_world_def)
qed

lemma replicas_execute:
  assumes "replicas a b" "for_both X a b e"
  shows "(\<exists>p t. server_execute X E a e s = (Panic p, t) \<and> server_execute X E b e s = (Panic p, t)) \<or>
    (\<exists>r r' t. same_outcome r r' \<and> server_execute X E a e s = reply X a r t \<and> server_execute X E b e s = reply X b r' t)"
    (is "?P (server_execute X E a e s) (server_execute X E b e s)")
proof -
  have err: "?P (reply X a (response_error (srv_address a) i x) s) (reply X b (response_error (srv_address b) i x) s)" for i x
  proof -
    have "same_outcome (response_error (srv_address a) i x) (response_error (srv_address b) i x)"
      by (simp add: same_outcome_def response_error_def)
    then show ?thesis by blast
  qed
  have fb: "srv_fallback a = None" "srv_fallback b = None"
    using assms(1) by (simp_all add: replicas_def)
  note opened = replicas_open [OF assms(1), of X e s, symmetric]
  show ?thesis
  proof (cases "open_request X a e s")
    case (Ok m)
    note routed = replicas_route [OF assms Ok, of E, symmetric]
    show ?thesis
    proof (cases "route_request E a e m s")
      case (Ok found)
      show ?thesis
        using err replicas_run [OF assms(1)]
        by (cases found) (simp_all only: server_execute_def opened routed Ok \<open>open_request X a e s = Ok m\<close> fb result.case option.case)
    qed (simp_all only: server_execute_def opened routed Ok err result.case, simp_all)
  qed (simp_all only: server_execute_def opened err result.case, simp_all)
qed

lemma replies_agree:
  assumes "wire_laws X A" "same_outcome r r'" "signs (srv_sign a)" "signs (srv_sign b)"
  shows "\<exists>c c' p p' q q'. reply X a r t = (Ok (Inr c), t) \<and> reply X b r' t = (Ok (Inr c'), t) \<and>
    cs_payload c = Some p \<and> cs_payload c' = Some p' \<and> response_decode A p = Inr q \<and> response_decode A p' = Inr q' \<and> same_outcome q q'"
proof -
  obtain p p' q q' where p: "response_encode X r = Inr p" "response_encode X r' = Inr p'"
    "response_decode A p = Inr q" "response_decode A p' = Inr q'" "same_outcome q q'"
    using assms(1,2) unfolding wire_laws_def by blast
  obtain c c' where "srv_sign a p = Inr c" "cs_payload c = Some p" "srv_sign b p' = Inr c'" "cs_payload c' = Some p'"
    using assms(3,4) unfolding signs_def by blast
  then show ?thesis
    using p by (simp add: reply_def encode_cose_sign1_from_response_def lift_result_def)
qed

text \<open>The server behind the URL of the application, reached over HTTP; a server that panics closes the connection.\<close>

definition node_post ::
  "srv_ext \<Rightarrow> 'x addr_ext_scheme \<Rightarrow> ('w, 'c) many_server \<Rightarrow> bytes \<Rightarrow> ('w, 'c) srv_state \<Rightarrow>
   (string + nat \<times> (string + bytes)) \<times> ('w, 'c) srv_state" where
  "node_post X E srv body s =
    (case handle_request X (server_execute X E srv) (Some (length body)) body s of
       (Ok (HttpEmpty code), t) \<Rightarrow> (Inr (code, Inr []), t)
     | (Ok (HttpData d), t) \<Rightarrow> (Inr (200, Inr d), t)
     | (_, t) \<Rightarrow> (Inl ''connection closed'', t))"

lemma consensus_agrees:
  assumes "cs_payload c = Some p" "response_decode A p = Inr q" "cs_payload c' = Some p'" "response_decode A p' = Inr q'" "same_outcome q q'"
  shows "consensus_response A ms c = consensus_response A ms c'"
  using assms by (cases q; cases q') (simp add: consensus_response_def Let_def same_outcome_def)

lemma for_both_payload:
  "for_both X a b e \<Longrightarrow> cs_payload e' = cs_payload e \<Longrightarrow> for_both X a b e'"
  by (simp add: for_both_def request_try_from_def)

lemma send_envelope_agrees:
  assumes "wire_laws X A" "replicas a b" "for_both X a b cose" "http_post A = node_post X E a"
    and "A' = A\<lparr>http_post := node_post X E b, wall_clock := w\<rparr>"
  shows "(\<exists>e t. send_envelope X A cose s = (Err e, t) \<and> send_envelope X A' cose s = (Err e, t)) \<or>
    (\<exists>c c' t. send_envelope X A cose s = (Ok c, t) \<and> send_envelope X A' cose s = (Ok c', t) \<and>
       (\<forall>ms :: (unit, 'v) migration_set. consensus_response A ms c = consensus_response A ms c'))"
proof -
  obtain body e where body: "cose_to_tagged X cose = Inr body" "cose_from_tagged X body = Inr e" "cs_payload e = cs_payload cose"
    using assms(1) unfolding wire_laws_def by blast
  have S: "signs (srv_sign a)" "signs (srv_sign b)"
    using assms(2) by (simp_all add: replicas_def)
  show ?thesis
  proof (cases "READ_BUFFER_LEN < length body")
    case True
    then show ?thesis
      using body assms(4,5) by (simp add: send_envelope_def node_post_def handle_request_def ret_def)
  next
    case False
    consider p t where "server_execute X E a e s = (Panic p, t)" "server_execute X E b e s = (Panic p, t)"
      | r r' t where "same_outcome r r'" "server_execute X E a e s = reply X a r t" "server_execute X E b e s = reply X b r' t"
      using replicas_execute [OF assms(2) for_both_payload [OF assms(3) body(3)], of E s] by blast
    then show ?thesis
    proof cases
      case 1
      then show ?thesis
        using body False assms(4,5) by (simp add: send_envelope_def node_post_def handle_request_def bnd_def)
    next
      case 2
      obtain c c' p p' q q' where r: "server_execute X E a e s = (Ok (Inr c), t)" "server_execute X E b e s = (Ok (Inr c'), t)"
        and c: "cs_payload c = Some p" "cs_payload c' = Some p'" "response_decode A p = Inr q" "response_decode A p' = Inr q'" "same_outcome q q'"
        using replies_agree [OF assms(1) 2(1) S] 2(2,3) by metis
      obtain d d' k k' where d: "cose_to_tagged X c = Inr d" "cose_from_tagged X d = Inr k" "cs_payload k = cs_payload c"
        "cose_to_tagged X c' = Inr d'" "cose_from_tagged X d' = Inr k'" "cs_payload k' = cs_payload c'"
        using assms(1) unfolding wire_laws_def by metis
      have "consensus_response A ms k = consensus_response A ms k'" for ms :: "(unit, 'v) migration_set"
        using c d by (intro consensus_agrees) auto
      then show ?thesis
        using body False assms(4,5) r d by (simp add: send_envelope_def node_post_def handle_request_def bnd_def ret_def)
    qed
  qed
qed


section \<open>Transactions are delivered once\<close>

text \<open>The calls of Tendermint that change the application.\<close>

inductive abci_step :: "srv_ext \<Rightarrow> 'b abci_ext \<Rightarrow> 'c request_validator \<Rightarrow> ('b, 'c, 'v) abci_app \<Rightarrow> ('b, 'c, 'v) abci_app \<Rightarrow> bool"
  for X A v where
  begun: "app_begin_block X A h s = (Ok (), t) \<Longrightarrow> abci_step X A v s t"
| delivered_tx: "deliver_tx X A v tx s = (Ok d, t) \<Longrightarrow> abci_step X A v s t"
| ended: "app_end_block X A s = (Ok (), t) \<Longrightarrow> abci_step X A v s t"
| committed: "app_commit X A s = (Ok rc, t) \<Longrightarrow> abci_step X A v s t"
| queried: "app_query X A data s = (Ok rq, t) \<Longrightarrow> abci_step X A v s t"
| informed: "app_info X A s = (Ok ri, t) \<Longrightarrow> abci_step X A v s t"

lemma keeps_cache:
  "keeps (\<lambda>s. app_cache s = c) (on_backend m)"
  "keeps (\<lambda>s. app_cache s = c) (modify (\<lambda>s. s\<lparr>app_migrations := f s\<rparr>))"
  "keeps (\<lambda>s. app_cache s = c) (modify (\<lambda>s. s\<lparr>app_block_time := u\<rparr>))"
  by (auto simp: keeps_def on_backend_def modify_def split: prod.splits)

lemma keeps_case:
  "keeps P a \<Longrightarrow> (\<And>x. keeps P (f x)) \<Longrightarrow> keeps P (case z of None \<Rightarrow> a | Some x \<Rightarrow> f x)"
  "(\<And>y. keeps P (g y)) \<Longrightarrow> (\<And>x. keeps P (f x)) \<Longrightarrow> keeps P (case z' of Inl y \<Rightarrow> g y | Inr x \<Rightarrow> f x)"
  by (auto split: option.splits sum.splits)

lemma backend_calls_keep_cache:
  "keeps (\<lambda>s. app_cache s = c) (app_begin_block X A h)" "keeps (\<lambda>s. app_cache s = c) (app_end_block X A)"
  "keeps (\<lambda>s. app_cache s = c) (app_commit X A)" "keeps (\<lambda>s. app_cache s = c) (app_query X A data)"
  "keeps (\<lambda>s. app_cache s = c) (app_info X A)"
  unfolding app_begin_block_def app_end_block_def app_commit_def app_query_def app_info_def Let_def
  by (intro keeps_intros keeps_cache keeps_case)+

context request_cache
begin

lemma deliver_caches:
  assumes "deliver_tx X A (cache_validator X has put) tx s = (Ok d, t)" "good (app_cache s)"
  shows "good (app_cache t)" "has (app_cache s) k = Ok True \<Longrightarrow> has (app_cache t) k = Ok True"
    "dt_code d \<in> {DeliverSuccess, TransportResponseError} \<Longrightarrow> cose_from_slice A tx = Inr cose \<Longrightarrow> cs_payload cose = Some p \<Longrightarrow>
      has (app_cache t) (sha512 X p) = Ok True"
proof -
  note o' = deliver_tx_Ok [OF assms(1)]
  show "good (app_cache t)"
    using o' assms(2) by (auto dest: executed_cached(1))
  show "has (app_cache t) k = Ok True" if "has (app_cache s) k = Ok True"
    using o' assms(2) that by (auto dest: executed_cached(2))
  show "has (app_cache t) (sha512 X p) = Ok True"
    if "dt_code d \<in> {DeliverSuccess, TransportResponseError}" "cose_from_slice A tx = Inr cose" "cs_payload cose = Some p"
    using o' assms(2) that by (auto dest: executed_cached(3))
qed

lemma step_keeps:
  assumes "abci_step X A (cache_validator X has put) s t" "good (app_cache s)"
  shows "good (app_cache t) \<and> (has (app_cache s) k = Ok True \<longrightarrow> has (app_cache t) k = Ok True)"
  using assms
  by cases (auto dest: backend_calls_keep_cache [THEN keepsD, OF refl] intro: deliver_caches(1,2))

lemma steps_keep:
  assumes "(abci_step X A (cache_validator X has put))\<^sup>*\<^sup>* s t" "good (app_cache s)" "has (app_cache s) k = Ok True"
  shows "good (app_cache t) \<and> has (app_cache t) k = Ok True"
  using assms(1)
proof (induction rule: rtranclp_induct)
  case (step y z)
  then show ?case using step_keeps [OF step(2), of k] by simp
qed (use assms in simp)

lemma cached_not_accepted:
  assumes "has (app_cache s) (sha512 X p) = Ok True" "cose_from_slice A tx = Inr cose" "cs_payload cose = Some p" "request_try_from X cose = Ok m"
  shows "check_tx X A (cache_validator X has put) tx s = Ok \<lparr>ct_code = ValidationError, ct_log = ''Transaction already in cache''\<rparr>"
  using assms(2,4) cached_rejected [OF assms(1,3)] by (simp add: check_tx_def do_check_tx_def check_step_def)

end

text \<open>C14: With the request cache as its validator, once the application has delivered a transaction that the server
  answered, it accepts no transaction with the same payload: after any further calls of Tendermint, \<open>check_tx\<close>
  rejects it, and a server of the front end that shares the cache does not open it.\<close>

theorem delivered_not_accepted:
  assumes "rocks_laws R V" "v = cache_validator X (rocks_has R) (rocks_put R)"
    and "deliver_tx X A v tx s = (Ok d, t)" "dt_code d \<in> {DeliverSuccess, TransportResponseError}" "(abci_step X A v)\<^sup>*\<^sup>* t u"
    and "cose_from_slice A tx = Inr cose" "cose_from_slice A tx' = Inr cose'" "cs_payload cose' = cs_payload cose"
    and "request_try_from X cose' = Ok m" "srv_validator srv = pair_validator w (validate_only v)"
  shows "check_tx X A v tx' u = Ok \<lparr>ct_code = ValidationError, ct_log = ''Transaction already in cache''\<rparr> \<and>
    open_request X srv cose' \<lparr>world = z, vstate = (k, app_cache u)\<rparr> \<noteq> Ok m'"
proof -
  obtain p where p: "cs_payload cose' = Some p"
    using assms(9) by (auto simp: request_try_from_def act_simps)
  have "rocks_has R (app_cache t) (sha512 X p) = Ok True"
    using rocks.deliver_caches(3) assms(1-4,6,8) p by metis
  then have u: "rocks_has R (app_cache u) (sha512 X p) = Ok True"
    using rocks.steps_keep assms(1,2,5) by metis
  have "validate_envelope (srv_validator srv) cose' (k, app_cache u) \<noteq> Ok ()"
    using rocks.cached_rejected [OF u p] assms(2,10) by (auto simp: pair_validator_def validate_only_def res_bind_Ok)
  then show ?thesis
    using rocks.cached_not_accepted [OF u assms(7) p assms(9)] assms(2) by (auto simp: open_request_def res_bind_Ok)
qed

section \<open>An instance\<close>

text \<open>Nodes around the counting module, whose wire formats keep payloads and the data of responses.\<close>

definition wire_ext :: srv_ext where
  "wire_ext = plain_srv_ext
    \<lparr>cose_to_tagged := (\<lambda>c. Inr (case cs_payload c of None \<Rightarrow> [] | Some p \<Rightarrow> 1 # p)),
     cose_from_tagged := (\<lambda>b. Inr \<lparr>cs_headers = [], cs_payload = (case b of [] \<Rightarrow> None | _ # p \<Rightarrow> Some p), cs_signature = []\<rparr>),
     response_encode := (\<lambda>r. Inr (case rm_data r of Inl _ \<Rightarrow> [] | Inr d \<Rightarrow> 1 # d))\<rparr>"

definition replica :: "u8 \<Rightarrow> clock_time \<Rightarrow> (nat, unit) many_server" where
  "replica i n = (server_new (PublicKey (ucast i)) (\<lambda>p. Inr \<lparr>cs_headers = [], cs_payload = Some p, cs_signature = [i]\<rparr>)
      (\<lambda>_. Ok Anonymous) (\<lambda>_. Ok n))
    \<lparr>srv_modules := [counting_module], srv_method_cache := [''count''], srv_timeout := U64_MAX\<rparr>"

definition node_ext :: "(nat, unit) many_server \<Rightarrow> (nat, unit) srv_state abci_ext" where
  "node_ext srv = \<lparr>http_post = node_post wire_ext nibble_ext srv, fresh_nonce = (\<lambda>b. ([], b)), wall_clock = (\<lambda>_. 0),
     request_encode = (\<lambda>_. Inr []),
     response_decode = (\<lambda>b. Inr (response_default\<lparr>rm_data := (case b of [] \<Rightarrow> Inl invalid_identity | _ # d \<Rightarrow> Inr d)\<rparr>)),
     sign_anonymous = (\<lambda>p. Inr \<lparr>cs_headers = [], cs_payload = Some p, cs_signature = []\<rparr>), client_verifier = (\<lambda>_. Ok Anonymous),
     cose_from_slice = (\<lambda>_. Inr counting_envelope), cose_to_vec = (\<lambda>_. Inr []), block_encode = (\<lambda>_. Inr []), unit_encode = Inr [],
     info_decode = (\<lambda>_. Inr \<lparr>info_height = 0, info_hash = []\<rparr>),
     commit_info_decode = (\<lambda>_. Inr \<lparr>retain_height = 0, commit_hash = []\<rparr>), status_name = (\<lambda>_. Inr ''counter'')\<rparr>"

definition node_app :: "'c \<Rightarrow> ((nat, unit) srv_state, 'c, bytes) abci_app" where
  "node_app c = \<lparr>app_name = ''counter'', app_server_id = Anonymous, app_backend = \<lparr>world = 0, vstate = ()\<rparr>, app_cache = c,
     app_migrations = [], app_block_time = None\<rparr>"

lemmas node_defs = wire_ext_def replica_def server_new_def counting_module_def counting_envelope_def counting_request_def
  plain_srv_ext_def unit_validator_def

lemma node_wire_laws: "wire_laws wire_ext (node_ext srv)"
  by (auto simp: wire_laws_def node_ext_def same_outcome_def node_defs split: option.splits)

lemma replica_pair:
  assumes "0 \<le> n" "n < 2 ^ 63 * 10 ^ 9" "0 \<le> m" "m < 2 ^ 63 * 10 ^ 9"
  shows "replicas (replica i n) (replica j m)"
  using assms by (simp add: replicas_def signs_def clock_in_range_def ignores_response_def node_defs)

lemma replica_for_both: "for_both wire_ext (replica i n) (replica j m) counting_envelope"
  by (simp add: for_both_def request_try_from_def node_defs)

lemma replica_counts:
  assumes "0 \<le> n" "n < 2 ^ 63 * 10 ^ 9" "cs_payload e = Some p"
  shows "server_execute wire_ext nibble_ext (replica i n) e \<lparr>world = k, vstate = ()\<rparr> =
    (Ok (Inr \<lparr>cs_headers = [], cs_payload = Some [1], cs_signature = [i]\<rparr>), \<lparr>world = k + 1, vstate = ()\<rparr>)"
proof -
  have r: "srv_validator (replica i n) = unit_validator" "srv_verifier (replica i n) = (\<lambda>_. Ok Anonymous)"
    "srv_time (replica i n) = (\<lambda>_. Ok n)" "srv_timeout (replica i n) = U64_MAX" "srv_modules (replica i n) = [counting_module]"
    by (simp_all add: replica_def server_new_def)
  have "open_request wire_ext (replica i n) e \<lparr>world = k, vstate = ()\<rparr> = Ok counting_request"
    using assms(3) unfolding open_request_def r
    by (simp add: validate_time_unlimited [OF assms(1,2)] decode_request_from_cose_sign1_def request_try_from_def as_system_time_def checked_add_secs_def Let_def matches_def
        wire_ext_def plain_srv_ext_def unit_validator_def counting_request_def)
  moreover have "route_request nibble_ext (replica i n) e counting_request \<lparr>world = k, vstate = ()\<rparr> = Ok (Some counting_module)"
    by (simp add: route_request_def validate_id_def find_module_def Let_def r counting_module_def counting_request_def)
  ultimately show ?thesis
    by (simp add: server_execute_def)
      (simp add: run_module_def module_response_def response_default_def Let_def bnd_def attempt_def on_world_def on_vstate_def ret_def lift_result_def
        reply_def encode_cose_sign1_from_response_def node_defs)
qed

lemma node_answers:
  assumes "0 \<le> n" "n < 2 ^ 63 * 10 ^ 9"
  shows "send_envelope wire_ext (node_ext (replica i n)) counting_envelope \<lparr>world = k, vstate = ()\<rparr> =
    (Ok \<lparr>cs_headers = [], cs_payload = Some [1], cs_signature = []\<rparr>, \<lparr>world = k + 1, vstate = ()\<rparr>)"
  using replica_counts [OF assms]
  by (simp add: send_envelope_def node_ext_def node_post_def handle_request_def READ_BUFFER_LEN_def bnd_def ret_def wire_ext_def counting_envelope_def)

lemma node_delivers:
  assumes "0 \<le> n" "n < 2 ^ 63 * 10 ^ 9" "\<And>r. message_executed v counting_envelope r c = (Ok (), c')"
  shows "deliver_tx wire_ext (node_ext (replica i n)) v tx (node_app c) =
    (Ok \<lparr>dt_code = DeliverSuccess, dt_data = [1], dt_log = []\<rparr>,
     (node_app c')\<lparr>app_backend := \<lparr>world = 1, vstate = ()\<rparr>\<rparr>)"
proof -
  have "cose_from_slice (node_ext (replica i n)) tx = Inr counting_envelope"
    "response_decode (node_ext (replica i n)) [1] = Inr response_default"
    by (simp_all add: node_ext_def response_default_def)
  then show ?thesis
    using node_answers [OF assms(1,2), of i 0] assms(3)
    by (simp add: deliver_tx_def deliver_answer_def bnd_def attempt_def on_backend_def on_cache_def query_def ret_def node_app_def
        consensus_response_def ms_is_active_def response_to_bytes_def response_default_def wire_ext_def)
qed


theorem delivered_not_accepted_witness:
  "\<exists>d t. deliver_tx wire_ext (node_ext (replica 1 (12 * 10 ^ 9))) (cache_validator wire_ext (rocks_has list_rocks) (rocks_put list_rocks))
      [7] (node_app []) = (Ok d, t) \<and> dt_code d = DeliverSuccess \<and>
    check_tx wire_ext (node_ext (replica 1 (12 * 10 ^ 9))) (cache_validator wire_ext (rocks_has list_rocks) (rocks_put list_rocks)) [8] t =
      Ok \<lparr>ct_code = ValidationError, ct_log = ''Transaction already in cache''\<rparr>"
proof -
  let ?v = "cache_validator wire_ext (rocks_has list_rocks) (rocks_put list_rocks)" and ?A = "node_ext (replica 1 (12 * 10 ^ 9))"
  let ?srv = "add_validator (replica 1 (12 * 10 ^ 9)) (validate_only ?v)"
  have v: "message_executed ?v counting_envelope r [] = (Ok (), [([1], [])])" for r
    by (simp add: cache_validator_def rocks_put_def list_rocks_def bnd_def lift_result_def wire_ext_def plain_srv_ext_def counting_envelope_def)
  let ?t = "(node_app [([1 :: u8], [] :: bytes)])\<lparr>app_backend := \<lparr>world = 1, vstate = ()\<rparr>\<rparr>"
  have d: "deliver_tx wire_ext ?A ?v [7] (node_app []) = (Ok \<lparr>dt_code = DeliverSuccess, dt_data = [1], dt_log = []\<rparr>, ?t)"
    by (rule node_delivers [OF _ _ v]) simp_all
  have m: "request_try_from wire_ext counting_envelope = Ok counting_request"
    by (simp add: request_try_from_def wire_ext_def plain_srv_ext_def counting_envelope_def)
  have c: "cose_from_slice ?A tx = Inr counting_envelope" for tx
    by (simp add: node_ext_def)
  have s: "srv_validator ?srv = pair_validator unit_validator (validate_only ?v)"
    by (simp add: add_validator_def replica_def server_new_def)
  have "check_tx wire_ext ?A ?v [8] ?t = Ok \<lparr>ct_code = ValidationError, ct_log = ''Transaction already in cache''\<rparr>"
    using delivered_not_accepted [OF list_rocks_laws refl d _ rtranclp.rtrancl_refl c c refl m s] by simp
  with d show ?thesis by (metis response_deliver_tx.select_convs(1))
qed

section \<open>What reaches Tendermint\<close>

lemma tendermint_state: "snd (bnd (\<lambda>t. tendermint (g t)) (\<lambda>x. lift_result (f x)) t) = snd (g t)"
  by (cases "fst (g t)") (simp_all add: bnd_def tendermint_def lift_result_def)

lemma execute_message_cases:
  assumes "execute_message X A fe e t = (r, u)"
  shows "u = t \<or> (\<exists>message data c. decode_request_from_cose_sign1 X e (fe_verifier fe) = Ok message \<and>
    map_of (fe_endpoints fe) (rq_method message) = Some c \<and> cose_to_vec A e = Inr data \<and>
    (if c then (\<forall>as. fe_allow_addrs fe = Some as \<longrightarrow> (case rq_from message of Some a \<Rightarrow> a | None \<Rightarrow> Anonymous) \<in> set as) \<and>
         u = snd (fe_broadcast_tx_sync fe data t)
     else u = snd (fe_abci_query fe data t)))"
proof (cases "\<exists>message data c. decode_request_from_cose_sign1 X e (fe_verifier fe) = Ok message \<and>
    map_of (fe_endpoints fe) (rq_method message) = Some c \<and> cose_to_vec A e = Inr data")
  case False
  then show ?thesis
    using assms unfolding execute_message_def
    by (cases "decode_request_from_cose_sign1 X e (fe_verifier fe)"; cases "cose_to_vec A e")
      (auto simp: bnd_def lift_result_def fail_def split: option.splits)
next
  case True
  then obtain message data c where m: "decode_request_from_cose_sign1 X e (fe_verifier fe) = Ok message"
    "map_of (fe_endpoints fe) (rq_method message) = Some c" "cose_to_vec A e = Inr data" by blast
  have "snd (execute_message X A fe e t) = u"
    using assms by simp
  then show ?thesis
    using m by (cases c) (auto simp: execute_message_def bnd_def [of "lift_result _"] bnd_def [of "fail_if _ _"] lift_result_def [of "Ok _"]
        fail_if_def tendermint_state Let_def split: option.splits if_splits)
qed

text \<open>C15: The front end reaches Tendermint only for a request that is signed by a legal identity matching its sender and
  whose method is an endpoint of the service; a command is broadcast once, and only for a sender in the list of
  allowed addresses if there is one; a query is never broadcast.\<close>

theorem broadcast_authorised:
  assumes "frontend_execute X A fe e t = (r, u)" "u \<noteq> t"
  shows "\<exists>signer message data c. fe_verifier fe e = Ok signer \<and> \<not> is_illegal signer \<and> request_try_from X e = Ok message \<and>
    matches signer (case rq_from message of Some a \<Rightarrow> a | None \<Rightarrow> Anonymous) \<and>
    map_of (fe_endpoints fe) (rq_method message) = Some c \<and> cose_to_vec A e = Inr data \<and>
    (if c then (\<forall>as. fe_allow_addrs fe = Some as \<longrightarrow> (case rq_from message of Some a \<Rightarrow> a | None \<Rightarrow> Anonymous) \<in> set as) \<and>
         u = snd (fe_broadcast_tx_sync fe data t)
     else u = snd (fe_abci_query fe data t))"
proof -
  obtain x where x: "execute_message X A fe e t = (x, u)"
    using assms(1) by (cases "execute_message X A fe e t"; cases "fst (execute_message X A fe e t)")
      (auto simp: frontend_execute_def bnd_def attempt_def ret_def lift_result_def)
  then obtain message data c where m: "decode_request_from_cose_sign1 X e (fe_verifier fe) = Ok message"
    "map_of (fe_endpoints fe) (rq_method message) = Some c" "cose_to_vec A e = Inr data"
    "if c then (\<forall>as. fe_allow_addrs fe = Some as \<longrightarrow> (case rq_from message of Some a \<Rightarrow> a | None \<Rightarrow> Anonymous) \<in> set as) \<and>
         u = snd (fe_broadcast_tx_sync fe data t)
     else u = snd (fe_abci_query fe data t)"
    using execute_message_cases [OF x] assms(2) by blast
  moreover obtain signer where "fe_verifier fe e = Ok signer" "\<not> is_illegal signer" "request_try_from X e = Ok message"
    "matches signer (case rq_from message of Some a \<Rightarrow> a | None \<Rightarrow> Anonymous)"
    using m(1) by (auto simp: decode_request_from_cose_sign1_def Let_def act_simps)
  ultimately show ?thesis by blast
qed

text \<open>A front end whose Tendermint records what is broadcast.\<close>

definition listing_frontend :: "bytes list abci_frontend" where
  "listing_frontend = \<lparr>fe_broadcast_tx_sync = (\<lambda>d t. (Inr [9], d # t)), fe_abci_query = (\<lambda>d t. (Inr d, t)), fe_address = PublicKey 1,
     fe_sign = (\<lambda>p. Inr \<lparr>cs_headers = [], cs_payload = Some p, cs_signature = []\<rparr>), fe_verifier = (\<lambda>_. Ok Anonymous),
     fe_endpoints = [(''count'', True)], fe_allow_addrs = Some [Anonymous]\<rparr>"

theorem broadcast_authorised_witness:
  "\<exists>r data. frontend_execute wire_ext (node_ext (replica 1 0)) listing_frontend counting_envelope [] = (r, [data]) \<and>
    cose_to_vec (node_ext (replica 1 0)) counting_envelope = Inr data"
proof -
  obtain r u where run: "frontend_execute wire_ext (node_ext (replica 1 0)) listing_frontend counting_envelope [] = (r, u)"
    by (cases "frontend_execute wire_ext (node_ext (replica 1 0)) listing_frontend counting_envelope []")
  have "u \<noteq> []"
    using run by (auto simp: frontend_execute_def execute_message_def decode_request_from_cose_sign1_def request_try_from_def bnd_def attempt_def
        lift_result_def fail_if_def tendermint_def matches_def Let_def ret_def encode_cose_sign1_from_response_def listing_frontend_def
        node_ext_def node_defs)
  then obtain data where "cose_to_vec (node_ext (replica 1 0)) counting_envelope = Inr data"
    "u = snd (fe_broadcast_tx_sync listing_frontend data []) \<or> u = snd (fe_abci_query listing_frontend data [])"
    using broadcast_authorised [OF run] by meson
  with run \<open>u \<noteq> []\<close> show ?thesis
    by (auto simp: listing_frontend_def)
qed

end
