(* ===== verification/Spec2Isabelle.thy ===== *)
theory Spec2Isabelle
  imports Ledger_Module Event_List Idstore Kv_Log Abci_Consensus
begin

text \<open>
  A verification development for the MANY services, the Rust workspace under \<open>src/src\<close>.

  \<^bold>\<open>The program.\<close> A MANY server answers signed requests. The ledger service (\<open>many-ledger\<close>) keeps
  balances, tokens, accounts, multisig transactions and an event log in a Merkle tree on disk
  (\<open>merk\<close>). In blockchain mode a block of commands is applied to the tree in memory and written by
  \<open>commit\<close>, which also runs migrations at configured heights; otherwise every command commits. The key-value
  store (\<open>many-kvstore\<close>) is a second service on the same store. In a blockchain, clients talk to the front end of
  the bridge (\<open>many-abci\<close>), which sends commands to Tendermint; Tendermint calls the application of the bridge on
  every node, and that forwards each transaction to the server of the node.

  \<^bold>\<open>How the code is modelled.\<close> A \<open>Result\<close> is a \<^typ>\<open>'a result\<close> with a third outcome for panics;
  code that changes the storage is an action on the state (\<open>Many_Error\<close>). Integers keep their
  width. Third-party code is a parameter. The record \<open>ext\<close> of \<open>Store\<close> has \<open>merk\<close>, base32, CRC-16, the big integers of
  \<open>num-bigint\<close> and the CBOR codecs of \<open>minicbor\<close>; \<open>mig_ext\<close> has JSON and hexadecimal texts, \<open>id_ext\<close> the phrases and keys of
  the identity store, \<open>srv_ext\<close> envelopes and hashes, \<open>rocks_ext\<close> the database of the request cache and \<open>abci_ext\<close> HTTP,
  nonces, the clock and the wire formats of the bridge. What the code relies on is stated as \<open>addr_laws\<close>, \<open>num_laws\<close>,
  \<open>merk_laws\<close>, \<open>merk_reliable\<close> (a store without I/O errors), \<open>codec_ok\<close>, \<open>codec_total\<close>, \<open>rocks_laws\<close> and \<open>wire_laws\<close>. \<open>Mem_Store\<close>
  has an instance of the store that satisfies its laws; the other instances stand beside their witnesses.
  \<open>V\<close> always stands for the contents of the store with everything applied so far and \<open>C\<close> for what is
  on disk.

  \<^bold>\<open>Theories.\<close>
  \<^item> \<open>Prelude\<close>: bytes, big-endian numbers, UTF-8, sorted key lists, invariants of transition systems.
  \<^item> \<open>Many_Error\<close>: \<open>many-error\<close> and the error constructors of the ledger crates; results and actions.
  \<^item> \<open>Address\<close>: \<open>many-identity/src/address.rs\<close>, byte and text forms, subresources, order.
  \<^item> \<open>BTree\<close>: \<open>BTreeMap\<close> and \<open>BTreeSet\<close> as sorted association lists, against the locale
    \<open>ordered_map\<close>.
  \<^item> \<open>Types\<close>: \<open>many-types\<close>, amounts, fees, timestamps, attributes, memos.
  \<^item> \<open>Account\<close>: accounts, roles and features of \<open>many-modules/src/_9_account\<close>.
  \<^item> \<open>Migration\<close>: \<open>many-migration/src/lib.rs\<close>.
  \<^item> \<open>Events\<close>: events, endpoint arguments and token information of \<open>many-modules\<close>.
  \<^item> \<open>Keys\<close>, \<open>Store\<close>, \<open>Mem_Store\<close>: the keys of the ledger and the interface of its store.
  \<^item> \<open>Storage\<close>: \<open>many-ledger/src/storage.rs\<close>, \<open>storage/event.rs\<close>, \<open>storage/iterator.rs\<close>.
  \<^item> \<open>Balances\<close>: \<open>storage/ledger.rs\<close>, \<open>storage/ledger_commands.rs\<close>, \<open>storage/data.rs\<close>,
    \<open>migration/data.rs\<close>.
  \<^item> \<open>Tokens\<close>, \<open>Token_Supply\<close>: \<open>storage/ledger_tokens.rs\<close>, \<open>storage/ledger_mintburn.rs\<close>, and the supply
    invariant over a step relation of all token operations.
  \<^item> \<open>Accounts_Store\<close>: \<open>storage/account.rs\<close> and the role checks of \<open>module/account.rs\<close>.
  \<^item> \<open>Multisig\<close>: \<open>storage/multisig.rs\<close>. Execution recurses through nested transactions; the model has
    a fuel argument that stands for the stack, and the properties show both that a chain of nested
    transactions needs no more fuel than its length and that no fuel is enough for a transaction
    that executes itself.
  \<^item> \<open>Ledger_Migrations\<close>: the migrations of \<open>migration/*.rs\<close>.
  \<^item> \<open>Blocks\<close>: opening a store, the end of a block (\<open>storage/abci.rs\<close>) and the ABCI interface of the
    ledger module.
  \<^item> \<open>Ledger_Module\<close>: the endpoints of \<open>module/*.rs\<close>, their guards, a relation of all calls that succeed, and
    who can reduce a balance or change an account.
  \<^item> \<open>Event_List\<close>: \<open>module/event.rs\<close>, the pages of the event log.
  \<^item> \<open>Idstore\<close>: \<open>storage/idstore.rs\<close> and \<open>module/idstore.rs\<close>.
  \<^item> \<open>Server\<close>: \<open>many-protocol\<close>, \<open>many-server\<close> and \<open>many-server-cache\<close>: envelopes, validators, routing and the
    handler of a request. The contract of a cache backend is the locale \<open>request_cache\<close>, interpreted for
    the RocksDB backend. A server handles one request at a time, since the code holds its lock meanwhile.
  \<^item> \<open>Kv_Store\<close>, \<open>Kv_Module\<close>, \<open>Kv_Log\<close>: \<open>many-kvstore\<close>. The commands refine an abstract store of values and owners, a
    key given to the illegal address never changes again, a listing is the sorted list of the matching keys, and
    outside a blockchain a restart makes the log overwrite an event.
  \<^item> \<open>Abci_App\<close>, \<open>Abci_Consensus\<close>: \<open>many-abci\<close> and the client of \<open>many-client\<close>. Composed with \<open>Server\<close>: replicas agree on
    every transaction they deliver, a delivered transaction is not accepted again, and the front end broadcasts only
    what it may. The requests of Tendermint are the steps of the relation \<open>abci_step\<close>.

  \<^bold>\<open>Bounds and fuel.\<close> Only the execution of nested multisig transactions and the search for an unused phrase have
  a bound in the model: the first stands for the stack (see \<open>Multisig\<close>), the second is the number of tries in the code.

  \<^bold>\<open>Not modelled.\<close>
  \<^item> The encoders and decoders of \<open>minicbor\<close> and \<open>serde\<close>, message templates and logging: they are parameters or have no
    influence on the state.
  \<^item> The status endpoint, the wrappers that the module macros generate, the wrappers that restrict senders to a list,
    and the read-only role, info and event endpoints of the key-value store.
  \<^item> Reading the initial state from its file; the operations it calls are modelled.
  \<^item> The web and compute services, which unpack archives on disk and drive an external deployment service.
  \<^item> The queries for blocks and transactions that \<open>many-abci/src/module.rs\<close> forwards to Tendermint, sockets, threads and
    poisoned locks.
  \<^item> Signatures, hardware keys and WebAuthn: a verifier and a signer are parameters.
  \<^item> Command line programs and procedural macros: argument parsing, network I/O and code generation.
\<close>

end
